(* ===== verification/Prelude.thy ===== *)
theory Prelude
  imports Main "HOL-Library.Char_ord" "HOL-Library.List_Lexorder"
begin

text \<open>
  Shared vocabulary of the development.

  \<^item> Fallible code: a Python function that may raise returns \<open>'e + 'a\<close>, \<open>Inl\<close> being the
    exception. \<open>bindR\<close> sequences two such computations, \<open>requireR\<close> is a guard that raises,
    \<open>mapR\<close> a comprehension whose body may raise, \<open>catchR\<close> an except-clause.
  \<^item> SQL tables are lists of rows in insertion order. \<open>upd_where\<close> is an UPDATE with a WHERE
    clause, \<open>List.find\<close> a SELECT by a unique key, \<open>sum_where\<close> an aggregate.
  \<^item> Four locales state contracts that several components share: a transition system with an
    inductive invariant, a keyed table whose rows are replaced in place, a bounded retry loop, and
    a bounded loop whose attempts pass a value on.
\<close>

section \<open>Results that may be exceptions\<close>

definition bindR :: "'e + 'a \<Rightarrow> ('a \<Rightarrow> 'e + 'b) \<Rightarrow> 'e + 'b" where
  "bindR m f = (case m of Inl e \<Rightarrow> Inl e | Inr x \<Rightarrow> f x)"

definition requireR :: "bool \<Rightarrow> 'e \<Rightarrow> 'e + unit" where
  "requireR b e = (if b then Inr () else Inl e)"

definition ofOption :: "'e \<Rightarrow> 'a option \<Rightarrow> 'e + 'a" where
  "ofOption e m = (case m of None \<Rightarrow> Inl e | Some x \<Rightarrow> Inr x)"

definition catchR :: "'e + 'a \<Rightarrow> ('e \<Rightarrow> ('e + 'a) option) \<Rightarrow> 'e + 'a" where
  "catchR m h = (case m of Inr x \<Rightarrow> Inr x | Inl e \<Rightarrow> (case h e of None \<Rightarrow> Inl e | Some r \<Rightarrow> r))"

lemma bindR_simps [simp]:
  "bindR (Inl e) f = Inl e"
  "bindR (Inr x) f = f x"
  by (simp_all add: bindR_def)

lemma bindR_eq_Inr [simp]: "bindR m f = Inr y \<longleftrightarrow> (\<exists>x. m = Inr x \<and> f x = Inr y)"
  by (cases m) auto

lemma bindR_eq_Inl: "bindR m f = Inl e \<longleftrightarrow> m = Inl e \<or> (\<exists>x. m = Inr x \<and> f x = Inl e)"
  by (cases m) auto

lemma bindR_assoc: "bindR (bindR m f) g = bindR m (\<lambda>x. bindR (f x) g)"
  by (cases m) auto

lemma bindR_cong [fundef_cong]:
  "m = m' \<Longrightarrow> (\<And>x. m' = Inr x \<Longrightarrow> f x = g x) \<Longrightarrow> bindR m f = bindR m' g"
  by (cases m') auto

lemma requireR_eq_Inr [simp]: "requireR b e = Inr u \<longleftrightarrow> b"
  by (simp add: requireR_def)

lemma requireR_eq_Inl [simp]: "requireR b e = Inl e' \<longleftrightarrow> \<not> b \<and> e' = e"
  by (auto simp: requireR_def)

lemma requireR_simps [simp]: "requireR True e = Inr ()" "requireR False e = Inl e"
  by (simp_all add: requireR_def)

lemma ofOption_eq_Inr [simp]: "ofOption e m = Inr x \<longleftrightarrow> m = Some x"
  by (auto simp: ofOption_def split: option.splits)

lemma ofOption_eq_Inl [simp]: "ofOption e m = Inl e' \<longleftrightarrow> m = None \<and> e' = e"
  by (auto simp: ofOption_def split: option.splits)

lemma ofOption_simps [simp]: "ofOption e None = Inl e" "ofOption e (Some x) = Inr x"
  by (simp_all add: ofOption_def)

lemma catchR_Inr [simp]: "catchR (Inr x) h = Inr x"
  by (simp add: catchR_def)

fun mapR :: "('a \<Rightarrow> 'e + 'b) \<Rightarrow> 'a list \<Rightarrow> 'e + 'b list" where
  "mapR f [] = Inr []"
| "mapR f (x # xs) = bindR (f x) (\<lambda>y. bindR (mapR f xs) (\<lambda>ys. Inr (y # ys)))"

lemma mapR_cong [fundef_cong]:
  "xs = ys \<Longrightarrow> (\<And>x. x \<in> set ys \<Longrightarrow> f x = g x) \<Longrightarrow> mapR f xs = mapR g ys"
  by (induction ys arbitrary: xs) (auto cong: bindR_cong)

lemma mapR_Inr_iff: "mapR f xs = Inr ys \<longleftrightarrow> list_all2 (\<lambda>x y. f x = Inr y) xs ys"
proof (induction xs arbitrary: ys)
  case Nil
  then show ?case by (cases ys) auto
next
  case (Cons x xs)
  then show ?case by (cases ys) auto
qed

lemma mapR_all_Inr: "(\<And>x. x \<in> set xs \<Longrightarrow> f x = Inr (g x)) \<Longrightarrow> mapR f xs = Inr (map g xs)"
  by (induction xs) auto

lemma mapR_Inr_member: "mapR f xs = Inr ys \<Longrightarrow> y \<in> set ys \<Longrightarrow> \<exists>x \<in> set xs. f x = Inr y"
  by (induction xs arbitrary: ys) auto

lemma mapR_map_fixpoint: "(\<And>y. y \<in> set ys \<Longrightarrow> f (g y) = Inr y) \<Longrightarrow> mapR f (map g ys) = Inr ys"
  by (induction ys) auto

section \<open>Retry loops\<close>

text \<open>
  \<open>for attempt in range(n)\<close> around one transaction: an exception of a retryable class rolls
  the transaction back and starts the next attempt unless this was the last one. \<open>others i\<close> is
  what other transactions commit before attempt \<open>i\<close>; \<open>unreachable\<close> is raised after the loop.
\<close>

fun retry_loop :: "('e \<Rightarrow> bool) \<Rightarrow> 'e \<Rightarrow> (nat \<Rightarrow> 's \<Rightarrow> 's) \<Rightarrow> (nat \<Rightarrow> 's \<Rightarrow> 'e + 'a \<times> 's) \<Rightarrow> nat \<Rightarrow> nat \<Rightarrow> 's \<Rightarrow>
    ('e + 'a) \<times> 's" where
  "retry_loop retryable unreachable others attempt i 0 s = (Inl unreachable, s)"
| "retry_loop retryable unreachable others attempt i (Suc n) s =
     (let s0 = others i s in
      case attempt i s0 of
        Inr (a, s') \<Rightarrow> (Inr a, s')
      | Inl e \<Rightarrow>
          if retryable e \<and> n \<noteq> 0 then retry_loop retryable unreachable others attempt (Suc i) n s0
          else (Inl e, s0))"

text \<open>
  The loops that write \<open>continue\<close>: an attempt either ends the loop with a result or an exception, or
  (\<open>None\<close>) rolls back and goes on, handing a value on to the next attempt. After the last one the
  loop falls through to \<open>raise exhausted\<close>.
\<close>

fun continue_loop :: "'e \<Rightarrow> (nat \<Rightarrow> 's \<Rightarrow> 's) \<Rightarrow> (nat \<Rightarrow> 'g \<Rightarrow> 's \<Rightarrow> 'g \<times> ('e + 'a \<times> 's) option) \<Rightarrow>
    nat \<Rightarrow> nat \<Rightarrow> 'g \<Rightarrow> 's \<Rightarrow> ('e + 'a) \<times> 's" where
  "continue_loop exhausted others attempt i 0 g s = (Inl exhausted, s)"
| "continue_loop exhausted others attempt i (Suc n) g s =
     (let s0 = others i s in
      case attempt i g s0 of
        (g', Some (Inr (a, s'))) \<Rightarrow> (Inr a, s')
      | (g', Some (Inl e)) \<Rightarrow> (Inl e, s0)
      | (g', None) \<Rightarrow> continue_loop exhausted others attempt (Suc i) n g' s0)"

section \<open>Tables\<close>

definition upd_where :: "('r \<Rightarrow> bool) \<Rightarrow> ('r \<Rightarrow> 'r) \<Rightarrow> 'r list \<Rightarrow> 'r list" where
  "upd_where P f rows = map (\<lambda>r. if P r then f r else r) rows"

definition sum_where :: "('r \<Rightarrow> bool) \<Rightarrow> ('r \<Rightarrow> int) \<Rightarrow> 'r list \<Rightarrow> int" where
  "sum_where P a rows = sum_list (map (\<lambda>r. if P r then a r else 0) rows)"

lemma sum_where_simps [simp]:
  "sum_where P a [] = 0"
  "sum_where P a (r # rs) = (if P r then a r else 0) + sum_where P a rs"
  "sum_where P a (rs @ rs') = sum_where P a rs + sum_where P a rs'"
  by (simp_all add: sum_where_def)

lemma sum_where_filter: "sum_where P a rows = sum_list (map a (filter P rows))"
  by (induction rows) auto

lemma sum_where_nonneg: "(\<And>r. r \<in> set rows \<Longrightarrow> P r \<Longrightarrow> 0 \<le> a r) \<Longrightarrow> 0 \<le> sum_where P a rows"
  by (induction rows) auto

lemma sum_where_zero: "(\<And>r. r \<in> set rows \<Longrightarrow> \<not> P r) \<Longrightarrow> sum_where P a rows = 0"
  by (induction rows) auto

lemma sum_where_member_le:
  "r \<in> set rows \<Longrightarrow> P r \<Longrightarrow> (\<And>r. r \<in> set rows \<Longrightarrow> P r \<Longrightarrow> 0 \<le> a r) \<Longrightarrow> a r \<le> sum_where P a rows"
proof (induction rows)
  case Nil
  then show ?case by simp
next
  case (Cons x rows)
  have "0 \<le> sum_where P a rows"
    by (rule sum_where_nonneg) (use Cons.prems(3) in auto)
  with Cons show ?case by fastforce
qed

lemma sum_where_cong:
  "(\<And>r. r \<in> set rows \<Longrightarrow> P r = Q r) \<Longrightarrow> (\<And>r. r \<in> set rows \<Longrightarrow> Q r \<Longrightarrow> a r = b r) \<Longrightarrow>
   sum_where P a rows = sum_where Q b rows"
  by (induction rows) auto

lemma upd_where_simps [simp]:
  "upd_where P f [] = []"
  "upd_where P f (r # rs) = (if P r then f r else r) # upd_where P f rs"
  "upd_where P f (rs @ rs') = upd_where P f rs @ upd_where P f rs'"
  "length (upd_where P f rs) = length rs"
  by (simp_all add: upd_where_def)

lemma set_upd_where: "set (upd_where P f rows) = (\<lambda>r. if P r then f r else r) ` set rows"
  by (simp add: upd_where_def)

lemma in_upd_whereE:
  assumes "r \<in> set (upd_where P f rows)"
  obtains r0 where "r0 \<in> set rows" "r = (if P r0 then f r0 else r0)"
  using assms by (auto simp: set_upd_where)

lemma map_upd_where: "(\<And>r. P r \<Longrightarrow> g (f r) = g r) \<Longrightarrow> map g (upd_where P f rows) = map g rows"
  by (simp add: upd_where_def)

lemma find_append:
  "List.find P (xs @ ys) = (case List.find P xs of None \<Rightarrow> List.find P ys | Some x \<Rightarrow> Some x)"
  by (induction xs) auto

lemma find_SomeD: "List.find P xs = Some x \<Longrightarrow> x \<in> set xs \<and> P x"
  by (induction xs) (auto split: if_splits)

lemma find_NoneD: "List.find P xs = None \<Longrightarrow> x \<in> set xs \<Longrightarrow> \<not> P x"
  by (auto simp: find_None_iff)

lemma find_cong: "xs = ys \<Longrightarrow> (\<And>x. x \<in> set ys \<Longrightarrow> P x = Q x) \<Longrightarrow> List.find P xs = List.find Q ys"
  by (induction ys arbitrary: xs) auto

lemma filter_length_1: "length (filter P xs) = 1 \<Longrightarrow> \<exists>x \<in> set xs. P x"
  by (induction xs) (auto split: if_splits)

lemma distinct_key_eq:
  "distinct (map k rows) \<Longrightarrow> a \<in> set rows \<Longrightarrow> b \<in> set rows \<Longrightarrow> k a = k b \<Longrightarrow> a = b"
  by (auto simp: distinct_map inj_on_def)

lemma find_key:
  "distinct (map k rows) \<Longrightarrow> r \<in> set rows \<Longrightarrow> List.find (\<lambda>x. k x = k r) rows = Some r"
  by (induction rows) (auto simp: rev_image_eqI split: if_splits)

lemma upd_where_cong:
  "(\<And>r. r \<in> set rows \<Longrightarrow> P r = Q r) \<Longrightarrow> (\<And>r. r \<in> set rows \<Longrightarrow> Q r \<Longrightarrow> f r = g r) \<Longrightarrow>
   upd_where P f rows = upd_where Q g rows"
  by (simp add: upd_where_def)

lemma upd_where_none: "(\<And>r. r \<in> set rows \<Longrightarrow> \<not> P r) \<Longrightarrow> upd_where P f rows = rows"
  by (induction rows) auto

text \<open>An UPDATE by unique key whose extra condition the row satisfies touches exactly that row.\<close>

lemma upd_where_keyed:
  assumes "distinct (map k rows)" "r \<in> set rows" "Q r"
  shows "upd_where (\<lambda>x. k x = k r \<and> Q x) f rows = upd_where (\<lambda>x. k x = k r) (\<lambda>_. f r) rows"
  using assms by (intro upd_where_cong) (auto dest: distinct_key_eq)

lemma find_keyed_guard:
  assumes "distinct (map k rows)" "r \<in> set rows" "Q r"
  shows "List.find (\<lambda>x. k x = k r \<and> Q x) rows = Some r"
proof -
  have "List.find (\<lambda>x. k x = k r \<and> Q x) rows = List.find (\<lambda>x. k x = k r) rows"
    using assms by (intro find_cong) (auto dest: distinct_key_eq)
  with assms show ?thesis by (simp add: find_key)
qed

lemma find_upd_where:
  assumes "\<And>r. P r \<Longrightarrow> k (f r) = k r"
  shows "List.find (\<lambda>x. k x = key) (upd_where P f rows) =
         map_option (\<lambda>r. if P r then f r else r) (List.find (\<lambda>x. k x = key) rows)"
  using assms by (induction rows) auto

text \<open>Replacing the row that has the same key.\<close>

definition replace_row :: "('r \<Rightarrow> 'k) \<Rightarrow> 'r \<Rightarrow> 'r list \<Rightarrow> 'r list" where
  "replace_row k r rows = upd_where (\<lambda>x. k x = k r) (\<lambda>_. r) rows"

lemma map_replace_row: "(\<And>x. x \<in> set rows \<Longrightarrow> k x = k r \<Longrightarrow> g x = g r) \<Longrightarrow> map g (replace_row k r rows) = map g rows"
  by (simp add: replace_row_def upd_where_def)

lemma keys_replace_row [simp]: "map k (replace_row k r rows) = map k rows"
  by (rule map_replace_row) simp

lemma key_set_replace_row [simp]: "k ` set (replace_row k r rows) = k ` set rows"
  by (metis keys_replace_row list.set_map)

lemma in_replace_row: "x \<in> set (replace_row k r rows) \<Longrightarrow> x = r \<or> (x \<in> set rows \<and> k x \<noteq> k r)"
  by (auto simp: replace_row_def set_upd_where split: if_splits)

lemma replaced_in_row: "r0 \<in> set rows \<Longrightarrow> k r0 = k r \<Longrightarrow> r \<in> set (replace_row k r rows)"
  by (auto simp: replace_row_def set_upd_where image_iff)

lemma find_replace_row_other:
  "key \<noteq> k r \<Longrightarrow> List.find (\<lambda>x. k x = key) (replace_row k r rows) = List.find (\<lambda>x. k x = key) rows"
  by (induction rows) (auto simp: replace_row_def)

lemma find_replace_row:
  assumes "r0 \<in> set rows" "k r0 = k r"
  shows "List.find (\<lambda>x. k x = key) (replace_row k r rows) =
         (if key = k r then Some r else List.find (\<lambda>x. k x = key) rows)"
proof (cases "key = k r")
  case True
  have "List.find (\<lambda>x. k x = k r) (replace_row k r rows) = Some r"
    using assms by (induction rows) (auto simp: replace_row_def)
  with True show ?thesis by simp
qed (simp add: find_replace_row_other)

lemma list_all_replace_row: "list_all P rows \<Longrightarrow> P r \<Longrightarrow> list_all P (replace_row k r rows)"
  by (auto simp: list_all_iff dest: in_replace_row)

lemma list_all2_replace_row:
  assumes "distinct (map k rows)" "r \<in> set rows" "k r' = k r" "R r r'" "\<And>x. R x x"
  shows "list_all2 R rows (replace_row k r' rows)"
proof -
  have "R x (if k x = k r' then r' else x)" if "x \<in> set rows" for x
    using assms that distinct_key_eq [OF assms(1) that assms(2)] by auto
  then show ?thesis by (simp add: replace_row_def upd_where_def list.rel_map list_all2_same)
qed

lemma upd_where_replace_row:
  assumes "distinct (map k rows)" "r \<in> set rows" "Q r" "k (f r) = k r"
  shows "upd_where (\<lambda>x. k x = k r \<and> Q x) f rows = replace_row k (f r) rows"
  using upd_where_keyed [of k rows r Q f] assms by (simp add: replace_row_def)

lemma sum_where_replace_row:
  assumes "distinct (map k rows)" "r \<in> set rows" "k r' = k r"
  shows "sum_where P a (replace_row k r' rows) =
         sum_where P a rows - (if P r then a r else 0) + (if P r' then a r' else 0)"
  using assms
proof (induction rows)
  case Nil
  then show ?case by simp
next
  case (Cons x rows)
  show ?case
  proof (cases "x = r")
    case True
    with Cons.prems have "replace_row k r' rows = rows"
      unfolding replace_row_def by (intro upd_where_none) (auto simp: image_iff)
    with True Cons.prems show ?thesis by (simp add: replace_row_def)
  next
    case False
    with Cons.prems have "r \<in> set rows" "k x \<noteq> k r" by (auto simp: image_iff)
    with Cons show ?thesis by (simp add: replace_row_def)
  qed
qed

section \<open>Interfaces\<close>

text \<open>
  A transition system with an invariant: every state reached from an initial one satisfies it.
\<close>

inductive reach :: "('s \<Rightarrow> bool) \<Rightarrow> ('s \<Rightarrow> 's \<Rightarrow> bool) \<Rightarrow> 's \<Rightarrow> bool" for init step where
  reach_init: "init s \<Longrightarrow> reach init step s"
| reach_step: "reach init step s \<Longrightarrow> step s s' \<Longrightarrow> reach init step s'"

locale invariant_system =
  fixes init :: "'s \<Rightarrow> bool" and step :: "'s \<Rightarrow> 's \<Rightarrow> bool" and inv :: "'s \<Rightarrow> bool"
  assumes init_inv: "init s \<Longrightarrow> inv s"
    and step_inv: "inv s \<Longrightarrow> step s s' \<Longrightarrow> inv s'"
begin

lemma reach_inv: "reach init step s \<Longrightarrow> inv s"
  by (induction rule: reach.induct) (auto intro: init_inv step_inv)

lemma steps_inv: "step\<^sup>*\<^sup>* s s' \<Longrightarrow> inv s \<Longrightarrow> inv s'"
  by (induction rule: rtranclp_induct) (auto intro: step_inv)

end

text \<open>
  Rows guarded by a revision column. \<open>cas key v arg\<close> replaces the row under \<open>key\<close> only when
  its revision is \<open>v\<close>, and then the revision grows by one. Of two writers that read the same
  revision at most one succeeds, whatever they write.
\<close>

locale cas_store =
  fixes wf :: "'s \<Rightarrow> bool" and get :: "'s \<Rightarrow> 'k \<Rightarrow> 'r option" and rev :: "'r \<Rightarrow> int"
    and cas :: "'k \<Rightarrow> int \<Rightarrow> 'arg \<Rightarrow> 's \<Rightarrow> 'e + 'r \<times> 's"
  assumes cas_hit: "wf s \<Longrightarrow> cas k v a s = Inr (r, s') \<Longrightarrow>
      wf s' \<and> (\<exists>r0. get s k = Some r0 \<and> rev r0 = v) \<and> get s' k = Some r \<and> rev r = v + 1"
    and cas_frame: "wf s \<Longrightarrow> cas k v a s = Inr (r, s') \<Longrightarrow> k' \<noteq> k \<Longrightarrow> get s' k' = get s k'"
begin

lemma no_lost_update:
  assumes "wf s" "cas k v a s = Inr (r, s')"
  shows "\<nexists>x. cas k v b s' = Inr x"
proof
  assume "\<exists>x. cas k v b s' = Inr x"
  then obtain r2 s2 where "cas k v b s' = Inr (r2, s2)" by auto
  with assms show False using cas_hit [of s k v a r s'] cas_hit [of s' k v b r2 s2] by auto
qed

lemma interleaved_updates_commute:
  assumes "wf s" "cas k v a s = Inr (r, s1)" "k' \<noteq> k" "cas k' v' b s1 = Inr (r', s2)"
  shows "get s2 k = Some r \<and> get s2 k' = Some r'"
  using assms cas_hit [of s k v a r s1] cas_hit [of s1 k' v' b r' s2]
    cas_frame [of s1 k' v' b r' s2 k] by auto

end

text \<open>
  A transaction run in the bounded retry loop. \<open>env_ok\<close> restricts what the environment does
  between the attempts; \<open>post\<close> relates a committed result to the state it leaves.
\<close>

locale retried_transaction =
  fixes env_ok :: "'env \<Rightarrow> bool" and others :: "'env \<Rightarrow> nat \<Rightarrow> 's \<Rightarrow> 's"
    and attempt :: "'env \<Rightarrow> 'arg \<Rightarrow> nat \<Rightarrow> 's \<Rightarrow> 'e + 'a \<times> 's"
    and inv :: "'s \<Rightarrow> bool" and post :: "'arg \<Rightarrow> 'a \<Rightarrow> 's \<Rightarrow> bool"
    and retryable :: "'e \<Rightarrow> bool" and unreachable :: 'e
  assumes others_inv: "env_ok env \<Longrightarrow> inv s \<Longrightarrow> inv (others env i s)"
    and attempt_inv: "env_ok env \<Longrightarrow> inv s \<Longrightarrow> attempt env arg i s = Inr (a, s') \<Longrightarrow> inv s' \<and> post arg a s'"
    and attempt_reachable: "env_ok env \<Longrightarrow> inv s \<Longrightarrow> attempt env arg i s \<noteq> Inl unreachable"
begin

lemma loop_inv:
  assumes "env_ok env" "inv s"
  shows "inv (snd (retry_loop retryable unreachable (others env) (attempt env arg) i n s))"
  using assms(2)
proof (induction n arbitrary: i s)
  case 0
  then show ?case by simp
next
  case (Suc n)
  have "inv (others env i s)" using assms(1) Suc.prems by (rule others_inv)
  then show ?case
    using Suc.IH attempt_inv [OF assms(1)]
    by (auto simp: Let_def split: sum.splits)
qed

lemma loop_result:
  assumes "env_ok env" "inv s"
    and "retry_loop retryable unreachable (others env) (attempt env arg) i n s = (Inr a, s')"
  shows "post arg a s'"
  using assms(2,3)
proof (induction n arbitrary: i s)
  case 0
  then show ?case by simp
next
  case (Suc n)
  have "inv (others env i s)" using assms(1) Suc.prems(1) by (rule others_inv)
  then show ?case
    using Suc.prems(2) Suc.IH attempt_inv [OF assms(1)]
    by (auto simp: Let_def split: sum.splits if_splits)
qed

lemma loop_reachable:
  assumes "env_ok env" "inv s" "0 < n"
  shows "fst (retry_loop retryable unreachable (others env) (attempt env arg) i n s) \<noteq> Inl unreachable"
  using assms(2,3)
proof (induction n arbitrary: i s)
  case 0
  then show ?case by simp
next
  case (Suc n)
  have "inv (others env i s)" using assms(1) Suc.prems(1) by (rule others_inv)
  then show ?case
    using Suc.IH attempt_reachable [OF assms(1)]
    by (auto simp: Let_def split: sum.splits)
qed

end

text \<open>The same contract for a transaction run in a loop that continues.\<close>

locale continued_transaction =
  fixes env_ok :: "'env \<Rightarrow> bool" and others :: "'env \<Rightarrow> nat \<Rightarrow> 's \<Rightarrow> 's"
    and attempt :: "'env \<Rightarrow> 'arg \<Rightarrow> nat \<Rightarrow> 'g \<Rightarrow> 's \<Rightarrow> 'g \<times> ('e + 'a \<times> 's) option"
    and inv :: "'s \<Rightarrow> bool" and post :: "'arg \<Rightarrow> 'a \<Rightarrow> 's \<Rightarrow> bool"
  assumes others_inv: "env_ok env \<Longrightarrow> inv s \<Longrightarrow> inv (others env i s)"
    and attempt_inv: "env_ok env \<Longrightarrow> inv s \<Longrightarrow> attempt env arg i g s = (g', Some (Inr (a, s'))) \<Longrightarrow>
      inv s' \<and> post arg a s'"
begin

lemma continued_inv:
  assumes "env_ok env" "inv s"
  shows "inv (snd (continue_loop exhausted (others env) (attempt env arg) i n g s))"
  using assms(2)
proof (induction n arbitrary: i g s)
  case 0
  then show ?case by simp
next
  case (Suc n)
  have "inv (others env i s)" using assms(1) Suc.prems by (rule others_inv)
  then show ?case
    using Suc.IH attempt_inv [OF assms(1)]
    by (auto simp: Let_def split: sum.splits option.splits prod.splits)
qed

lemma continued_result:
  assumes "env_ok env" "inv s"
    and "continue_loop exhausted (others env) (attempt env arg) i n g s = (Inr a, s')"
  shows "post arg a s'"
  using assms(2,3)
proof (induction n arbitrary: i g s)
  case 0
  then show ?case by simp
next
  case (Suc n)
  have "inv (others env i s)" using assms(1) Suc.prems(1) by (rule others_inv)
  then show ?case
    using Suc.prems(2) Suc.IH attempt_inv [OF assms(1)]
    by (auto simp: Let_def split: sum.splits option.splits prod.splits)
qed

end

end
