(* ===== verification/Sha256.thy ===== *)
theory Sha256
  imports Main "HOL-Library.Word"
begin

text \<open>
  SHA-256 as \<open>hashlib.sha256\<close> computes it, over 32-bit words with wrapping addition, together
  with \<open>hexdigest\<close>. Every fingerprint and idempotency key of the user-budget subsystem is such
  a digest. No theorem of the development assumes that the function is collision free: where two
  payloads could collide, the code compares the stored rows field by field and the theorems follow
  the code.
\<close>

unbundle bit_operations_syntax

type_synonym w32 = "32 word"

definition rotr :: "nat \<Rightarrow> w32 \<Rightarrow> w32" where
  "rotr n x = drop_bit n x OR push_bit (32 - n) x"

definition sha_ch :: "w32 \<Rightarrow> w32 \<Rightarrow> w32 \<Rightarrow> w32" where
  "sha_ch x y z = (x AND y) XOR (NOT x AND z)"
definition sha_maj :: "w32 \<Rightarrow> w32 \<Rightarrow> w32 \<Rightarrow> w32" where
  "sha_maj x y z = (x AND y) XOR (x AND z) XOR (y AND z)"
definition big_sigma0 :: "w32 \<Rightarrow> w32" where
  "big_sigma0 x = rotr 2 x XOR rotr 13 x XOR rotr 22 x"
definition big_sigma1 :: "w32 \<Rightarrow> w32" where
  "big_sigma1 x = rotr 6 x XOR rotr 11 x XOR rotr 25 x"
definition small_sigma0 :: "w32 \<Rightarrow> w32" where
  "small_sigma0 x = rotr 7 x XOR rotr 18 x XOR drop_bit 3 x"
definition small_sigma1 :: "w32 \<Rightarrow> w32" where
  "small_sigma1 x = rotr 17 x XOR rotr 19 x XOR drop_bit 10 x"

text \<open>
  The constants of the standard are the first 32 bits of the fractional parts of the cube roots of
  the first 64 primes, and of the square roots of the first eight. \<open>root_search\<close> finds the
  integer root bit by bit; the conversion to a word drops the integral part.
\<close>

definition small_primes :: "int list" where
  "small_primes =
    [2, 3, 5, 7, 11, 13, 17, 19, 23, 29, 31, 37, 41, 43, 47, 53, 59, 61, 67, 71, 73, 79, 83, 89, 97, 101, 103, 107, 109,
     113, 127, 131, 137, 139, 149, 151, 157, 163, 167, 173, 179, 181, 191, 193, 197, 199, 211, 223, 227, 229, 233, 239,
     241, 251, 257, 263, 269, 271, 277, 281, 283, 293, 307, 311]"

fun root_search :: "nat \<Rightarrow> int \<Rightarrow> nat \<Rightarrow> int \<Rightarrow> int" where
  "root_search k n 0 r = r"
| "root_search k n (Suc i) r = root_search k n i (if (r + 2 ^ i) ^ k \<le> n then r + 2 ^ i else r)"

definition root_fraction :: "nat \<Rightarrow> int \<Rightarrow> w32" where
  "root_fraction k p = word_of_int (root_search k (p * 2 ^ (32 * k)) 38 0)"

definition round_constants :: "w32 list" where
  "round_constants = map (root_fraction 3) small_primes"

type_synonym sha_state = "w32 \<times> w32 \<times> w32 \<times> w32 \<times> w32 \<times> w32 \<times> w32 \<times> w32"

definition sha_init :: sha_state where
  "sha_init = (root_fraction 2 2, root_fraction 2 3, root_fraction 2 5, root_fraction 2 7,
               root_fraction 2 11, root_fraction 2 13, root_fraction 2 17, root_fraction 2 19)"

fun sha_round :: "w32 \<times> w32 \<Rightarrow> sha_state \<Rightarrow> sha_state" where
  "sha_round (k, w) (a, b, c, d, e, f, g, h) =
     (let t1 = h + big_sigma1 e + sha_ch e f g + k + w;
          t2 = big_sigma0 a + sha_maj a b c
      in (t1 + t2, a, b, c, d + t1, e, f, g))"

text \<open>The schedule is kept newest word first.\<close>

fun sha_extend :: "nat \<Rightarrow> w32 list \<Rightarrow> w32 list" where
  "sha_extend 0 ws = ws"
| "sha_extend (Suc n) ws =
     sha_extend n ((small_sigma1 (ws ! 1) + ws ! 6 + small_sigma0 (ws ! 14) + ws ! 15) # ws)"

definition sha_schedule :: "w32 list \<Rightarrow> w32 list" where
  "sha_schedule ws = rev (sha_extend 48 (rev ws))"

fun sha_add :: "sha_state \<Rightarrow> sha_state \<Rightarrow> sha_state" where
  "sha_add (a, b, c, d, e, f, g, h) (a', b', c', d', e', f', g', h') =
     (a + a', b + b', c + c', d + d', e + e', f + f', g + g', h + h')"

definition sha_compress :: "w32 list \<Rightarrow> sha_state \<Rightarrow> sha_state" where
  "sha_compress block st = sha_add st (fold sha_round (zip round_constants (sha_schedule block)) st)"

fun be_words :: "w32 list \<Rightarrow> w32 list" where
  "be_words (a # b # c # d # bs) =
     (push_bit 24 a OR push_bit 16 b OR push_bit 8 c OR d) # be_words bs"
| "be_words _ = []"

definition be_length :: "nat \<Rightarrow> w32 list" where
  "be_length n =
     map (\<lambda>i. ucast (drop_bit (8 * (7 - i)) (8 * of_nat n :: 64 word) AND 255)) [0..<8]"

definition sha_pad :: "w32 list \<Rightarrow> w32 list" where
  "sha_pad bs = bs @ [128] @ replicate ((119 - length bs mod 64) mod 64) 0 @ be_length (length bs)"

fun sha_blocks :: "nat \<Rightarrow> w32 list \<Rightarrow> sha_state \<Rightarrow> sha_state" where
  "sha_blocks 0 ws st = st"
| "sha_blocks (Suc n) ws st = sha_blocks n (drop 16 ws) (sha_compress (take 16 ws) st)"

definition sha256_words :: "w32 list \<Rightarrow> sha_state" where
  "sha256_words bs = (let ws = be_words (sha_pad bs) in sha_blocks (length ws div 16) ws sha_init)"

section \<open>hexdigest\<close>

definition hex_digit :: "nat \<Rightarrow> char" where
  "hex_digit d = char_of (if d < 10 then 48 + d else 87 + d)"

definition hex_word :: "w32 \<Rightarrow> string" where
  "hex_word w = map (\<lambda>i. hex_digit (unat (drop_bit (4 * (7 - i)) w AND 15))) [0..<8]"

definition sha256_hexdigest :: "string \<Rightarrow> string" where
  "sha256_hexdigest s =
     (case sha256_words (map (of_nat \<circ> of_char) s) of (a, b, c, d, e, f, g, h) \<Rightarrow>
        concat (map hex_word [a, b, c, d, e, f, g, h]))"

lemma length_sha256_hexdigest [simp]: "length (sha256_hexdigest s) = 64"
  by (simp add: sha256_hexdigest_def hex_word_def split: prod.split)

lemma sha256_hexdigest_not_Nil [simp]: "sha256_hexdigest s \<noteq> []"
  using length_sha256_hexdigest [of s] by fastforce

end
