(* ===== verification/PyValues.thy ===== *)
theory PyValues
  imports Prelude Sha256
begin

text \<open>
  What the source uses of Python and its standard library: exception classes, dictionaries with
  insertion order, dynamically typed values, \<open>json.dumps\<close>, \<open>decimal.Decimal\<close> at its default
  precision of 28 digits, and aware or naive \<open>datetime\<close> values.

  A Python \<open>str\<close> is represented by its UTF-8 encoding, a list of 8-bit \<open>char\<close>s: comparison
  of the encodings is comparison by code point, and \<open>py_len\<close> counts code points. The text of an
  exception is not modelled, only its class, which is all the callers inspect.
\<close>

section \<open>Exceptions\<close>

datatype err =
    KeyError | ValueError | TypeError | OverflowError | InvalidOperation | AssertionError
  | AttributeError | ValidationError | SqlIntegrityError
  | UserBudgetConflictError | UserBudgetIntegrityError
  | UserBudgetTransactionError | UserBudgetSerializationError
  | UserBudgetOwnerUnresolvedError | UserBudgetParentOwnerMismatchError
  | UserBudgetParentUnboundError | UserBudgetPolicyAuthorityConflictError
  | UserBudgetBindingDriftError
  | UserToolQuotaExceededError | UserToolCapabilityQuotaExceededError | UserToolQuotaConflictError
  | UserInferenceQuotaContextError | UserInferenceQuotaConflictError
  | UserInferenceQuotaExceededError | UserTokenQuotaExceededError
  | UserComputeQuotaExceededError | UserCostQuotaExceededError
  | UserInferenceEstimateUnavailableError | UserBudgetUnsupportedGovernedOperationError
  | SqlDataError | SqlLockedError | SqlOperationalError | RuntimeError
  | TaskBudgetRequiredError | TaskBudgetLegacyUninitializedError | TaskBudgetClosedError | TaskBudgetExceededError
  | TaskBudgetConflictError | TaskBudgetIncarnationChangedError | TaskBudgetLegacyBecameEnrolledError
  | TaskBudgetUnsupportedLegacyMirrorError
  | ExecutionConflictError | LeaseAuthorityConflictError | SqlStatementError

section \<open>Strings and integers as text\<close>

definition py_len :: "string \<Rightarrow> nat" where
  "py_len s = length (filter (\<lambda>c. \<not> (128 \<le> (of_char c :: nat) \<and> (of_char c :: nat) < 192)) s)"

fun nat_digits :: "nat \<Rightarrow> string" where
  "nat_digits n = (if n < 10 then [char_of (48 + n)] else nat_digits (n div 10) @ [char_of (48 + n mod 10)])"

declare nat_digits.simps [simp del]

definition int_text :: "int \<Rightarrow> string" where
  "int_text i = (if i < 0 then CHR ''-'' # nat_digits (nat (- i)) else nat_digits (nat i))"

section \<open>Dictionaries with string keys\<close>

definition dict_get :: "(string \<times> 'v) list \<Rightarrow> string \<Rightarrow> 'v option" where
  "dict_get = map_of"

fun dict_set :: "string \<Rightarrow> 'v \<Rightarrow> (string \<times> 'v) list \<Rightarrow> (string \<times> 'v) list" where
  "dict_set k v [] = [(k, v)]"
| "dict_set k v ((k', v') # d) = (if k = k' then (k, v) # d else (k', v') # dict_set k v d)"

definition dict_of_items :: "(string \<times> 'v) list \<Rightarrow> (string \<times> 'v) list" where
  "dict_of_items kvs = fold (\<lambda>(k, v). dict_set k v) kvs []"

lemma map_of_dict_set: "map_of (dict_set k v d) = (map_of d)(k \<mapsto> v)"
  by (induction d) auto

lemma map_of_fold_dict_set: "map_of (fold (\<lambda>(k, v). dict_set k v) kvs d) = map_of d ++ map_of (rev kvs)"
  by (induction kvs arbitrary: d) (auto simp: map_of_dict_set)

lemma keys_dict_set: "fst ` set (dict_set k v d) = insert k (fst ` set d)"
  by (induction k v d rule: dict_set.induct) (simp_all add: insert_commute)

lemma distinct_dict_set: "distinct (map fst d) \<Longrightarrow> distinct (map fst (dict_set k v d))"
  by (induction k v d rule: dict_set.induct) (simp_all add: keys_dict_set)

lemma distinct_dict_of_items: "distinct (map fst (dict_of_items kvs))"
proof -
  have "distinct (map fst d) \<Longrightarrow> distinct (map fst (fold (\<lambda>(k, v). dict_set k v) kvs d))" for d
    by (induction kvs arbitrary: d) (auto simp: distinct_dict_set)
  then show ?thesis by (simp add: dict_of_items_def)
qed

lemma dict_set_fresh: "k \<notin> fst ` set d \<Longrightarrow> dict_set k v d = d @ [(k, v)]"
  by (induction d) auto

lemma fold_dict_set_fresh:
  "distinct (map fst (d @ kvs)) \<Longrightarrow> fold (\<lambda>(k, v). dict_set k v) kvs d = d @ kvs"
proof (induction kvs arbitrary: d)
  case Nil
  then show ?case by simp
next
  case (Cons kv kvs)
  obtain k v where kv: "kv = (k, v)" by (cases kv)
  from Cons.prems kv have "dict_set k v d = d @ [(k, v)]"
    by (intro dict_set_fresh) auto
  with Cons.IH [of "d @ [(k, v)]"] Cons.prems kv show ?case by simp
qed

lemma dict_of_items_distinct: "distinct (map fst kvs) \<Longrightarrow> dict_of_items kvs = kvs"
  using fold_dict_set_fresh [of "[]" kvs] by (simp add: dict_of_items_def)

section \<open>Decimal\<close>

text \<open>
  A finite \<open>Decimal\<close> is a sign, a coefficient and an exponent; signalling values are one
  constructor because the code only asks \<open>is_finite\<close>.
\<close>

datatype pydec = Fin (dec_neg: bool) (dec_coeff: nat) (dec_exp: int) | Special

definition round_half_even :: "nat \<Rightarrow> nat \<Rightarrow> nat" where
  "round_half_even n d =
     (let q = n div d; r = n mod d
      in if 2 * r < d then q else if d < 2 * r then q + 1 else if even q then q else q + 1)"

definition rescale :: "nat \<Rightarrow> int \<Rightarrow> int \<Rightarrow> nat" where
  "rescale c e t =
     (if t \<le> e then c * 10 ^ nat (e - t) else round_half_even c (10 ^ nat (t - e)))"

text \<open>\<open>quantize\<close> raises InvalidOperation when the result needs more than 28 digits.\<close>

definition quantize :: "int \<Rightarrow> pydec \<Rightarrow> err + pydec" where
  "quantize t d =
     (case d of
        Special \<Rightarrow> Inl InvalidOperation
      | Fin s c e \<Rightarrow>
          (let c' = rescale c e t
           in if c' < 10 ^ 28 then Inr (Fin s c' t) else Inl InvalidOperation))"

text \<open>Truncation towards zero, \<open>int(Decimal)\<close>.\<close>

definition dec_int :: "pydec \<Rightarrow> int" where
  "dec_int d =
     (case d of
        Special \<Rightarrow> 0
      | Fin s c e \<Rightarrow>
          (let m = (if 0 \<le> e then c * 10 ^ nat e else c div 10 ^ nat (- e))
           in if s then - int m else int m))"

definition dec_integral :: "pydec \<Rightarrow> bool" where
  "dec_integral d =
     (case d of Special \<Rightarrow> False | Fin s c e \<Rightarrow> 0 \<le> e \<or> c mod 10 ^ nat (- e) = 0)"

definition dec_of_int :: "int \<Rightarrow> pydec" where
  "dec_of_int i = Fin (i < 0) (nat \<bar>i\<bar>) 0"

text \<open>\<open>format(d, ".8f")\<close> of a value whose exponent is already -8.\<close>

definition format_8f :: "bool \<Rightarrow> nat \<Rightarrow> string" where
  "format_8f s c =
     (let whole = nat_digits (c div 10 ^ 8); frac = nat_digits (c mod 10 ^ 8)
      in (if s then ''-'' else '''') @ whole @ ''.'' @ replicate (8 - length frac) (CHR ''0'') @ frac)"

lemma round_half_even_error:
  assumes "0 < d"
  shows "2 * \<bar>int (round_half_even n d) * int d - int n\<bar> \<le> int d"
proof -
  have n: "int n = int d * int (n div d) + int (n mod d)"
    by (metis div_mult_mod_eq mult.commute of_nat_add of_nat_mult)
  have r: "0 \<le> int (n mod d)" "int (n mod d) < int d"
    using assms by auto
  show ?thesis
    using r by (auto simp: round_half_even_def Let_def n algebra_simps)
qed

lemma round_half_even_tie:
  "0 < d \<Longrightarrow> 2 * (n mod d) = d \<Longrightarrow> even (round_half_even n d)"
  by (auto simp: round_half_even_def Let_def)

lemma round_half_even_exact: "0 < d \<Longrightarrow> d dvd n \<Longrightarrow> round_half_even n d * d = n"
  by (auto simp: round_half_even_def Let_def)

section \<open>Dynamically typed values and JSON\<close>

text \<open>
  \<open>VModel\<close> is an object with \<open>model_dump\<close>, carrying what the dump returns; \<open>VOther\<close> is any
  other object. A tuple and a list are both \<open>VList\<close>. A key is a string or some other object with
  its \<open>str()\<close>.
\<close>

datatype pykey = KStr string | KOther string

datatype pyval =
    VNone | VBool bool | VInt int | VStr string | VFloat string | VDec pydec
  | VList "pyval list" | VDict "(pykey \<times> pyval) list" | VModel pyval | VOther

datatype json =
    JNull | JBool bool | JInt int | JFloat string | JStr string
  | JArr "json list" | JObj "(string \<times> json) list"

fun key_str :: "pykey \<Rightarrow> string" where
  "key_str (KStr s) = s"
| "key_str (KOther s) = s"

fun is_str_key :: "pykey \<Rightarrow> bool" where
  "is_str_key (KStr _) = True"
| "is_str_key (KOther _) = False"

fun pyval_of_json :: "json \<Rightarrow> pyval" where
  "pyval_of_json JNull = VNone"
| "pyval_of_json (JBool b) = VBool b"
| "pyval_of_json (JInt i) = VInt i"
| "pyval_of_json (JFloat s) = VFloat s"
| "pyval_of_json (JStr s) = VStr s"
| "pyval_of_json (JArr xs) = VList (map pyval_of_json xs)"
| "pyval_of_json (JObj kvs) = VDict (map (\<lambda>(k, v). (KStr k, pyval_of_json v)) kvs)"

definition opt_str :: "string option \<Rightarrow> pyval" where
  "opt_str m = (case m of None \<Rightarrow> VNone | Some s \<Rightarrow> VStr s)"

definition opt_int :: "int option \<Rightarrow> pyval" where
  "opt_int m = (case m of None \<Rightarrow> VNone | Some i \<Rightarrow> VInt i)"

text \<open>Python truthiness, for the idiom \<open>x or default\<close>.\<close>

fun truthy :: "pyval \<Rightarrow> bool" where
  "truthy VNone = False"
| "truthy (VBool b) = b"
| "truthy (VInt i) = (i \<noteq> 0)"
| "truthy (VStr s) = (s \<noteq> [])"
| "truthy (VList xs) = (xs \<noteq> [])"
| "truthy (VDict kvs) = (kvs \<noteq> [])"
| "truthy (VDec d) = (case d of Fin _ c _ \<Rightarrow> c \<noteq> 0 | Special \<Rightarrow> True)"
| "truthy (VFloat s) = (s \<notin> {''0.0'', ''-0.0''})"
| "truthy _ = True"

section \<open>Decimal(str(value))\<close>

text \<open>
  The numeral grammar of the \<open>Decimal\<close> constructor over ASCII: surrounding blanks and
  underscores are dropped, then a sign, digits with an optional point, and an optional exponent.
\<close>

definition is_digit :: "char \<Rightarrow> bool" where
  "is_digit c \<longleftrightarrow> 48 \<le> (of_char c :: nat) \<and> (of_char c :: nat) \<le> 57"

definition digits_nat :: "string \<Rightarrow> nat" where
  "digits_nat s = foldl (\<lambda>n c. 10 * n + (of_char c - 48)) 0 s"

definition is_blank :: "char \<Rightarrow> bool" where
  "is_blank c \<longleftrightarrow> c = CHR '' '' \<or> (9 \<le> (of_char c :: nat) \<and> (of_char c :: nat) \<le> 13)"

definition strip_numeral :: "string \<Rightarrow> string" where
  "strip_numeral s =
     filter (\<lambda>c. c \<noteq> CHR ''_'') (rev (dropWhile is_blank (rev (dropWhile is_blank s))))"

definition lower_char :: "char \<Rightarrow> char" where
  "lower_char c = (let n = (of_char c :: nat) in if 65 \<le> n \<and> n \<le> 90 then char_of (n + 32) else c)"

fun take_sign :: "string \<Rightarrow> bool \<times> string" where
  "take_sign (c # s) = (if c = CHR ''-'' then (True, s) else if c = CHR ''+'' then (False, s) else (False, c # s))"
| "take_sign [] = (False, [])"

definition parse_exponent :: "string \<Rightarrow> int option" where
  "parse_exponent s =
     (case s of
        [] \<Rightarrow> Some 0
      | c # r \<Rightarrow>
          (if lower_char c = CHR ''e''
           then (case take_sign r of (neg, ds) \<Rightarrow>
                   if ds \<noteq> [] \<and> list_all is_digit ds
                   then Some (if neg then - int (digits_nat ds) else int (digits_nat ds)) else None)
           else None))"

definition special_numeral :: "string \<Rightarrow> bool" where
  "special_numeral s =
     (let l = map lower_char s
      in l = ''inf'' \<or> l = ''infinity'' \<or>
         (take 3 l = ''nan'' \<and> list_all is_digit (drop 3 l)) \<or>
         (take 4 l = ''snan'' \<and> list_all is_digit (drop 4 l)))"

definition parse_decimal :: "string \<Rightarrow> pydec option" where
  "parse_decimal s0 =
     (case take_sign (strip_numeral s0) of (neg, s) \<Rightarrow>
        if special_numeral s then Some Special
        else let whole = takeWhile is_digit s; r = dropWhile is_digit s;
                 frac = (case r of c # r' \<Rightarrow> if c = CHR ''.'' then takeWhile is_digit r' else [] | [] \<Rightarrow> []);
                 r2 = (case r of c # r' \<Rightarrow> if c = CHR ''.'' then dropWhile is_digit r' else r | [] \<Rightarrow> [])
             in if whole @ frac = [] then None
                else map_option (\<lambda>e. Fin neg (digits_nat (whole @ frac)) (e - int (length frac)))
                       (parse_exponent r2))"

definition decimal_of :: "pyval \<Rightarrow> err + pydec" where
  "decimal_of v =
     (case v of
        VInt i \<Rightarrow> Inr (dec_of_int i)
      | VDec d \<Rightarrow> Inr d
      | VStr s \<Rightarrow> ofOption InvalidOperation (parse_decimal s)
      | VFloat s \<Rightarrow> ofOption InvalidOperation (parse_decimal s)
      | _ \<Rightarrow> Inl InvalidOperation)"

subsection \<open>json.dumps with sorted keys and compact separators\<close>

definition esc_plain :: "char \<Rightarrow> string" where
  "esc_plain c =
     (let n = (of_char c :: nat)
      in if c = CHR 0x22 then [CHR 0x5C, CHR 0x22]
         else if c = CHR 0x5C then [CHR 0x5C, CHR 0x5C]
         else if n = 8 then [CHR 0x5C, CHR ''b'']
         else if n = 9 then [CHR 0x5C, CHR ''t'']
         else if n = 10 then [CHR 0x5C, CHR ''n'']
         else if n = 12 then [CHR 0x5C, CHR ''f'']
         else if n = 13 then [CHR 0x5C, CHR ''r'']
         else if n < 32 then [CHR 0x5C, CHR ''u'', CHR ''0'', CHR ''0'', hex_digit (n div 16), hex_digit (n mod 16)]
         else [c])"

text \<open>
  \<open>ensure_ascii=True\<close> writes a code point beyond ASCII as \<open>\u\<close> escapes, as a surrogate
  pair above U+FFFF. The decoder reads one code point off the UTF-8 bytes.
\<close>

definition u_escape :: "nat \<Rightarrow> string" where
  "u_escape n = [CHR 0x5C, CHR ''u'', hex_digit (n div 4096 mod 16), hex_digit (n div 256 mod 16),
                 hex_digit (n div 16 mod 16), hex_digit (n mod 16)]"

definition esc_code_point :: "nat \<Rightarrow> string" where
  "esc_code_point n =
     (if n < 65536 then u_escape n
      else u_escape (55296 + (n - 65536) div 1024) @ u_escape (56320 + (n - 65536) mod 1024))"

fun esc_ascii :: "nat list \<Rightarrow> string" where
  "esc_ascii [] = []"
| "esc_ascii (a # bs) =
     (if a < 127 then esc_plain (char_of a) @ esc_ascii bs
      else if a = 127 then u_escape a @ esc_ascii bs
      else if a < 224 then
        (case bs of b # rest \<Rightarrow> esc_code_point ((a mod 32) * 64 + b mod 64) @ esc_ascii rest | _ \<Rightarrow> [])
      else if a < 240 then
        (case bs of b # c # rest \<Rightarrow>
           esc_code_point ((a mod 16) * 4096 + (b mod 64) * 64 + c mod 64) @ esc_ascii rest | _ \<Rightarrow> [])
      else
        (case bs of b # c # d # rest \<Rightarrow>
           esc_code_point ((a mod 8) * 262144 + (b mod 64) * 4096 + (c mod 64) * 64 + d mod 64)
             @ esc_ascii rest | _ \<Rightarrow> []))"

definition json_string :: "bool \<Rightarrow> string \<Rightarrow> string" where
  "json_string ascii s =
     [CHR 0x22] @ (if ascii then esc_ascii (map of_char s) else concat (map esc_plain s)) @ [CHR 0x22]"

fun comma_sep :: "string list \<Rightarrow> string" where
  "comma_sep [] = []"
| "comma_sep [x] = x"
| "comma_sep (x # xs) = x @ '','' @ comma_sep xs"

fun dumps :: "bool \<Rightarrow> json \<Rightarrow> string" where
  "dumps a JNull = ''null''"
| "dumps a (JBool b) = (if b then ''true'' else ''false'')"
| "dumps a (JInt i) = int_text i"
| "dumps a (JFloat s) = s"
| "dumps a (JStr s) = json_string a s"
| "dumps a (JArr xs) = ''['' @ comma_sep (map (dumps a) xs) @ '']''"
| "dumps a (JObj kvs) =
     ''{'' @ comma_sep (map (\<lambda>kv. json_string a (fst kv) @ '':'' @ snd kv)
       (sort_key fst (map (\<lambda>(k, v). (k, dumps a v)) kvs))) @ ''}''"

definition canonical_sha256 :: "(string \<times> json) list \<Rightarrow> string" where
  "canonical_sha256 payload = sha256_hexdigest (dumps False (JObj payload))"

lemma length_canonical_sha256 [simp]: "length (canonical_sha256 p) = 64"
  by (simp add: canonical_sha256_def)

lemma canonical_sha256_not_Nil [simp]: "canonical_sha256 p \<noteq> []"
  by (simp add: canonical_sha256_def)

text \<open>A hex digest is ASCII text, so its length in code points is its length in bytes.\<close>

lemma py_len_append [simp]: "py_len (s @ t) = py_len s + py_len t"
  by (simp add: py_len_def)

lemma py_len_simps:
  "py_len [] = 0"
  "py_len (c # s) = (if 128 \<le> (of_char c :: nat) \<and> (of_char c :: nat) < 192 then 0 else 1) + py_len s"
  by (simp_all add: py_len_def)

lemma hex_digit_ascii: "d < 16 \<Longrightarrow> (of_char (hex_digit d) :: nat) < 128"
  by (simp add: hex_digit_def)

lemma hex_word_ascii: "c \<in> set (hex_word w) \<Longrightarrow> (of_char c :: nat) < 128"
proof -
  have "unat (drop_bit k w AND 15) < 16" for k
    using word_and_le1 [of "drop_bit k w" 15] by (simp add: word_le_nat_alt)
  then show "c \<in> set (hex_word w) \<Longrightarrow> (of_char c :: nat) < 128"
    by (auto simp: hex_word_def intro!: hex_digit_ascii)
qed

lemma py_len_canonical_sha256 [simp]: "py_len (canonical_sha256 p) = 64"
proof -
  have "py_len s = length s" if "\<forall>c \<in> set s. (of_char c :: nat) < 128" for s
    using that unfolding py_len_def by (intro arg_cong [of _ _ length] filter_True) auto
  moreover have "\<forall>c \<in> set (canonical_sha256 p). (of_char c :: nat) < 128"
    by (auto simp: canonical_sha256_def sha256_hexdigest_def split: prod.split dest: hex_word_ascii)
  ultimately show ?thesis by simp
qed

section \<open>Equality of JSON values\<close>

text \<open>
  Python's \<open>==\<close> on decoded JSON ignores the order of object keys and identifies a bool with
  its int and a float with the int it is integrally equal to; \<open>json_norm\<close> is a normal form. A
  float beyond \<open>2 ^ 53\<close> is compared as its text.
\<close>

definition float_norm :: "string \<Rightarrow> json" where
  "float_norm s =
     (case parse_decimal s of
        Some d \<Rightarrow> (if dec_integral d \<and> \<bar>dec_int d\<bar> \<le> 2 ^ 53 then JInt (dec_int d) else JFloat s)
      | None \<Rightarrow> JFloat s)"

fun json_norm :: "json \<Rightarrow> json" where
  "json_norm JNull = JNull"
| "json_norm (JBool b) = JInt (if b then 1 else 0)"
| "json_norm (JInt i) = JInt i"
| "json_norm (JFloat s) = float_norm s"
| "json_norm (JStr s) = JStr s"
| "json_norm (JArr xs) = JArr (map json_norm xs)"
| "json_norm (JObj kvs) = JObj (sort_key fst (map (\<lambda>(k, v). (k, json_norm v)) kvs))"

definition dict_eq :: "(string \<times> json) list \<Rightarrow> (string \<times> json) list \<Rightarrow> bool" where
  "dict_eq a b \<longleftrightarrow> json_norm (JObj a) = json_norm (JObj b)"

section \<open>datetime\<close>

text \<open>Wall-clock microseconds and, for an aware value, the UTC offset in microseconds.\<close>

datatype pydatetime = PyDT (wall: int) (utcoffset: "int option")

definition record_utc :: "pydatetime \<Rightarrow> pydatetime" where
  "record_utc d = (case utcoffset d of None \<Rightarrow> PyDT (wall d) (Some 0)
                                     | Some off \<Rightarrow> PyDT (wall d - off) (Some 0))"

text \<open>Comparing a naive with an aware value raises TypeError.\<close>

definition dt_less :: "pydatetime \<Rightarrow> pydatetime \<Rightarrow> err + bool" where
  "dt_less a b =
     (case (utcoffset a, utcoffset b) of
        (Some x, Some y) \<Rightarrow> Inr (wall a - x < wall b - y)
      | (None, None) \<Rightarrow> Inr (wall a < wall b)
      | _ \<Rightarrow> Inl TypeError)"

text \<open>The last microsecond of year 9999, counted from 1970.\<close>

definition DATETIME_MAX :: int where
  "DATETIME_MAX = 253402300799999999"

definition add_seconds :: "pydatetime \<Rightarrow> int \<Rightarrow> err + pydatetime" where
  "add_seconds d s =
     (if wall d + s * 1000000 \<le> DATETIME_MAX then Inr (PyDT (wall d + s * 1000000) (utcoffset d))
      else Inl OverflowError)"

end
