(* ===== verification/Budget_Schemas.thy ===== *)
theory Budget_Schemas
  imports PyValues
begin

text \<open>
  The validated value types of the user budget (\<open>src/se/src/domain/schemas/user_budget.py\<close>):
  atomic integer amounts, decimal limits at eight fractional digits, the policy and its
  fingerprint, and the reservation intent with its canonical attribution. Pydantic's field
  constraints are the checks of \<open>make_policy\<close> and \<open>make_intent\<close>; a violated constraint is
  \<open>ValidationError\<close>, while an exception class that pydantic does not wrap passes through.
\<close>

section \<open>Enumerations and constants\<close>

definition USER_BUDGET_ATOMIC_SCALE :: nat where
  "USER_BUDGET_ATOMIC_SCALE = 100000000"

definition USER_BUDGET_INT64_MAX :: int where
  "USER_BUDGET_INT64_MAX = 9223372036854775807"

datatype window_state = ACTIVE | CLOSED

datatype resource_kind =
  INFERENCE_CALL | INPUT_TOKEN | OUTPUT_TOKEN | TOTAL_TOKEN | TOOL_CALL | COMPUTE_UNIT | COST_USD

datatype reservation_state = RESERVED | SETTLED | RELEASED | OUTCOME_UNKNOWN

fun kind_value :: "resource_kind \<Rightarrow> string" where
  "kind_value INFERENCE_CALL = ''INFERENCE_CALL''"
| "kind_value INPUT_TOKEN = ''INPUT_TOKEN''"
| "kind_value OUTPUT_TOKEN = ''OUTPUT_TOKEN''"
| "kind_value TOTAL_TOKEN = ''TOTAL_TOKEN''"
| "kind_value TOOL_CALL = ''TOOL_CALL''"
| "kind_value COMPUTE_UNIT = ''COMPUTE_UNIT''"
| "kind_value COST_USD = ''COST_USD''"

definition all_kinds :: "resource_kind list" where
  "all_kinds = [INFERENCE_CALL, INPUT_TOKEN, OUTPUT_TOKEN, TOTAL_TOKEN, TOOL_CALL, COMPUTE_UNIT, COST_USD]"

text \<open>\<open>UserBudgetResourceKind(text)\<close>: ValueError for a text that names no member.\<close>

definition kind_of_value :: "string \<Rightarrow> err + resource_kind" where
  "kind_of_value s = ofOption ValueError (List.find (\<lambda>k. kind_value k = s) all_kinds)"

definition count_kind :: "resource_kind \<Rightarrow> bool" where
  "count_kind k \<longleftrightarrow> k \<in> {INFERENCE_CALL, INPUT_TOKEN, OUTPUT_TOKEN, TOTAL_TOKEN, TOOL_CALL}"

lemma kind_of_kind_value [simp]: "kind_of_value (kind_value k) = Inr k"
  by (cases k) (simp_all add: kind_of_value_def all_kinds_def)

lemma kind_of_value_Inr: "kind_of_value s = Inr k \<Longrightarrow> kind_value k = s"
  by (auto simp: kind_of_value_def dest: find_SomeD)

lemma kind_value_inject [simp]: "kind_value k = kind_value k' \<longleftrightarrow> k = k'"
  by (metis kind_of_kind_value sum.inject(2))

section \<open>Atomic amounts\<close>

definition require_atomic_int :: "bool \<Rightarrow> pyval \<Rightarrow> err + int" where
  "require_atomic_int positive v =
     (case v of
        VInt i \<Rightarrow>
          (if i < (if positive then 1 else 0) \<or> USER_BUDGET_INT64_MAX < i then Inl ValueError else Inr i)
      | _ \<Rightarrow> Inl TypeError)"

definition dec_is_neg :: "pydec \<Rightarrow> bool" where
  "dec_is_neg d = (case d of Fin s c _ \<Rightarrow> s \<and> c \<noteq> 0 | Special \<Rightarrow> False)"

definition dec_is_zero :: "pydec \<Rightarrow> bool" where
  "dec_is_zero d = (case d of Fin _ c _ \<Rightarrow> c = 0 | Special \<Rightarrow> False)"

text \<open>
  \<open>int(normalized * USER_BUDGET_ATOMIC_SCALE)\<close>. The factor has eight trailing zeros, so the
  product of a 28-digit coefficient is exact under the 28-digit context.
\<close>

definition scaled_int :: "pydec \<Rightarrow> int" where
  "scaled_int d =
     (case d of Fin s c e \<Rightarrow> dec_int (Fin s (c * USER_BUDGET_ATOMIC_SCALE) e) | Special \<Rightarrow> 0)"

definition normalize_decimal_value :: "bool \<Rightarrow> pyval \<Rightarrow> err + pydec" where
  "normalize_decimal_value positive v =
     bindR (decimal_of v) (\<lambda>d.
     bindR (requireR (d \<noteq> Special) ValueError) (\<lambda>_.
     bindR (quantize (- 8) d) (\<lambda>n.
     bindR (requireR (\<not> (positive \<and> (dec_is_neg n \<or> dec_is_zero n))) ValueError) (\<lambda>_.
     bindR (requireR (\<not> (\<not> positive \<and> dec_is_neg n)) ValueError) (\<lambda>_.
     bindR (require_atomic_int positive (VInt (scaled_int n))) (\<lambda>_.
     Inr n))))))"

definition decimal_to_atomic :: "bool \<Rightarrow> pyval \<Rightarrow> err + int" where
  "decimal_to_atomic positive v =
     bindR (normalize_decimal_value positive v) (\<lambda>n.
     require_atomic_int positive (VInt (scaled_int n)))"

definition decimal_from_atomic :: "pyval \<Rightarrow> err + pydec" where
  "decimal_from_atomic v =
     bindR (require_atomic_int False v) (\<lambda>atomic. quantize (- 8) (Fin False (nat atomic) (- 8)))"

definition normalize_resource_amount_atomic :: "resource_kind \<Rightarrow> bool \<Rightarrow> pyval \<Rightarrow> err + int" where
  "normalize_resource_amount_atomic kind positive v =
     (if count_kind kind
      then (case v of
              VBool _ \<Rightarrow> Inl TypeError
            | VInt i \<Rightarrow> require_atomic_int positive v
            | _ \<Rightarrow> bindR (decimal_of v) (\<lambda>d.
                   bindR (requireR (d \<noteq> Special \<and> dec_integral d) ValueError) (\<lambda>_.
                   require_atomic_int positive (VInt (dec_int d)))))
      else decimal_to_atomic positive v)"

definition canonical_decimal_string :: "pydec option \<Rightarrow> err + string option" where
  "canonical_decimal_string m =
     (case m of
        None \<Rightarrow> Inr None
      | Some d \<Rightarrow> bindR (normalize_decimal_value False (VDec d)) (\<lambda>n.
                  Inr (Some (format_8f (dec_neg n) (dec_coeff n)))))"

definition normalize_authoritative_utc :: "pydatetime \<Rightarrow> err + pydatetime" where
  "normalize_authoritative_utc d =
     (case utcoffset d of None \<Rightarrow> Inl ValueError | Some off \<Rightarrow> Inr (PyDT (wall d - off) (Some 0)))"

section \<open>Policy\<close>

record policy =
  policy_id :: string
  owner_user_id :: string
  policy_version :: string
  window_duration_seconds :: int
  max_compute_units :: "pydec option"
  max_inference_calls :: "int option"
  max_input_tokens :: "int option"
  max_output_tokens :: "int option"
  max_total_tokens :: "int option"
  max_tool_calls_total :: "int option"
  default_per_tool_limit :: "int option"
  tool_limits :: "(string \<times> int) list"
  max_cost_usd :: "pydec option"

definition bounded_str :: "nat \<Rightarrow> string \<Rightarrow> bool" where
  "bounded_str m s \<longleftrightarrow> 1 \<le> py_len s \<and> py_len s \<le> m"

definition positive_int64 :: "int \<Rightarrow> bool" where
  "positive_int64 i \<longleftrightarrow> 0 < i \<and> i \<le> USER_BUDGET_INT64_MAX"

definition opt_positive_int64 :: "int option \<Rightarrow> bool" where
  "opt_positive_int64 m = (case m of None \<Rightarrow> True | Some i \<Rightarrow> positive_int64 i)"

text \<open>A validator's ValueError becomes ValidationError; any other class is not wrapped.\<close>

definition pydantic_wrap :: "err + 'a \<Rightarrow> err + 'a" where
  "pydantic_wrap m = (case m of Inl e \<Rightarrow> Inl (if e = ValueError then ValidationError else e) | Inr x \<Rightarrow> Inr x)"

definition normalize_optional_decimal_limit :: "pyval option \<Rightarrow> err + pydec option" where
  "normalize_optional_decimal_limit m =
     (case m of None \<Rightarrow> Inr None
      | Some v \<Rightarrow> bindR (pydantic_wrap (normalize_decimal_value True v)) (\<lambda>d. Inr (Some d)))"

definition validate_tool_limits :: "(string \<times> int) list \<Rightarrow> err + (string \<times> int) list" where
  "validate_tool_limits kvs =
     bindR (mapR (\<lambda>(capability_id, limit).
              bindR (requireR (capability_id \<noteq> []) ValueError) (\<lambda>_.
              bindR (requireR (py_len capability_id \<le> 255) ValueError) (\<lambda>_.
              bindR (require_atomic_int True (VInt limit)) (\<lambda>l. Inr (capability_id, l))))) kvs)
       (\<lambda>normalized. Inr (sort_key fst normalized))"

text \<open>
  Pydantic collects the ValidationErrors of all fields, but an exception it does not wrap leaves
  the constructor at once.
\<close>

definition unwrapped :: "err + 'a \<Rightarrow> err + unit" where
  "unwrapped m = (case m of Inl e \<Rightarrow> (if e = ValidationError then Inr () else Inl e) | Inr _ \<Rightarrow> Inr ())"

definition make_policy :: "string \<Rightarrow> string \<Rightarrow> string \<Rightarrow> int \<Rightarrow> pyval option \<Rightarrow> int option \<Rightarrow> int option \<Rightarrow>
    int option \<Rightarrow> int option \<Rightarrow> int option \<Rightarrow> int option \<Rightarrow> (string \<times> int) list \<Rightarrow> pyval option \<Rightarrow> err + policy" where
  "make_policy pid owner version duration compute calls inp outp toks tools per limits cost =
     bindR (unwrapped (normalize_optional_decimal_limit compute)) (\<lambda>_.
     bindR (unwrapped (normalize_optional_decimal_limit cost)) (\<lambda>_.
     bindR (normalize_optional_decimal_limit compute) (\<lambda>compute'.
     bindR (normalize_optional_decimal_limit cost) (\<lambda>cost'.
     bindR (pydantic_wrap (validate_tool_limits limits)) (\<lambda>limits'.
     bindR (requireR (bounded_str 255 pid \<and> bounded_str 255 owner \<and> bounded_str 64 version \<and>
              positive_int64 duration \<and> opt_positive_int64 calls \<and> opt_positive_int64 inp \<and>
              opt_positive_int64 outp \<and> opt_positive_int64 toks \<and> opt_positive_int64 tools \<and>
              opt_positive_int64 per) ValidationError) (\<lambda>_.
     Inr \<lparr>policy_id = pid, owner_user_id = owner, policy_version = version,
          window_duration_seconds = duration, max_compute_units = compute',
          max_inference_calls = calls, max_input_tokens = inp, max_output_tokens = outp,
          max_total_tokens = toks, max_tool_calls_total = tools,
          default_per_tool_limit = per, tool_limits = limits', max_cost_usd = cost'\<rparr>))))))"

definition json_opt_int :: "int option \<Rightarrow> json" where
  "json_opt_int m = (case m of None \<Rightarrow> JNull | Some i \<Rightarrow> JInt i)"

definition json_opt_str :: "string option \<Rightarrow> json" where
  "json_opt_str m = (case m of None \<Rightarrow> JNull | Some s \<Rightarrow> JStr s)"

definition canonical_semantics :: "policy \<Rightarrow> err + (string \<times> json) list" where
  "canonical_semantics p =
     bindR (canonical_decimal_string (max_compute_units p)) (\<lambda>compute.
     bindR (canonical_decimal_string (max_cost_usd p)) (\<lambda>cost.
     Inr [(''policy_id'', JStr (policy_id p)),
          (''owner_user_id'', JStr (owner_user_id p)),
          (''policy_version'', JStr (policy_version p)),
          (''window_duration_seconds'', JInt (window_duration_seconds p)),
          (''max_compute_units'', json_opt_str compute),
          (''max_inference_calls'', json_opt_int (max_inference_calls p)),
          (''max_input_tokens'', json_opt_int (max_input_tokens p)),
          (''max_output_tokens'', json_opt_int (max_output_tokens p)),
          (''max_total_tokens'', json_opt_int (max_total_tokens p)),
          (''max_tool_calls_total'', json_opt_int (max_tool_calls_total p)),
          (''default_per_tool_limit'', json_opt_int (default_per_tool_limit p)),
          (''tool_limits'', JObj (map (\<lambda>(k, l). (k, JInt l)) (sort_key fst (tool_limits p)))),
          (''max_cost_usd'', json_opt_str cost)]))"

definition policy_fingerprint :: "policy \<Rightarrow> err + string" where
  "policy_fingerprint p = bindR (canonical_semantics p) (\<lambda>kvs. Inr (canonical_sha256 kvs))"

section \<open>Reservation intent\<close>

lemma size_dict_value: "kv \<in> set kvs \<Longrightarrow> size (snd kv) < Suc (size_list (size_prod (\<lambda>_. 0) size) kvs)"
  by (induction kvs) (auto simp: less_Suc_eq_le trans_le_add2)

function (sequential) canonicalize_json :: "pyval \<Rightarrow> err + json" where
  "canonicalize_json VNone = Inr JNull"
| "canonicalize_json (VStr s) = Inr (JStr s)"
| "canonicalize_json (VInt i) = Inr (JInt i)"
| "canonicalize_json (VBool b) = Inr (JBool b)"
| "canonicalize_json (VFloat s) = Inl TypeError"
| "canonicalize_json (VDec d) =
     bindR (canonical_decimal_string (Some d)) (\<lambda>m. Inr (json_opt_str m))"
| "canonicalize_json (VDict kvs) =
     (if list_all (is_str_key \<circ> fst) kvs
      then bindR (mapR (\<lambda>kv. bindR (canonicalize_json (snd kv)) (\<lambda>j. Inr (key_str (fst kv), j)))
                    (sort_key (key_str \<circ> fst) kvs)) (\<lambda>items. Inr (JObj items))
      else Inl TypeError)"
| "canonicalize_json (VList xs) = bindR (mapR canonicalize_json xs) (\<lambda>js. Inr (JArr js))"
| "canonicalize_json _ = Inl TypeError"
  by pat_completeness auto

termination canonicalize_json
  by (relation "measure size") (auto simp: size_dict_value less_Suc_eq_le size_list_estimation')

record intent =
  in_reservation_id :: string
  in_owner_user_id :: string
  in_window_epoch :: int
  in_idempotency_key :: string
  in_resource_kind :: resource_kind
  in_capability_id :: "string option"
  in_reserved_amount_atomic :: int
  in_attribution :: "(pykey \<times> pyval) list"

definition capability_scope_ok :: "resource_kind \<Rightarrow> string option \<Rightarrow> bool" where
  "capability_scope_ok kind cap \<longleftrightarrow>
     (if kind = TOOL_CALL then cap \<noteq> None \<and> cap \<noteq> Some [] else cap = None)"

definition make_intent :: "string \<Rightarrow> string \<Rightarrow> int \<Rightarrow> string \<Rightarrow> resource_kind \<Rightarrow> string option \<Rightarrow> int \<Rightarrow>
    (pykey \<times> pyval) list \<Rightarrow> err + intent" where
  "make_intent rid owner epoch key kind cap amount attribution =
     bindR (requireR (bounded_str 255 rid \<and> bounded_str 255 owner \<and> positive_int64 epoch \<and>
              bounded_str 255 key \<and> (case cap of None \<Rightarrow> True | Some c \<Rightarrow> py_len c \<le> 255) \<and>
              positive_int64 amount \<and> capability_scope_ok kind cap) ValidationError) (\<lambda>_.
     Inr \<lparr>in_reservation_id = rid, in_owner_user_id = owner, in_window_epoch = epoch,
          in_idempotency_key = key, in_resource_kind = kind, in_capability_id = cap,
          in_reserved_amount_atomic = amount, in_attribution = attribution\<rparr>)"

definition canonical_attribution :: "intent \<Rightarrow> err + (string \<times> json) list" where
  "canonical_attribution i =
     bindR (canonicalize_json (VDict (in_attribution i))) (\<lambda>j.
       case j of JObj kvs \<Rightarrow> Inr kvs | _ \<Rightarrow> Inl TypeError)"

definition payload_fingerprint :: "intent \<Rightarrow> err + string" where
  "payload_fingerprint i =
     bindR (canonical_attribution i) (\<lambda>attr.
     Inr (canonical_sha256
       [(''resource_kind'', JStr (kind_value (in_resource_kind i))),
        (''reserved_amount_atomic'', JInt (in_reserved_amount_atomic i)),
        (''capability_id'', json_opt_str (in_capability_id i)),
        (''attribution'', JObj attr)]))"

section \<open>Atomic amounts: bounds, rounding, round trip\<close>

lemma require_atomic_int_Inr:
  "require_atomic_int positive v = Inr a \<longleftrightarrow>
     v = VInt a \<and> (if positive then 1 else 0) \<le> a \<and> a \<le> USER_BUDGET_INT64_MAX"
  by (auto simp: require_atomic_int_def split: pyval.splits if_splits)

lemma quantize_Inr:
  "quantize t d = Inr n \<longleftrightarrow>
     (\<exists>s c e. d = Fin s c e \<and> n = Fin s (rescale c e t) t \<and> rescale c e t < 10 ^ 28)"
  by (auto simp: quantize_def Let_def split: pydec.splits if_splits)

lemma scaled_int_quantized [simp]: "scaled_int (Fin s c (- 8)) = (if s then - int c else int c)"
  by (simp add: scaled_int_def dec_int_def USER_BUDGET_ATOMIC_SCALE_def)

lemma decimal_to_atomic_Fin:
  "decimal_of v = Inr (Fin s c e) \<Longrightarrow>
   decimal_to_atomic positive v = Inr a \<longleftrightarrow>
     rescale c e (- 8) < 10 ^ 28 \<and>
     a = (if s then - int (rescale c e (- 8)) else int (rescale c e (- 8))) \<and>
     (if positive then 1 else 0) \<le> a \<and> a \<le> USER_BUDGET_INT64_MAX"
  by (cases "rescale c e (- 8) < 10 ^ 28")
    (auto simp: decimal_to_atomic_def normalize_decimal_value_def quantize_def Let_def bindR_assoc
      require_atomic_int_Inr dec_is_neg_def dec_is_zero_def)

lemma decimal_to_atomic_finite:
  "decimal_to_atomic positive v = Inr a \<Longrightarrow> \<exists>s c e. decimal_of v = Inr (Fin s c e)"
  by (auto simp: decimal_to_atomic_def normalize_decimal_value_def quantize_Inr)

text \<open>
  A stored atomic amount is the decimal times \<open>10 ^ 8\<close> rounded half to even: it is exact when
  the decimal has at most eight fractional digits, and otherwise off by at most half a unit.
\<close>

lemma rescale_exact: "- 8 \<le> e \<Longrightarrow> rescale c e (- 8) = c * 10 ^ nat (e + 8)"
  by (simp add: rescale_def)

lemma rescale_error:
  "e < - 8 \<Longrightarrow> 2 * \<bar>int (rescale c e (- 8)) * 10 ^ nat (- 8 - e) - int c\<bar> \<le> 10 ^ nat (- 8 - e)"
  using round_half_even_error [of "10 ^ nat (- 8 - e)" c] by (simp add: rescale_def)

section \<open>Canonical attribution\<close>

lemma sort_key_permuted:
  fixes f :: "'a \<Rightarrow> 'k :: linorder"
  assumes "set xs = set ys" and "distinct (map f xs)" and "distinct (map f ys)"
  shows "sort_key f xs = sort_key f ys"
proof (rule map_sorted_distinct_set_unique [where f = f])
  show "inj_on f (set (sort_key f xs) \<union> set (sort_key f ys))"
    using assms by (simp add: distinct_map)
qed (use assms in \<open>simp_all add: distinct_map\<close>)

lemma sort_key_sorted: "sorted (map f xs) \<Longrightarrow> sort_key f xs = xs"
  by (induction xs) (auto simp: insort_key_left_comm insort_is_Cons)

lemma map_fst_mapR:
  assumes "mapR (\<lambda>x. bindR (g x) (\<lambda>j. Inr (h x, j))) xs = Inr items"
  shows "map fst items = map h xs"
  using assms by (induction xs arbitrary: items) auto

lemma canonicalize_json_fixpoint:
  "canonicalize_json v = Inr j \<Longrightarrow> canonicalize_json (pyval_of_json j) = Inr j"
proof (induction v arbitrary: j rule: canonicalize_json.induct)
  case (6 d)
  then show ?case by (auto simp: json_opt_str_def split: option.splits)
next
  case (7 kvs)
  let ?c = "\<lambda>kv. bindR (canonicalize_json (snd kv)) (\<lambda>j. Inr (key_str (fst kv), j))"
  let ?s = "sort_key (key_str \<circ> fst) kvs"
  from "7.prems" obtain items where str: "list_all (is_str_key \<circ> fst) kvs"
    and items: "mapR ?c ?s = Inr items" and j: "j = JObj items"
    by (auto split: if_splits)
  have keys: "map fst items = map (key_str \<circ> fst) ?s"
    using map_fst_mapR [OF items] by simp
  let ?q = "map (\<lambda>(k, v). (KStr k, pyval_of_json v)) items"
  have "map (key_str \<circ> fst) ?q = map fst items" by (simp add: case_prod_beta comp_def)
  then have sorted: "sort_key (key_str \<circ> fst) ?q = ?q"
    using keys by (intro sort_key_sorted) (metis sorted_sort_key)
  have "mapR ?c ?q = Inr items"
  proof (rule mapR_map_fixpoint)
    fix it assume "it \<in> set items"
    with mapR_Inr_member [OF items] obtain kv where "kv \<in> set ?s" "?c kv = Inr it" by blast
    then have "canonicalize_json (pyval_of_json (snd it)) = Inr (snd it)"
      using "7.IH" [OF str, of kv] by auto
    then show "?c (case it of (k, v) \<Rightarrow> (KStr k, pyval_of_json v)) = Inr it"
      by (simp add: case_prod_beta)
  qed
  with sorted show ?case by (simp add: j list_all_length case_prod_beta)
next
  case (8 xs)
  then obtain js where js: "mapR canonicalize_json xs = Inr js" and j: "j = JArr js" by auto
  have "mapR canonicalize_json (map pyval_of_json js) = Inr js"
    using mapR_Inr_member [OF js] "8.IH" by (intro mapR_map_fixpoint) blast
  with j show ?case by simp
qed auto

end
