(* ===== verification/Budget_Store.thy ===== *)
theory Budget_Store
  imports Budget_Schemas
begin

text \<open>
  The durable state of the user budget: the tables of
  \<open>src/se/src/infrastructure/storage/models/sql/user_budget.py\<close> as lists of rows, with their
  primary keys, unique constraints, foreign keys and CHECK constraints, and the identity and agent
  tables the services read. A statement that violates a constraint raises \<open>SqlIntegrityError\<close>
  and changes nothing. The bookkeeping columns \<open>created_at\<close> and \<open>updated_at\<close>, which no code
  reads, are left out; the textual enumeration columns are datatypes.
\<close>

section \<open>Rows\<close>

record policy_row =
  pol_policy_id :: string
  pol_owner_user_id :: string
  pol_policy_version :: string
  pol_policy_fingerprint :: string
  pol_window_duration_seconds :: int
  pol_max_compute_atomic :: "int option"
  pol_max_inference_calls :: "int option"
  pol_max_input_tokens :: "int option"
  pol_max_output_tokens :: "int option"
  pol_max_total_tokens :: "int option"
  pol_max_tool_calls_total :: "int option"
  pol_default_per_tool_limit :: "int option"
  pol_tool_limits_json :: "(string \<times> int) list"
  pol_max_cost_usd_atomic :: "int option"
  pol_revision :: int

record window_row =
  win_owner_user_id :: string
  win_epoch :: int
  win_state :: window_state
  win_governing_policy_id :: string
  win_governing_policy_version :: string
  win_governing_policy_fingerprint :: string
  win_started_at :: pydatetime
  win_expires_at :: pydatetime
  win_compute_used_atomic :: int
  win_compute_reserved_atomic :: int
  win_inference_used :: int
  win_inference_reserved :: int
  win_input_tokens_used :: int
  win_output_tokens_used :: int
  win_total_tokens_used :: int
  win_tokens_reserved :: int
  win_tool_calls_used :: int
  win_tool_calls_reserved :: int
  win_cost_used_atomic :: int
  win_cost_reserved_atomic :: int
  win_revision :: int
  win_closed_at :: "pydatetime option"

record account_row =
  acc_owner_user_id :: string
  acc_revision :: int
  acc_next_policy_id :: "string option"
  acc_active_window_epoch :: "int option"
  acc_next_window_epoch :: int

record tool_usage_row =
  tu_owner_user_id :: string
  tu_window_epoch :: int
  tu_capability_id :: string
  tu_used_calls :: int
  tu_reserved_calls :: int
  tu_revision :: int

record reservation_row =
  res_reservation_id :: string
  res_owner_user_id :: string
  res_window_epoch :: int
  res_idempotency_key :: string
  res_resource_kind :: resource_kind
  res_capability_id :: "string option"
  res_reserved_amount_atomic :: int
  res_settled_amount_atomic :: "int option"
  res_state :: reservation_state
  res_attribution_json :: "(string \<times> json) list"
  res_payload_fingerprint :: string
  res_revision :: int
  res_settled_at :: "pydatetime option"

record binding_row =
  bnd_task_id :: string
  bnd_owner_user_id :: string
  bnd_enrollment_version :: string
  bnd_source_auth_type :: string
  bnd_source_api_key_id :: "string option"
  bnd_source_application_id :: "string option"
  bnd_source_organization_id :: "string option"
  bnd_resolution_fingerprint :: string

record receipt_row =
  rcp_bridge_receipt_id :: string
  rcp_owner_user_id :: string
  rcp_task_id :: string
  rcp_task_budget_kind :: string
  rcp_task_budget_reservation_key :: string
  rcp_mirror_dimension :: string
  rcp_source_payload_fingerprint :: string
  rcp_window_epoch :: "int option"
  rcp_ubq_reservation_id :: "string option"
  rcp_ubq_idempotency_key :: "string option"
  rcp_ubq_payload_fingerprint :: "string option"
  rcp_amount_atomic :: int
  rcp_capability_id :: "string option"

text \<open>The columns of the identity and agent tables that the budget services read.\<close>

record organization_row =
  org_id :: string
  org_owner_id :: string

record application_row =
  app_id :: string
  app_organization_id :: string

record api_key_row =
  key_id :: string
  key_application_id :: string
  key_status :: string

record task_row =
  tsk_id :: string
  tsk_status :: string

text \<open>
  A task budget. The nine limit columns are kept as the record \<open>task_budget_limits\<close>; a cost is a
  NUMERIC(20, 8), counted in units of its last digit.
\<close>

datatype task_budget_state = TB_OPEN | TB_CLOSED

record task_budget_limits =
  lim_total_executions :: int
  lim_active_executions :: int
  lim_active_branches :: int
  lim_parallel_agents :: int
  lim_total_tool_calls :: int
  lim_total_inference_calls :: int
  lim_delegation_depth :: int
  lim_total_tokens :: "int option"
  lim_total_cost :: "int option"

record task_budget_row =
  tb_task_id :: string
  tb_incarnation_generation :: int
  tb_revision :: int
  tb_state :: task_budget_state
  tb_limits :: task_budget_limits
  tb_policy_version :: string
  tb_policy_fingerprint :: string
  tb_deny_recursive_agent_cycle :: bool
  tb_used_executions :: int
  tb_active_executions :: int
  tb_active_branches :: int
  tb_active_parallel_agents :: int
  tb_used_tool_calls :: int
  tb_used_inference_calls :: int
  tb_used_tokens :: int
  tb_used_cost :: int
  tb_closed_at :: "pydatetime option"

record task_budget_reservation_row =
  tbr_task_id :: string
  tbr_kind :: string
  tbr_reservation_key :: string
  tbr_incarnation_generation :: int
  tbr_payload_fingerprint :: string

record execution_row =
  exe_id :: string
  exe_task_id :: "string option"
  exe_branch_id :: "string option"
  exe_retry_of_execution_id :: "string option"
  exe_base_execution_id :: "string option"
  exe_base_checkpoint_id :: "string option"
  exe_state :: string
  exe_wait_reason :: "string option"
  exe_revision :: int
  exe_owner_instance_id :: "string option"
  exe_lease_expires_at :: "pydatetime option"
  exe_lease_generation :: int
  exe_current_checkpoint_id :: "string option"
  exe_bound_client_id :: "string option"
  exe_bound_connection_id :: "string option"
  exe_wait_expires_at :: "pydatetime option"
  exe_context_state :: "(string \<times> json) list option"
  exe_error :: "string option"
  exe_started_at :: "pydatetime option"
  exe_completed_at :: "pydatetime option"

record tool_call_row =
  tc_execution_id :: string
  tc_tool_call_id :: string
  tc_invocation_id :: string
  tc_capability_id :: string
  tc_arguments :: "(string \<times> json) list"

record iteration_row =
  it_id :: string
  it_execution_id :: string
  it_inference_request_id :: "string option"

record db =
  users :: "string list"
  organizations :: "organization_row list"
  applications :: "application_row list"
  api_keys :: "api_key_row list"
  tasks :: "task_row list"
  task_budget_next_generation :: int
  task_budgets :: "task_budget_row list"
  task_budget_reservations :: "task_budget_reservation_row list"
  executions :: "execution_row list"
  tool_calls :: "tool_call_row list"
  iterations :: "iteration_row list"
  policies :: "policy_row list"
  windows :: "window_row list"
  accounts :: "account_row list"
  tool_usage :: "tool_usage_row list"
  reservations :: "reservation_row list"
  bindings :: "binding_row list"
  receipts :: "receipt_row list"

section \<open>The window counters by name\<close>

datatype window_counter =
    compute_used_atomic | compute_reserved_atomic | inference_used | inference_reserved
  | input_tokens_used | output_tokens_used | total_tokens_used | tokens_reserved
  | tool_calls_used | tool_calls_reserved | cost_used_atomic | cost_reserved_atomic

definition all_counters :: "window_counter list" where
  "all_counters =
     [compute_used_atomic, compute_reserved_atomic, inference_used, inference_reserved,
      input_tokens_used, output_tokens_used, total_tokens_used, tokens_reserved,
      tool_calls_used, tool_calls_reserved, cost_used_atomic, cost_reserved_atomic]"

fun counter :: "window_counter \<Rightarrow> window_row \<Rightarrow> int" where
  "counter compute_used_atomic w = win_compute_used_atomic w"
| "counter compute_reserved_atomic w = win_compute_reserved_atomic w"
| "counter inference_used w = win_inference_used w"
| "counter inference_reserved w = win_inference_reserved w"
| "counter input_tokens_used w = win_input_tokens_used w"
| "counter output_tokens_used w = win_output_tokens_used w"
| "counter total_tokens_used w = win_total_tokens_used w"
| "counter tokens_reserved w = win_tokens_reserved w"
| "counter tool_calls_used w = win_tool_calls_used w"
| "counter tool_calls_reserved w = win_tool_calls_reserved w"
| "counter cost_used_atomic w = win_cost_used_atomic w"
| "counter cost_reserved_atomic w = win_cost_reserved_atomic w"

fun set_counter :: "window_counter \<Rightarrow> int \<Rightarrow> window_row \<Rightarrow> window_row" where
  "set_counter compute_used_atomic v w = w\<lparr>win_compute_used_atomic := v\<rparr>"
| "set_counter compute_reserved_atomic v w = w\<lparr>win_compute_reserved_atomic := v\<rparr>"
| "set_counter inference_used v w = w\<lparr>win_inference_used := v\<rparr>"
| "set_counter inference_reserved v w = w\<lparr>win_inference_reserved := v\<rparr>"
| "set_counter input_tokens_used v w = w\<lparr>win_input_tokens_used := v\<rparr>"
| "set_counter output_tokens_used v w = w\<lparr>win_output_tokens_used := v\<rparr>"
| "set_counter total_tokens_used v w = w\<lparr>win_total_tokens_used := v\<rparr>"
| "set_counter tokens_reserved v w = w\<lparr>win_tokens_reserved := v\<rparr>"
| "set_counter tool_calls_used v w = w\<lparr>win_tool_calls_used := v\<rparr>"
| "set_counter tool_calls_reserved v w = w\<lparr>win_tool_calls_reserved := v\<rparr>"
| "set_counter cost_used_atomic v w = w\<lparr>win_cost_used_atomic := v\<rparr>"
| "set_counter cost_reserved_atomic v w = w\<lparr>win_cost_reserved_atomic := v\<rparr>"

definition set_counters :: "(window_counter \<times> int) list \<Rightarrow> window_row \<Rightarrow> window_row" where
  "set_counters vs w = fold (\<lambda>(c, v). set_counter c v) vs w"

section \<open>CHECK constraints\<close>

definition opt_pos64 :: "int option \<Rightarrow> bool" where
  "opt_pos64 m = (case m of None \<Rightarrow> True | Some i \<Rightarrow> 0 < i \<and> i \<le> USER_BUDGET_INT64_MAX)"

definition nat64 :: "int \<Rightarrow> bool" where
  "nat64 i \<longleftrightarrow> 0 \<le> i \<and> i \<le> USER_BUDGET_INT64_MAX"

definition policy_row_ok :: "policy_row \<Rightarrow> bool" where
  "policy_row_ok p \<longleftrightarrow>
     0 \<le> pol_revision p \<and>
     0 < pol_window_duration_seconds p \<and> pol_window_duration_seconds p \<le> USER_BUDGET_INT64_MAX \<and>
     opt_pos64 (pol_max_compute_atomic p) \<and> opt_pos64 (pol_max_inference_calls p) \<and>
     opt_pos64 (pol_max_input_tokens p) \<and> opt_pos64 (pol_max_output_tokens p) \<and>
     opt_pos64 (pol_max_total_tokens p) \<and> opt_pos64 (pol_max_tool_calls_total p) \<and>
     opt_pos64 (pol_default_per_tool_limit p) \<and> opt_pos64 (pol_max_cost_usd_atomic p)"

definition instant :: "pydatetime \<Rightarrow> int" where
  "instant d = wall (record_utc d)"

definition window_row_ok :: "window_row \<Rightarrow> bool" where
  "window_row_ok w \<longleftrightarrow>
     0 < win_epoch w \<and> win_epoch w \<le> USER_BUDGET_INT64_MAX \<and>
     instant (win_started_at w) < instant (win_expires_at w) \<and>
     0 \<le> win_revision w \<and>
     list_all (\<lambda>c. nat64 (counter c w)) all_counters \<and>
     (win_state w = ACTIVE \<longleftrightarrow> win_closed_at w = None)"

definition account_row_ok :: "account_row \<Rightarrow> bool" where
  "account_row_ok a \<longleftrightarrow>
     0 \<le> acc_revision a \<and> 1 \<le> acc_next_window_epoch a \<and>
     acc_next_window_epoch a \<le> USER_BUDGET_INT64_MAX \<and>
     (case acc_active_window_epoch a of None \<Rightarrow> True
      | Some e \<Rightarrow> e < acc_next_window_epoch a \<and> e \<le> USER_BUDGET_INT64_MAX)"

definition tool_usage_row_ok :: "tool_usage_row \<Rightarrow> bool" where
  "tool_usage_row_ok u \<longleftrightarrow>
     tu_window_epoch u \<le> USER_BUDGET_INT64_MAX \<and> nat64 (tu_used_calls u) \<and>
     nat64 (tu_reserved_calls u) \<and> 0 \<le> tu_revision u"

definition reservation_row_ok :: "reservation_row \<Rightarrow> bool" where
  "reservation_row_ok r \<longleftrightarrow>
     (if res_state r = SETTLED
      then res_settled_amount_atomic r \<noteq> None \<and> res_settled_at r \<noteq> None
      else res_settled_amount_atomic r = None \<and> res_settled_at r = None) \<and>
     0 < res_reserved_amount_atomic r \<and> res_reserved_amount_atomic r \<le> USER_BUDGET_INT64_MAX \<and>
     (case res_settled_amount_atomic r of None \<Rightarrow> True | Some s \<Rightarrow> nat64 s) \<and>
     res_window_epoch r \<le> USER_BUDGET_INT64_MAX \<and>
     (res_resource_kind r = TOOL_CALL \<longleftrightarrow> res_capability_id r \<noteq> None) \<and>
     0 \<le> res_revision r"

definition receipt_row_ok :: "receipt_row \<Rightarrow> bool" where
  "receipt_row_ok b \<longleftrightarrow>
     rcp_task_budget_kind b \<in> {''INFERENCE'', ''USAGE'', ''TOOL_CALL''} \<and>
     rcp_mirror_dimension b \<in> {''INFERENCE_CALL'', ''TOTAL_TOKEN'', ''COST_USD'', ''TOOL_CALL'', ''NO_CHARGE''} \<and>
     nat64 (rcp_amount_atomic b) \<and>
     (if rcp_mirror_dimension b = ''NO_CHARGE''
      then rcp_amount_atomic b = 0 \<and> rcp_window_epoch b = None \<and> rcp_ubq_reservation_id b = None \<and>
           rcp_ubq_idempotency_key b = None \<and> rcp_ubq_payload_fingerprint b = None \<and>
           rcp_capability_id b = None
      else 0 < rcp_amount_atomic b \<and> rcp_window_epoch b \<noteq> None \<and> rcp_ubq_reservation_id b \<noteq> None \<and>
           rcp_ubq_idempotency_key b \<noteq> None \<and> rcp_ubq_payload_fingerprint b \<noteq> None) \<and>
     ((rcp_task_budget_kind b = ''INFERENCE'' \<and> rcp_mirror_dimension b = ''INFERENCE_CALL'' \<and>
       rcp_amount_atomic b = 1 \<and> rcp_capability_id b = None) \<or>
      (rcp_task_budget_kind b = ''USAGE'' \<and>
       rcp_mirror_dimension b \<in> {''TOTAL_TOKEN'', ''COST_USD'', ''NO_CHARGE''} \<and> rcp_capability_id b = None) \<or>
      (rcp_task_budget_kind b = ''TOOL_CALL'' \<and> rcp_mirror_dimension b = ''TOOL_CALL'' \<and>
       rcp_amount_atomic b = 1 \<and> rcp_capability_id b \<noteq> None))"

section \<open>Keys\<close>

definition win_key :: "window_row \<Rightarrow> string \<times> int" where
  "win_key w = (win_owner_user_id w, win_epoch w)"

definition tu_key :: "tool_usage_row \<Rightarrow> string \<times> int \<times> string" where
  "tu_key u = (tu_owner_user_id u, tu_window_epoch u, tu_capability_id u)"

definition res_key :: "reservation_row \<Rightarrow> string \<times> string" where
  "res_key r = (res_owner_user_id r, res_idempotency_key r)"

definition rcp_key :: "receipt_row \<Rightarrow> string \<times> string \<times> string \<times> string" where
  "rcp_key b = (rcp_task_id b, rcp_task_budget_kind b, rcp_task_budget_reservation_key b, rcp_mirror_dimension b)"

definition exact_policy :: "window_row \<Rightarrow> policy_row \<Rightarrow> bool" where
  "exact_policy w p \<longleftrightarrow>
     pol_owner_user_id p = win_owner_user_id w \<and> pol_policy_id p = win_governing_policy_id w \<and>
     pol_policy_version p = win_governing_policy_version w \<and>
     pol_policy_fingerprint p = win_governing_policy_fingerprint w"

definition active_owners :: "window_row list \<Rightarrow> string list" where
  "active_owners ws = map win_owner_user_id (filter (\<lambda>w. win_state w = ACTIVE) ws)"

section \<open>INSERT\<close>

definition insert_policy :: "policy_row \<Rightarrow> db \<Rightarrow> err + db" where
  "insert_policy p d =
     (if policy_row_ok p \<and> pol_owner_user_id p \<in> set (users d) \<and>
         pol_policy_id p \<notin> pol_policy_id ` set (policies d) \<and>
         (pol_owner_user_id p, pol_policy_version p)
           \<notin> (\<lambda>q. (pol_owner_user_id q, pol_policy_version q)) ` set (policies d)
      then Inr (d\<lparr>policies := policies d @ [p]\<rparr>) else Inl SqlIntegrityError)"

definition insert_window :: "window_row \<Rightarrow> db \<Rightarrow> err + db" where
  "insert_window w d =
     (if window_row_ok w \<and> win_owner_user_id w \<in> set (users d) \<and>
         list_ex (exact_policy w) (policies d) \<and>
         win_key w \<notin> win_key ` set (windows d) \<and>
         (win_state w = ACTIVE \<longrightarrow> win_owner_user_id w \<notin> set (active_owners (windows d)))
      then Inr (d\<lparr>windows := windows d @ [w]\<rparr>) else Inl SqlIntegrityError)"

definition account_refs_ok :: "db \<Rightarrow> account_row \<Rightarrow> bool" where
  "account_refs_ok d a \<longleftrightarrow>
     (case acc_next_policy_id a of None \<Rightarrow> True
      | Some pid \<Rightarrow> list_ex (\<lambda>p. pol_owner_user_id p = acc_owner_user_id a \<and> pol_policy_id p = pid) (policies d)) \<and>
     (case acc_active_window_epoch a of None \<Rightarrow> True
      | Some e \<Rightarrow> list_ex (\<lambda>w. win_owner_user_id w = acc_owner_user_id a \<and> win_epoch w = e \<and> win_state w = ACTIVE) (windows d))"

definition insert_account :: "account_row \<Rightarrow> db \<Rightarrow> err + db" where
  "insert_account a d =
     (if account_row_ok a \<and> acc_owner_user_id a \<in> set (users d) \<and> account_refs_ok d a \<and>
         acc_owner_user_id a \<notin> acc_owner_user_id ` set (accounts d)
      then Inr (d\<lparr>accounts := accounts d @ [a]\<rparr>) else Inl SqlIntegrityError)"

definition insert_tool_usage :: "tool_usage_row \<Rightarrow> db \<Rightarrow> err + db" where
  "insert_tool_usage u d =
     (if tool_usage_row_ok u \<and> (tu_owner_user_id u, tu_window_epoch u) \<in> win_key ` set (windows d) \<and>
         tu_key u \<notin> tu_key ` set (tool_usage d)
      then Inr (d\<lparr>tool_usage := tool_usage d @ [u]\<rparr>) else Inl SqlIntegrityError)"

definition insert_reservation :: "reservation_row \<Rightarrow> db \<Rightarrow> err + db" where
  "insert_reservation r d =
     (if reservation_row_ok r \<and> (res_owner_user_id r, res_window_epoch r) \<in> win_key ` set (windows d) \<and>
         res_reservation_id r \<notin> res_reservation_id ` set (reservations d) \<and>
         res_key r \<notin> res_key ` set (reservations d)
      then Inr (d\<lparr>reservations := reservations d @ [r]\<rparr>) else Inl SqlIntegrityError)"

definition insert_binding :: "binding_row \<Rightarrow> db \<Rightarrow> err + db" where
  "insert_binding b d =
     (if bnd_owner_user_id b \<in> set (users d) \<and> bnd_task_id b \<notin> bnd_task_id ` set (bindings d)
      then Inr (d\<lparr>bindings := bindings d @ [b]\<rparr>) else Inl SqlIntegrityError)"

definition bridged :: "receipt_row \<Rightarrow> reservation_row \<Rightarrow> bool" where
  "bridged b r \<longleftrightarrow>
     res_owner_user_id r = rcp_owner_user_id b \<and> Some (res_reservation_id r) = rcp_ubq_reservation_id b \<and>
     Some (res_window_epoch r) = rcp_window_epoch b \<and>
     kind_value (res_resource_kind r) = rcp_mirror_dimension b \<and>
     Some (res_idempotency_key r) = rcp_ubq_idempotency_key b \<and>
     Some (res_payload_fingerprint r) = rcp_ubq_payload_fingerprint b"

definition insert_receipt :: "receipt_row \<Rightarrow> db \<Rightarrow> err + db" where
  "insert_receipt b d =
     (if receipt_row_ok b \<and>
         list_ex (\<lambda>t. bnd_task_id t = rcp_task_id b \<and> bnd_owner_user_id t = rcp_owner_user_id b) (bindings d) \<and>
         (rcp_mirror_dimension b \<noteq> ''NO_CHARGE'' \<longrightarrow> list_ex (bridged b) (reservations d)) \<and>
         rcp_bridge_receipt_id b \<notin> rcp_bridge_receipt_id ` set (receipts d) \<and>
         rcp_key b \<notin> rcp_key ` set (receipts d) \<and>
         (rcp_ubq_reservation_id b \<noteq> None \<longrightarrow>
            rcp_ubq_reservation_id b \<notin> rcp_ubq_reservation_id ` set (receipts d))
      then Inr (d\<lparr>receipts := receipts d @ [b]\<rparr>) else Inl SqlIntegrityError)"

section \<open>UPDATE\<close>

definition update_windows :: "(window_row \<Rightarrow> bool) \<Rightarrow> (window_row \<Rightarrow> window_row) \<Rightarrow> db \<Rightarrow> err + db" where
  "update_windows P f d =
     (let ws = upd_where P f (windows d)
      in if list_all (\<lambda>w. P w \<longrightarrow> window_row_ok (f w)) (windows d) \<and> distinct (active_owners ws)
         then Inr (d\<lparr>windows := ws\<rparr>) else Inl SqlIntegrityError)"

definition update_accounts :: "(account_row \<Rightarrow> bool) \<Rightarrow> (account_row \<Rightarrow> account_row) \<Rightarrow> db \<Rightarrow> err + db" where
  "update_accounts P f d =
     (if list_all (\<lambda>a. P a \<longrightarrow> account_row_ok (f a) \<and> account_refs_ok d (f a) \<and>
                          acc_next_window_epoch a \<le> acc_next_window_epoch (f a)) (accounts d)
      then Inr (d\<lparr>accounts := upd_where P f (accounts d)\<rparr>) else Inl SqlIntegrityError)"

definition update_tool_usage :: "(tool_usage_row \<Rightarrow> bool) \<Rightarrow> (tool_usage_row \<Rightarrow> tool_usage_row) \<Rightarrow> db \<Rightarrow> err + db" where
  "update_tool_usage P f d =
     (if list_all (\<lambda>u. P u \<longrightarrow> tool_usage_row_ok (f u)) (tool_usage d)
      then Inr (d\<lparr>tool_usage := upd_where P f (tool_usage d)\<rparr>) else Inl SqlIntegrityError)"

definition update_reservations :: "(reservation_row \<Rightarrow> bool) \<Rightarrow> (reservation_row \<Rightarrow> reservation_row) \<Rightarrow> db \<Rightarrow> err + db" where
  "update_reservations P f d =
     (if list_all (\<lambda>r. P r \<longrightarrow> reservation_row_ok (f r)) (reservations d)
      then Inr (d\<lparr>reservations := upd_where P f (reservations d)\<rparr>) else Inl SqlIntegrityError)"

section \<open>Laws of the counters\<close>

lemma all_counters_complete [simp]: "c \<in> set all_counters"
  by (cases c) (simp_all add: all_counters_def)

lemma list_all_counters [simp]: "list_all P all_counters \<longleftrightarrow> (\<forall>c. P c)"
  by (auto simp: list_all_iff)

lemma counter_set_counter [simp]: "counter c (set_counter c' v w) = (if c = c' then v else counter c w)"
  by (cases c; cases c') simp_all

lemma set_counter_fields [simp]:
  "win_owner_user_id (set_counter c v w) = win_owner_user_id w"
  "win_epoch (set_counter c v w) = win_epoch w"
  "win_state (set_counter c v w) = win_state w"
  "win_governing_policy_id (set_counter c v w) = win_governing_policy_id w"
  "win_governing_policy_version (set_counter c v w) = win_governing_policy_version w"
  "win_governing_policy_fingerprint (set_counter c v w) = win_governing_policy_fingerprint w"
  "win_started_at (set_counter c v w) = win_started_at w"
  "win_expires_at (set_counter c v w) = win_expires_at w"
  "win_revision (set_counter c v w) = win_revision w"
  "win_closed_at (set_counter c v w) = win_closed_at w"
  by (cases c; simp)+

lemma counter_revision [simp]: "counter c (w\<lparr>win_revision := v\<rparr>) = counter c w"
  by (cases c) simp_all

lemma counter_closed [simp]:
  "counter c (w\<lparr>win_state := s, win_revision := v, win_closed_at := t\<rparr>) = counter c w"
  by (cases c) simp_all

lemma set_counters_simps [simp]:
  "set_counters [] w = w"
  "set_counters ((c, v) # vs) w = set_counters vs (set_counter c v w)"
  by (simp_all add: set_counters_def)

lemma set_counters_fields [simp]:
  "win_owner_user_id (set_counters vs w) = win_owner_user_id w"
  "win_epoch (set_counters vs w) = win_epoch w"
  "win_state (set_counters vs w) = win_state w"
  "win_governing_policy_id (set_counters vs w) = win_governing_policy_id w"
  "win_governing_policy_version (set_counters vs w) = win_governing_policy_version w"
  "win_governing_policy_fingerprint (set_counters vs w) = win_governing_policy_fingerprint w"
  "win_started_at (set_counters vs w) = win_started_at w"
  "win_expires_at (set_counters vs w) = win_expires_at w"
  "win_revision (set_counters vs w) = win_revision w"
  "win_closed_at (set_counters vs w) = win_closed_at w"
  by (induction vs arbitrary: w) (auto simp: split_paired_all)

lemma counter_set_counters:
  "distinct (map fst vs) \<Longrightarrow>
   counter c (set_counters vs w) = (case map_of vs c of None \<Rightarrow> counter c w | Some v \<Rightarrow> v)"
proof (induction vs arbitrary: w)
  case Nil
  then show ?case by simp
next
  case (Cons cv vs)
  obtain c' v where cv: "cv = (c', v)" by (cases cv)
  with Cons.prems have "map_of vs c' = None" by (simp add: map_of_eq_None_iff)
  with Cons cv show ?case by (auto split: option.split)
qed

lemma set_counter_key [simp]: "win_key (set_counter c v w) = win_key w"
  by (simp add: win_key_def)

lemma set_counters_key [simp]: "win_key (set_counters vs w) = win_key w"
  by (simp add: win_key_def)

lemma win_key_revision [simp]: "win_key (w\<lparr>win_revision := v\<rparr>) = win_key w"
  by (simp add: win_key_def)

section \<open>Statements that succeed\<close>

lemma update_windows_Inr:
  "update_windows P f d = Inr d' \<longleftrightarrow>
     (\<forall>w \<in> set (windows d). P w \<longrightarrow> window_row_ok (f w)) \<and>
     distinct (active_owners (upd_where P f (windows d))) \<and>
     d' = d\<lparr>windows := upd_where P f (windows d)\<rparr>"
  by (auto simp: update_windows_def Let_def list_all_iff split: if_splits)

lemma update_accounts_Inr:
  "update_accounts P f d = Inr d' \<longleftrightarrow>
     (\<forall>a \<in> set (accounts d). P a \<longrightarrow> account_row_ok (f a) \<and> account_refs_ok d (f a) \<and>
        acc_next_window_epoch a \<le> acc_next_window_epoch (f a)) \<and>
     d' = d\<lparr>accounts := upd_where P f (accounts d)\<rparr>"
  by (auto simp: update_accounts_def list_all_iff split: if_splits)

lemma update_tool_usage_Inr:
  "update_tool_usage P f d = Inr d' \<longleftrightarrow>
     (\<forall>u \<in> set (tool_usage d). P u \<longrightarrow> tool_usage_row_ok (f u)) \<and>
     d' = d\<lparr>tool_usage := upd_where P f (tool_usage d)\<rparr>"
  by (auto simp: update_tool_usage_def list_all_iff split: if_splits)

lemma update_reservations_Inr:
  "update_reservations P f d = Inr d' \<longleftrightarrow>
     (\<forall>r \<in> set (reservations d). P r \<longrightarrow> reservation_row_ok (f r)) \<and>
     d' = d\<lparr>reservations := upd_where P f (reservations d)\<rparr>"
  by (auto simp: update_reservations_def list_all_iff split: if_splits)

end
