(* ===== verification/Budget_Repository.thy ===== *)
theory Budget_Repository
  imports Budget_Store
begin

text \<open>
  The repository of the user budget
  (\<open>src/se/src/infrastructure/storage/repositories/user_budget.py\<close>), one definition per method. A
  method that only reads maps a database to a value; a method that writes returns the value and
  the new database, or the exception, which drops every change of the caller's transaction.

  The create-or-get methods run their INSERT in a savepoint and read the winner of a lost race.
  Their argument \<open>race\<close> is what other transactions commit between the first SELECT and the
  INSERT; it is the identity where the caller already holds the owner's write lock.
\<close>

section \<open>Creating rows\<close>

definition create_or_get :: "(db \<Rightarrow> 'r option) \<Rightarrow> ('r \<Rightarrow> bool) \<Rightarrow> ('r \<Rightarrow> db \<Rightarrow> err + db) \<Rightarrow> (db \<Rightarrow> db) \<Rightarrow>
    'r \<Rightarrow> db \<Rightarrow> err + ('r \<times> db)" where
  "create_or_get lookup same ins race row d =
     (case lookup d of
        Some r \<Rightarrow> (if same r then Inr (r, d) else Inl UserBudgetConflictError)
      | None \<Rightarrow>
          (case ins row (race d) of
             Inr d' \<Rightarrow> Inr (row, d')
           | Inl e \<Rightarrow>
               (case lookup (race d) of
                  None \<Rightarrow> Inl e
                | Some w \<Rightarrow> (if same w then Inr (w, race d) else Inl UserBudgetConflictError))))"

section \<open>Task bindings\<close>

definition get_task_binding :: "db \<Rightarrow> string \<Rightarrow> binding_row option" where
  "get_task_binding d task_id = List.find (\<lambda>b. bnd_task_id b = task_id) (bindings d)"

definition same_binding :: "binding_row \<Rightarrow> binding_row \<Rightarrow> bool" where
  "same_binding b r \<longleftrightarrow>
     bnd_owner_user_id r = bnd_owner_user_id b \<and>
     bnd_resolution_fingerprint r = bnd_resolution_fingerprint b \<and>
     bnd_enrollment_version r = bnd_enrollment_version b"

definition create_task_binding :: "(db \<Rightarrow> db) \<Rightarrow> binding_row \<Rightarrow> db \<Rightarrow> err + (binding_row \<times> db)" where
  "create_task_binding race b =
     create_or_get (\<lambda>d. get_task_binding d (bnd_task_id b)) (same_binding b) insert_binding race b"

section \<open>Dual-accounting receipts\<close>

definition get_dual_accounting_receipt :: "db \<Rightarrow> string \<times> string \<times> string \<times> string \<Rightarrow> receipt_row option" where
  "get_dual_accounting_receipt d key = List.find (\<lambda>b. rcp_key b = key) (receipts d)"

definition list_dual_accounting_receipts :: "db \<Rightarrow> string \<Rightarrow> receipt_row list" where
  "list_dual_accounting_receipts d task_id =
     sort_key rcp_task_budget_kind (sort_key rcp_task_budget_reservation_key (sort_key rcp_mirror_dimension
       (filter (\<lambda>b. rcp_task_id b = task_id) (receipts d))))"

definition same_receipt :: "receipt_row \<Rightarrow> receipt_row \<Rightarrow> bool" where
  "same_receipt v r \<longleftrightarrow>
     rcp_bridge_receipt_id r = rcp_bridge_receipt_id v \<and> rcp_owner_user_id r = rcp_owner_user_id v \<and>
     rcp_source_payload_fingerprint r = rcp_source_payload_fingerprint v \<and>
     rcp_window_epoch r = rcp_window_epoch v \<and> rcp_ubq_reservation_id r = rcp_ubq_reservation_id v \<and>
     rcp_ubq_idempotency_key r = rcp_ubq_idempotency_key v \<and>
     rcp_ubq_payload_fingerprint r = rcp_ubq_payload_fingerprint v \<and>
     rcp_amount_atomic r = rcp_amount_atomic v \<and> rcp_capability_id r = rcp_capability_id v"

definition create_or_get_dual_accounting_receipt :: "(db \<Rightarrow> db) \<Rightarrow> receipt_row \<Rightarrow> db \<Rightarrow> err + (receipt_row \<times> db)" where
  "create_or_get_dual_accounting_receipt race v =
     create_or_get (\<lambda>d. get_dual_accounting_receipt d (rcp_key v)) (same_receipt v) insert_receipt race v"

section \<open>Policies\<close>

definition atomic_limit :: "pydec option \<Rightarrow> err + int option" where
  "atomic_limit m =
     (case m of None \<Rightarrow> Inr None
      | Some d \<Rightarrow> bindR (decimal_to_atomic True (VDec d)) (\<lambda>a. Inr (Some a)))"

definition durable_values :: "policy \<Rightarrow> err + policy_row" where
  "durable_values p =
     bindR (policy_fingerprint p) (\<lambda>fp.
     bindR (atomic_limit (max_compute_units p)) (\<lambda>compute.
     bindR (atomic_limit (max_cost_usd p)) (\<lambda>cost.
     Inr \<lparr>pol_policy_id = policy_id p, pol_owner_user_id = owner_user_id p,
          pol_policy_version = policy_version p, pol_policy_fingerprint = fp,
          pol_window_duration_seconds = window_duration_seconds p,
          pol_max_compute_atomic = compute,
          pol_max_inference_calls = max_inference_calls p,
          pol_max_input_tokens = max_input_tokens p,
          pol_max_output_tokens = max_output_tokens p,
          pol_max_total_tokens = max_total_tokens p,
          pol_max_tool_calls_total = max_tool_calls_total p,
          pol_default_per_tool_limit = default_per_tool_limit p,
          pol_tool_limits_json = tool_limits p,
          pol_max_cost_usd_atomic = cost, pol_revision = 0\<rparr>)))"

definition get_policy :: "db \<Rightarrow> string \<Rightarrow> string \<Rightarrow> policy_row option" where
  "get_policy d owner pid =
     List.find (\<lambda>p. pol_owner_user_id p = owner \<and> pol_policy_id p = pid) (policies d)"

definition get_policy_by_version :: "db \<Rightarrow> string \<Rightarrow> string \<Rightarrow> policy_row option" where
  "get_policy_by_version d owner version =
     List.find (\<lambda>p. pol_owner_user_id p = owner \<and> pol_policy_version p = version) (policies d)"

definition policy_identity :: "policy_row \<Rightarrow> db \<Rightarrow> policy_row option" where
  "policy_identity p d =
     (case get_policy d (pol_owner_user_id p) (pol_policy_id p) of
        None \<Rightarrow> get_policy_by_version d (pol_owner_user_id p) (pol_policy_version p)
      | Some r \<Rightarrow> Some r)"

definition same_policy :: "policy_row \<Rightarrow> policy_row \<Rightarrow> bool" where
  "same_policy p r \<longleftrightarrow>
     pol_policy_id r = pol_policy_id p \<and> pol_policy_version r = pol_policy_version p \<and>
     pol_policy_fingerprint r = pol_policy_fingerprint p"

definition create_or_get_immutable_policy :: "(db \<Rightarrow> db) \<Rightarrow> policy \<Rightarrow> db \<Rightarrow> err + (policy_row \<times> db)" where
  "create_or_get_immutable_policy race p d =
     bindR (durable_values p) (\<lambda>row.
     create_or_get (policy_identity row) (same_policy row) insert_policy race row d)"

section \<open>Accounts\<close>

definition get_account :: "db \<Rightarrow> string \<Rightarrow> account_row option" where
  "get_account d owner = List.find (\<lambda>a. acc_owner_user_id a = owner) (accounts d)"

definition new_account :: "string \<Rightarrow> account_row" where
  "new_account owner =
     \<lparr>acc_owner_user_id = owner, acc_revision = 0, acc_next_policy_id = None,
      acc_active_window_epoch = None, acc_next_window_epoch = 1\<rparr>"

definition create_or_get_account :: "(db \<Rightarrow> db) \<Rightarrow> string \<Rightarrow> db \<Rightarrow> err + (account_row \<times> db)" where
  "create_or_get_account race owner =
     create_or_get (\<lambda>d. get_account d owner) (\<lambda>_. True) insert_account race (new_account owner)"

definition select_next_policy :: "string \<Rightarrow> int \<Rightarrow> string \<Rightarrow> db \<Rightarrow> err + (account_row \<times> db)" where
  "select_next_policy owner expected_revision next_policy_id d =
     bindR (ofOption UserBudgetIntegrityError (get_policy d owner next_policy_id)) (\<lambda>_.
     let hit = (\<lambda>a. acc_owner_user_id a = owner \<and> acc_revision a = expected_revision);
         change = (\<lambda>a. a\<lparr>acc_next_policy_id := Some next_policy_id, acc_revision := expected_revision + 1\<rparr>)
     in bindR (update_accounts hit change d) (\<lambda>d'.
        bindR (ofOption UserBudgetConflictError (List.find hit (accounts d))) (\<lambda>a.
        Inr (change a, d'))))"

section \<open>Windows\<close>

definition active_windows :: "db \<Rightarrow> string \<Rightarrow> window_row list" where
  "active_windows d owner =
     sort_key win_epoch (filter (\<lambda>w. win_owner_user_id w = owner \<and> win_state w = ACTIVE) (windows d))"

definition get_window :: "db \<Rightarrow> string \<Rightarrow> int \<Rightarrow> window_row option" where
  "get_window d owner epoch = List.find (\<lambda>w. win_key w = (owner, epoch)) (windows d)"

definition get_active_window :: "db \<Rightarrow> string \<Rightarrow> err + window_row option" where
  "get_active_window d owner =
     (let ws = active_windows d owner
      in if 1 < length ws then Inl UserBudgetIntegrityError
         else let active = (case ws of [] \<Rightarrow> None | w # _ \<Rightarrow> Some w)
              in case get_account d owner of
                   None \<Rightarrow> (if active \<noteq> None then Inl UserBudgetIntegrityError else Inr None)
                 | Some account \<Rightarrow>
                     (case acc_active_window_epoch account of
                        None \<Rightarrow> (if active \<noteq> None then Inl UserBudgetIntegrityError else Inr None)
                      | Some pointer \<Rightarrow>
                          (case active of
                             None \<Rightarrow> Inl UserBudgetIntegrityError
                           | Some w \<Rightarrow>
                               if win_epoch w \<noteq> pointer then Inl UserBudgetIntegrityError
                               else if acc_next_window_epoch account \<le> win_epoch w then Inl UserBudgetIntegrityError
                               else Inr (Some w))))"

definition new_window :: "string \<Rightarrow> int \<Rightarrow> policy_row \<Rightarrow> pydatetime \<Rightarrow> pydatetime \<Rightarrow> window_row" where
  "new_window owner epoch p now expires =
     \<lparr>win_owner_user_id = owner, win_epoch = epoch, win_state = ACTIVE,
      win_governing_policy_id = pol_policy_id p,
      win_governing_policy_version = pol_policy_version p,
      win_governing_policy_fingerprint = pol_policy_fingerprint p,
      win_started_at = now, win_expires_at = expires,
      win_compute_used_atomic = 0, win_compute_reserved_atomic = 0,
      win_inference_used = 0, win_inference_reserved = 0, win_input_tokens_used = 0,
      win_output_tokens_used = 0, win_total_tokens_used = 0, win_tokens_reserved = 0,
      win_tool_calls_used = 0, win_tool_calls_reserved = 0, win_cost_used_atomic = 0,
      win_cost_reserved_atomic = 0, win_revision = 0, win_closed_at = None\<rparr>"

text \<open>The CAS that closes the expired window; it must hit exactly one row.\<close>

definition close_window :: "window_row \<Rightarrow> pydatetime \<Rightarrow> db \<Rightarrow> err + db" where
  "close_window active now d =
     (let hit = (\<lambda>w. win_key w = win_key active \<and> win_revision w = win_revision active \<and> win_state w = ACTIVE)
      in bindR (update_windows hit
                 (\<lambda>w. w\<lparr>win_state := CLOSED, win_closed_at := Some now, win_revision := win_revision active + 1\<rparr>) d) (\<lambda>d'.
         bindR (requireR (length (filter hit (windows d)) = 1) UserBudgetConflictError) (\<lambda>_. Inr d')))"

definition advance_account :: "string \<Rightarrow> int \<Rightarrow> int \<Rightarrow> db \<Rightarrow> err + db" where
  "advance_account owner expected_revision new_epoch d =
     (let hit = (\<lambda>a. acc_owner_user_id a = owner \<and> acc_revision a = expected_revision \<and>
                     acc_next_window_epoch a = new_epoch)
      in bindR (update_accounts hit
                 (\<lambda>a. a\<lparr>acc_active_window_epoch := Some new_epoch, acc_next_window_epoch := new_epoch + 1,
                         acc_revision := expected_revision + 1\<rparr>) d) (\<lambda>d'.
         bindR (requireR (length (filter hit (accounts d)) = 1) UserBudgetConflictError) (\<lambda>_. Inr d')))"

definition open_window :: "string \<Rightarrow> int \<Rightarrow> pydatetime \<Rightarrow> account_row \<Rightarrow> window_row option \<Rightarrow> db \<Rightarrow> err + (window_row \<times> db)" where
  "open_window owner expected_revision now account active d =
     bindR (requireR (acc_revision account = expected_revision) UserBudgetConflictError) (\<lambda>_.
     bindR (ofOption UserBudgetIntegrityError (acc_next_policy_id account)) (\<lambda>pid.
     bindR (ofOption UserBudgetIntegrityError (get_policy d owner pid)) (\<lambda>p.
     let new_epoch = acc_next_window_epoch account in
     bindR (requireR (0 < new_epoch \<and> new_epoch \<le> USER_BUDGET_INT64_MAX) UserBudgetIntegrityError) (\<lambda>_.
     bindR (requireR (case active of None \<Rightarrow> True | Some w \<Rightarrow> win_epoch w < new_epoch) UserBudgetIntegrityError) (\<lambda>_.
     bindR (case active of None \<Rightarrow> Inr d | Some w \<Rightarrow> close_window w now d) (\<lambda>d1.
     bindR (add_seconds now (pol_window_duration_seconds p)) (\<lambda>expires.
     bindR (insert_window (new_window owner new_epoch p now expires) d1) (\<lambda>d2.
     bindR (requireR (new_epoch < USER_BUDGET_INT64_MAX) UserBudgetIntegrityError) (\<lambda>_.
     bindR (advance_account owner expected_revision new_epoch d2) (\<lambda>d3.
     bindR (get_active_window d3 owner) (\<lambda>refreshed.
     case refreshed of
       None \<Rightarrow> Inl UserBudgetIntegrityError
     | Some w \<Rightarrow> (if win_epoch w \<noteq> new_epoch then Inl UserBudgetIntegrityError else Inr (w, d3)))))))))))))"

definition rollover_window :: "string \<Rightarrow> int \<Rightarrow> pydatetime \<Rightarrow> db \<Rightarrow> err + (window_row \<times> db)" where
  "rollover_window owner expected_account_revision authoritative_server_now d =
     bindR (normalize_authoritative_utc authoritative_server_now) (\<lambda>now.
     bindR (ofOption UserBudgetIntegrityError (get_account d owner)) (\<lambda>account.
     bindR (get_active_window d owner) (\<lambda>active.
     case active of
       None \<Rightarrow> open_window owner expected_account_revision now account None d
     | Some w \<Rightarrow>
         bindR (dt_less now (record_utc (win_expires_at w))) (\<lambda>live.
         if live then Inr (w, d)
         else open_window owner expected_account_revision now account (Some w) d))))"

section \<open>Usage counters\<close>

definition require_atomic_counter :: "int \<Rightarrow> err + int" where
  "require_atomic_counter i = (if i < 0 \<or> USER_BUDGET_INT64_MAX < i then Inl ValueError else Inr i)"

definition monotonic_used_fields :: "window_counter list" where
  "monotonic_used_fields =
     [compute_used_atomic, inference_used, input_tokens_used, output_tokens_used, total_tokens_used,
      tool_calls_used, cost_used_atomic]"

text \<open>\<open>supplied\<close> lists the keyword arguments that are given.\<close>

definition mutate_window_usage :: "string \<Rightarrow> int \<Rightarrow> int \<Rightarrow> (window_counter \<times> int) list \<Rightarrow> db \<Rightarrow> err + (window_row \<times> db)" where
  "mutate_window_usage owner epoch expected_revision supplied d =
     bindR (ofOption KeyError (get_window d owner epoch)) (\<lambda>current.
     bindR (requireR (win_revision current = expected_revision) UserBudgetConflictError) (\<lambda>_.
     bindR (mapR (\<lambda>cv. require_atomic_counter (snd cv)) supplied) (\<lambda>_.
     bindR (requireR (supplied \<noteq> []) ValueError) (\<lambda>_.
     bindR (requireR (list_all (\<lambda>(c, v). c \<in> set monotonic_used_fields \<longrightarrow> counter c current \<le> v) supplied)
              UserBudgetIntegrityError) (\<lambda>_.
     let hit = (\<lambda>w. win_key w = (owner, epoch) \<and> win_revision w = expected_revision);
         change = (\<lambda>w. (set_counters supplied w)\<lparr>win_revision := expected_revision + 1\<rparr>)
     in bindR (update_windows hit change d) (\<lambda>d'.
        bindR (ofOption UserBudgetConflictError (List.find hit (windows d))) (\<lambda>w.
        Inr (change w, d'))))))))"

definition get_tool_usage :: "db \<Rightarrow> string \<Rightarrow> int \<Rightarrow> string \<Rightarrow> tool_usage_row option" where
  "get_tool_usage d owner epoch capability_id =
     List.find (\<lambda>u. tu_key u = (owner, epoch, capability_id)) (tool_usage d)"

definition new_tool_usage :: "string \<Rightarrow> int \<Rightarrow> string \<Rightarrow> tool_usage_row" where
  "new_tool_usage owner epoch capability_id =
     \<lparr>tu_owner_user_id = owner, tu_window_epoch = epoch, tu_capability_id = capability_id,
      tu_used_calls = 0, tu_reserved_calls = 0, tu_revision = 0\<rparr>"

definition create_or_get_tool_usage :: "(db \<Rightarrow> db) \<Rightarrow> string \<Rightarrow> int \<Rightarrow> string \<Rightarrow> db \<Rightarrow> err + (tool_usage_row \<times> db)" where
  "create_or_get_tool_usage race owner epoch capability_id d =
     bindR (requireR (capability_id \<noteq> []) ValueError) (\<lambda>_.
     create_or_get (\<lambda>d. get_tool_usage d owner epoch capability_id) (\<lambda>_. True) insert_tool_usage race
       (new_tool_usage owner epoch capability_id) d)"

definition mutate_tool_usage :: "string \<Rightarrow> int \<Rightarrow> string \<Rightarrow> int \<Rightarrow> int \<Rightarrow> int \<Rightarrow> db \<Rightarrow> err + (tool_usage_row \<times> db)" where
  "mutate_tool_usage owner epoch capability_id expected_revision used reserved d =
     bindR (ofOption KeyError (get_tool_usage d owner epoch capability_id)) (\<lambda>current.
     bindR (requireR (tu_revision current = expected_revision) UserBudgetConflictError) (\<lambda>_.
     bindR (require_atomic_counter used) (\<lambda>used.
     bindR (require_atomic_counter reserved) (\<lambda>reserved.
     bindR (requireR (tu_used_calls current \<le> used) UserBudgetIntegrityError) (\<lambda>_.
     let hit = (\<lambda>u. tu_key u = (owner, epoch, capability_id) \<and> tu_revision u = expected_revision);
         change = (\<lambda>u. u\<lparr>tu_used_calls := used, tu_reserved_calls := reserved, tu_revision := expected_revision + 1\<rparr>)
     in bindR (update_tool_usage hit change d) (\<lambda>d'.
        bindR (ofOption UserBudgetConflictError (List.find hit (tool_usage d))) (\<lambda>u.
        Inr (change u, d'))))))))"

section \<open>Reservations\<close>

definition pending :: "string \<Rightarrow> int \<Rightarrow> resource_kind \<Rightarrow> reservation_row \<Rightarrow> bool" where
  "pending owner epoch kind r \<longleftrightarrow>
     res_owner_user_id r = owner \<and> res_window_epoch r = epoch \<and> res_resource_kind r = kind \<and>
     res_state r = RESERVED"

definition sum_pending_reservation_amount :: "db \<Rightarrow> string \<Rightarrow> int \<Rightarrow> resource_kind \<Rightarrow> err + int" where
  "sum_pending_reservation_amount d owner epoch kind =
     require_atomic_counter (sum_where (pending owner epoch kind) res_reserved_amount_atomic (reservations d))"

definition get_reservation :: "db \<Rightarrow> string \<Rightarrow> string \<Rightarrow> reservation_row option" where
  "get_reservation d owner key = List.find (\<lambda>r. res_key r = (owner, key)) (reservations d)"

definition new_reservation :: "intent \<Rightarrow> err + reservation_row" where
  "new_reservation i =
     bindR (canonical_attribution i) (\<lambda>attr.
     bindR (payload_fingerprint i) (\<lambda>fp.
     Inr \<lparr>res_reservation_id = in_reservation_id i, res_owner_user_id = in_owner_user_id i,
          res_window_epoch = in_window_epoch i, res_idempotency_key = in_idempotency_key i,
          res_resource_kind = in_resource_kind i, res_capability_id = in_capability_id i,
          res_reserved_amount_atomic = in_reserved_amount_atomic i, res_settled_amount_atomic = None,
          res_state = RESERVED, res_attribution_json = attr, res_payload_fingerprint = fp,
          res_revision = 0, res_settled_at = None\<rparr>))"

definition create_or_get_reservation :: "(db \<Rightarrow> db) \<Rightarrow> intent \<Rightarrow> db \<Rightarrow> err + (reservation_row \<times> db)" where
  "create_or_get_reservation race i d =
     bindR (new_reservation i) (\<lambda>row.
     create_or_get (\<lambda>d. get_reservation d (in_owner_user_id i) (in_idempotency_key i))
       (\<lambda>r. res_payload_fingerprint r = res_payload_fingerprint row) insert_reservation race row d)"

definition settlement_fields :: "reservation_state \<Rightarrow> int option \<Rightarrow> pydatetime option \<Rightarrow> err + (int option \<times> pydatetime option)" where
  "settlement_fields target amount when =
     (if target = SETTLED
      then (case (amount, when) of
              (Some a, Some t) \<Rightarrow>
                bindR (require_atomic_counter a) (\<lambda>a.
                bindR (normalize_authoritative_utc t) (\<lambda>t. Inr (Some a, Some t)))
            | _ \<Rightarrow> Inl ValueError)
      else if amount \<noteq> None \<or> when \<noteq> None then Inl ValueError else Inr (None, None))"

definition transition_reservation :: "string \<Rightarrow> string \<Rightarrow> int \<Rightarrow> reservation_state \<Rightarrow> int option \<Rightarrow> pydatetime option \<Rightarrow>
    db \<Rightarrow> err + (reservation_row \<times> db)" where
  "transition_reservation owner key expected_revision target amount when d =
     bindR (requireR (target \<noteq> RESERVED) ValueError) (\<lambda>_.
     bindR (ofOption KeyError (get_reservation d owner key)) (\<lambda>current.
     if res_state current \<noteq> RESERVED
     then (if res_state current = target
           then bindR (case amount of None \<Rightarrow> Inr None
                       | Some a \<Rightarrow> bindR (require_atomic_counter a) (\<lambda>a. Inr (Some a))) (\<lambda>expected_amount.
                if res_settled_amount_atomic current = expected_amount then Inr (current, d)
                else Inl UserBudgetConflictError)
           else Inl UserBudgetConflictError)
     else
     bindR (requireR (res_revision current = expected_revision) UserBudgetConflictError) (\<lambda>_.
     bindR (settlement_fields target amount when) (\<lambda>(settled, at).
     let hit = (\<lambda>r. res_key r = (owner, key) \<and> res_revision r = expected_revision \<and> res_state r = RESERVED);
         change = (\<lambda>r. r\<lparr>res_state := target, res_settled_amount_atomic := settled, res_settled_at := at,
                          res_revision := expected_revision + 1\<rparr>)
     in bindR (update_reservations hit change d) (\<lambda>d'.
        bindR (ofOption UserBudgetConflictError (List.find hit (reservations d))) (\<lambda>r.
        Inr (change r, d')))))))"

section \<open>What the methods return\<close>

lemma counter_new_window [simp]: "counter c (new_window owner epoch p now expires) = 0"
  by (cases c) (simp_all add: new_window_def)

lemma require_atomic_counter_Inr [simp]: "require_atomic_counter i = Inr j \<longleftrightarrow> j = i \<and> nat64 i"
  by (auto simp: require_atomic_counter_def nat64_def)

lemma get_window_SomeD: "get_window d owner epoch = Some w \<Longrightarrow> w \<in> set (windows d) \<and> win_key w = (owner, epoch)"
  unfolding get_window_def by (drule find_SomeD) simp

lemma get_tool_usage_SomeD:
  "get_tool_usage d owner epoch cap = Some u \<Longrightarrow> u \<in> set (tool_usage d) \<and> tu_key u = (owner, epoch, cap)"
  unfolding get_tool_usage_def by (drule find_SomeD) simp

lemma get_reservation_SomeD:
  "get_reservation d owner key = Some r \<Longrightarrow> r \<in> set (reservations d) \<and> res_key r = (owner, key)"
  unfolding get_reservation_def by (drule find_SomeD) simp

lemma get_account_SomeD: "get_account d owner = Some a \<Longrightarrow> a \<in> set (accounts d) \<and> acc_owner_user_id a = owner"
  unfolding get_account_def by (drule find_SomeD) simp

lemma get_policy_SomeD:
  "get_policy d owner pid = Some p \<Longrightarrow>
   p \<in> set (policies d) \<and> pol_owner_user_id p = owner \<and> pol_policy_id p = pid"
  unfolding get_policy_def by (drule find_SomeD) simp

lemma mutate_window_usageE:
  assumes "mutate_window_usage owner epoch v vs d = Inr (w', d')" "distinct (map win_key (windows d))"
  obtains w where "w \<in> set (windows d)" "win_key w = (owner, epoch)" "win_revision w = v"
    "w' = (set_counters vs w)\<lparr>win_revision := v + 1\<rparr>" "window_row_ok w'"
    "\<forall>(c, x) \<in> set vs. c \<in> set monotonic_used_fields \<longrightarrow> counter c w \<le> x"
    "d' = d\<lparr>windows := replace_row win_key w' (windows d)\<rparr>"
proof -
  let ?f = "\<lambda>w. (set_counters vs w)\<lparr>win_revision := v + 1\<rparr>"
  from assms(1) obtain w where w: "get_window d owner epoch = Some w" "win_revision w = v"
    and mono: "\<forall>(c, x) \<in> set vs. c \<in> set monotonic_used_fields \<longrightarrow> counter c w \<le> x"
    and upd: "update_windows (\<lambda>w. win_key w = (owner, epoch) \<and> win_revision w = v) ?f d = Inr d'"
    and found: "List.find (\<lambda>w. win_key w = (owner, epoch) \<and> win_revision w = v) (windows d) = Some w \<Longrightarrow> w' = ?f w"
    by (auto simp: mutate_window_usage_def Let_def list_all_iff)
  from get_window_SomeD [OF w(1)] have mem: "w \<in> set (windows d)" "win_key w = (owner, epoch)" by auto
  have "w' = ?f w"
    using found find_keyed_guard [of win_key "windows d" w "\<lambda>w. win_revision w = v"] assms(2) mem w(2) by simp
  moreover have "upd_where (\<lambda>x. win_key x = (owner, epoch) \<and> win_revision x = v) ?f (windows d) =
      replace_row win_key (?f w) (windows d)"
    using upd_where_replace_row [of win_key "windows d" w "\<lambda>w. win_revision w = v" ?f] assms(2) mem w(2) by simp
  ultimately show thesis
    using that [of w] upd mem w(2) mono by (auto simp: update_windows_Inr)
qed

lemma mutate_tool_usageE:
  assumes "mutate_tool_usage owner epoch cap v used reserved d = Inr (u', d')" "distinct (map tu_key (tool_usage d))"
  obtains u where "u \<in> set (tool_usage d)" "tu_key u = (owner, epoch, cap)" "tu_revision u = v"
    "u' = u\<lparr>tu_used_calls := used, tu_reserved_calls := reserved, tu_revision := v + 1\<rparr>"
    "tool_usage_row_ok u'" "tu_used_calls u \<le> used"
    "d' = d\<lparr>tool_usage := replace_row tu_key u' (tool_usage d)\<rparr>"
proof -
  let ?f = "\<lambda>u. u\<lparr>tu_used_calls := used, tu_reserved_calls := reserved, tu_revision := v + 1\<rparr>"
  from assms(1) obtain u where u: "get_tool_usage d owner epoch cap = Some u" "tu_revision u = v"
    and mono: "tu_used_calls u \<le> used"
    and upd: "update_tool_usage (\<lambda>u. tu_key u = (owner, epoch, cap) \<and> tu_revision u = v) ?f d = Inr d'"
    and found: "List.find (\<lambda>u. tu_key u = (owner, epoch, cap) \<and> tu_revision u = v) (tool_usage d) = Some u \<Longrightarrow> u' = ?f u"
    by (auto simp: mutate_tool_usage_def Let_def)
  from get_tool_usage_SomeD [OF u(1)] have mem: "u \<in> set (tool_usage d)" "tu_key u = (owner, epoch, cap)" by auto
  have key: "tu_key (?f u) = tu_key u" by (simp add: tu_key_def)
  have "u' = ?f u"
    using found find_keyed_guard [of tu_key "tool_usage d" u "\<lambda>u. tu_revision u = v"] assms(2) mem u(2) by simp
  moreover have "upd_where (\<lambda>x. tu_key x = (owner, epoch, cap) \<and> tu_revision x = v) ?f (tool_usage d) =
      replace_row tu_key (?f u) (tool_usage d)"
    using upd_where_replace_row [of tu_key "tool_usage d" u "\<lambda>u. tu_revision u = v" ?f] assms(2) mem u(2) key by simp
  ultimately show thesis
    using that [of u] upd mem u(2) mono by (auto simp: update_tool_usage_Inr)
qed

lemma transition_reservationE:
  assumes "transition_reservation owner key v target amount at d = Inr (r', d')"
    and "distinct (map res_key (reservations d))"
  obtains (replayed) "get_reservation d owner key = Some r'" "res_state r' = target" "target \<noteq> RESERVED"
      "res_settled_amount_atomic r' = amount" "d' = d"
  | (moved) r settled stamp where "r \<in> set (reservations d)" "res_key r = (owner, key)" "res_state r = RESERVED"
      "res_revision r = v" "target \<noteq> RESERVED" "settlement_fields target amount at = Inr (settled, stamp)"
      "r' = r\<lparr>res_state := target, res_settled_amount_atomic := settled, res_settled_at := stamp, res_revision := v + 1\<rparr>"
      "reservation_row_ok r'" "d' = d\<lparr>reservations := replace_row res_key r' (reservations d)\<rparr>"
proof -
  from assms(1) obtain r where tgt: "target \<noteq> RESERVED" and r: "get_reservation d owner key = Some r"
    by (auto simp: transition_reservation_def)
  from get_reservation_SomeD [OF r] have mem: "r \<in> set (reservations d)" "res_key r = (owner, key)" by auto
  show thesis
  proof (cases "res_state r = RESERVED")
    case False
    with assms(1) r tgt have "r' = r" "d' = d" "res_state r = target" "res_settled_amount_atomic r = amount"
      by (auto simp: transition_reservation_def split: if_splits option.splits)
    with r tgt show thesis by (intro replayed) auto
  next
    case True
    from assms(1) r tgt True obtain settled stamp where rev: "res_revision r = v"
      and fields: "settlement_fields target amount at = Inr (settled, stamp)"
      by (auto simp: transition_reservation_def)
    let ?f = "\<lambda>r. r\<lparr>res_state := target, res_settled_amount_atomic := settled, res_settled_at := stamp, res_revision := v + 1\<rparr>"
    let ?Q = "\<lambda>r. res_revision r = v \<and> res_state r = RESERVED"
    have key: "res_key (?f r) = res_key r" by (simp add: res_key_def)
    have found: "List.find (\<lambda>x. res_key x = (owner, key) \<and> ?Q x) (reservations d) = Some r"
      using find_keyed_guard [of res_key "reservations d" r ?Q] assms(2) mem True rev by simp
    have upd: "upd_where (\<lambda>x. res_key x = (owner, key) \<and> ?Q x) ?f (reservations d) =
        replace_row res_key (?f r) (reservations d)"
      using upd_where_replace_row [of res_key "reservations d" r ?Q ?f] assms(2) mem True rev key by simp
    from assms(1) r tgt True rev fields found upd mem
    have "r' = ?f r" "reservation_row_ok (?f r)" "d' = d\<lparr>reservations := replace_row res_key (?f r) (reservations d)\<rparr>"
      by (auto simp: transition_reservation_def Let_def update_reservations_Inr)
    with mem True rev tgt fields show thesis by (intro moved) auto
  qed
qed

lemma select_next_policyE:
  assumes "select_next_policy owner v pid d = Inr (a', d')" "distinct (map acc_owner_user_id (accounts d))"
  obtains p a where "get_policy d owner pid = Some p" "a \<in> set (accounts d)" "acc_owner_user_id a = owner" "acc_revision a = v"
    "a' = a\<lparr>acc_next_policy_id := Some pid, acc_revision := v + 1\<rparr>" "account_row_ok a'" "account_refs_ok d a'"
    "d' = d\<lparr>accounts := replace_row acc_owner_user_id a' (accounts d)\<rparr>"
proof -
  let ?hit = "\<lambda>a. acc_owner_user_id a = owner \<and> acc_revision a = v"
  let ?f = "\<lambda>a. a\<lparr>acc_next_policy_id := Some pid, acc_revision := v + 1\<rparr>"
  from assms(1) obtain p a where p: "get_policy d owner pid = Some p"
    and upd: "update_accounts ?hit ?f d = Inr d'"
    and a: "List.find ?hit (accounts d) = Some a" "a' = ?f a"
    by (auto simp: select_next_policy_def Let_def)
  from find_SomeD [OF a(1)] have mem: "a \<in> set (accounts d)" "acc_owner_user_id a = owner" "acc_revision a = v" by auto
  have "upd_where ?hit ?f (accounts d) = replace_row acc_owner_user_id (?f a) (accounts d)"
    using upd_where_replace_row [of acc_owner_user_id "accounts d" a "\<lambda>a. acc_revision a = v" ?f] assms(2) mem by simp
  with p upd mem a(2) show thesis by (intro that [of p a]) (auto simp: update_accounts_Inr)
qed

section \<open>Create-or-get\<close>

text \<open>
  What the create-or-get methods share: the INSERT makes its row the one the lookup finds. Then the
  returned row is the durable one, it agrees with the requested row on its immutable identity, and
  repeating the call returns it again and writes nothing, whoever won the race.
\<close>

locale create_or_get_contract =
  fixes lookup :: "db \<Rightarrow> 'r option" and same :: "'r \<Rightarrow> bool" and ins :: "'r \<Rightarrow> db \<Rightarrow> err + db" and row :: 'r
  assumes ins_lookup: "ins row d = Inr d' \<Longrightarrow> lookup d' = Some row"
    and same_row: "same row"
begin

lemma durable:
  "create_or_get lookup same ins race row d = Inr (r, d') \<Longrightarrow> lookup d' = Some r \<and> same r"
  using ins_lookup same_row
  by (auto simp: create_or_get_def split: option.splits sum.splits if_splits)

lemma repeated:
  "create_or_get lookup same ins race row d = Inr (r, d') \<Longrightarrow>
   create_or_get lookup same ins race' row d' = Inr (r, d')"
  using durable [of race d r d'] by (simp add: create_or_get_def)

lemma effect:
  "create_or_get lookup same ins race row d = Inr (r, d') \<Longrightarrow>
   d' = d \<or> d' = race d \<or> (lookup d = None \<and> r = row \<and> ins row (race d) = Inr d')"
  by (auto simp: create_or_get_def split: option.splits sum.splits if_splits)

lemma conflicting:
  "lookup d = Some r \<Longrightarrow> \<not> same r \<Longrightarrow>
   create_or_get lookup same ins race row d = Inl UserBudgetConflictError"
  by (simp add: create_or_get_def)

end

lemma find_fresh_key:
  "k r \<notin> k ` set rows \<Longrightarrow> List.find (\<lambda>x. k x = k r) (rows @ [r]) = Some r"
  by (induction rows) auto

interpretation binding: create_or_get_contract "\<lambda>d. get_task_binding d (bnd_task_id b)" "same_binding b" insert_binding b
  for b
  by unfold_locales
    (auto simp: insert_binding_def get_task_binding_def same_binding_def find_fresh_key [of bnd_task_id] split: if_splits)

interpretation receipt: create_or_get_contract "\<lambda>d. get_dual_accounting_receipt d (rcp_key v)" "same_receipt v" insert_receipt v
  for v
  by unfold_locales
    (auto simp: insert_receipt_def get_dual_accounting_receipt_def same_receipt_def find_fresh_key [of rcp_key] split: if_splits)

interpretation account: create_or_get_contract "\<lambda>d. get_account d owner" "\<lambda>_. True" insert_account "new_account owner"
  for owner
proof
  fix d d' assume "insert_account (new_account owner) d = Inr d'"
  then show "get_account d' owner = Some (new_account owner)"
    using find_fresh_key [of acc_owner_user_id "new_account owner" "accounts d"]
    by (auto simp: insert_account_def get_account_def new_account_def split: if_splits)
qed simp

interpretation usage: create_or_get_contract "\<lambda>d. get_tool_usage d owner epoch cap" "\<lambda>_. True" insert_tool_usage
    "new_tool_usage owner epoch cap"
  for owner epoch cap
proof
  fix d d' assume "insert_tool_usage (new_tool_usage owner epoch cap) d = Inr d'"
  then show "get_tool_usage d' owner epoch cap = Some (new_tool_usage owner epoch cap)"
    using find_fresh_key [of tu_key "new_tool_usage owner epoch cap" "tool_usage d"]
    by (auto simp: insert_tool_usage_def get_tool_usage_def new_tool_usage_def tu_key_def split: if_splits)
qed simp

interpretation reservation: create_or_get_contract
    "\<lambda>d. get_reservation d (res_owner_user_id r) (res_idempotency_key r)"
    "\<lambda>x. res_payload_fingerprint x = res_payload_fingerprint r" insert_reservation r
  for r
proof
  fix d d' assume "insert_reservation r d = Inr d'"
  then show "get_reservation d' (res_owner_user_id r) (res_idempotency_key r) = Some r"
    using find_fresh_key [of res_key r "reservations d"]
    by (auto simp: insert_reservation_def get_reservation_def res_key_def split: if_splits)
qed simp

interpretation policy: create_or_get_contract "policy_identity p" "same_policy p" insert_policy p
  for p
proof
  fix d d' assume ins: "insert_policy p d = Inr d'"
  then have "pol_policy_id p \<notin> pol_policy_id ` set (policies d)" "policies d' = policies d @ [p]"
    by (auto simp: insert_policy_def split: if_splits)
  then have "get_policy d' (pol_owner_user_id p) (pol_policy_id p) = Some p"
    by (auto simp: get_policy_def find_append image_iff split: option.splits dest!: find_SomeD)
  then show "policy_identity p d' = Some p" by (simp add: policy_identity_def)
qed (simp add: same_policy_def)

section \<open>Compare-and-swap\<close>

interpretation window_cas: cas_store "\<lambda>d. distinct (map win_key (windows d))" "\<lambda>d (owner, epoch). get_window d owner epoch"
    win_revision "\<lambda>(owner, epoch) v vs d. mutate_window_usage owner epoch v vs d"
proof (unfold_locales, goal_cases)
  case (1 d k v vs w' d')
  obtain owner epoch where k: "k = (owner, epoch)" by (cases k)
  from 1 k have "mutate_window_usage owner epoch v vs d = Inr (w', d')" by simp
  then show ?case using 1(1)
  proof (rule mutate_window_usageE)
    fix w assume "w \<in> set (windows d)" "win_key w = (owner, epoch)" "win_revision w = v"
      "w' = (set_counters vs w)\<lparr>win_revision := v + 1\<rparr>" "d' = d\<lparr>windows := replace_row win_key w' (windows d)\<rparr>"
    then show ?case using 1(1) k find_key [of win_key "windows d" w] find_replace_row [of w "windows d" win_key w']
      by (simp add: get_window_def)
  qed
next
  case (2 d k v vs w' d' k')
  obtain owner epoch where k: "k = (owner, epoch)" by (cases k)
  from 2 k have "mutate_window_usage owner epoch v vs d = Inr (w', d')" by simp
  then show ?case using 2(1)
  proof (rule mutate_window_usageE)
    fix w assume "w \<in> set (windows d)" "win_key w = (owner, epoch)" "win_revision w = v"
      "w' = (set_counters vs w)\<lparr>win_revision := v + 1\<rparr>" "d' = d\<lparr>windows := replace_row win_key w' (windows d)\<rparr>"
    then show ?case using 2 k find_replace_row [of w "windows d" win_key w' k']
      by (cases k') (auto simp: get_window_def)
  qed
qed

interpretation tool_cas: cas_store "\<lambda>d. distinct (map tu_key (tool_usage d))"
    "\<lambda>d (owner, epoch, cap). get_tool_usage d owner epoch cap" tu_revision
    "\<lambda>(owner, epoch, cap) v (used, reserved) d. mutate_tool_usage owner epoch cap v used reserved d"
proof (unfold_locales, goal_cases)
  case (1 d k v vs u' d')
  obtain owner epoch cap used reserved where k: "k = (owner, epoch, cap)" "vs = (used, reserved)"
    by (cases k; cases vs) auto
  from 1 k have "mutate_tool_usage owner epoch cap v used reserved d = Inr (u', d')" by simp
  then show ?case using 1(1)
  proof (rule mutate_tool_usageE)
    fix u assume u: "u \<in> set (tool_usage d)" "tu_key u = (owner, epoch, cap)" "tu_revision u = v"
      "u' = u\<lparr>tu_used_calls := used, tu_reserved_calls := reserved, tu_revision := v + 1\<rparr>"
      "d' = d\<lparr>tool_usage := replace_row tu_key u' (tool_usage d)\<rparr>"
    then have "tu_key u' = tu_key u" by (simp add: tu_key_def)
    with u show ?case using 1(1) k find_key [of tu_key "tool_usage d" u] find_replace_row [of u "tool_usage d" tu_key u']
      by (simp add: get_tool_usage_def)
  qed
next
  case (2 d k v vs u' d' k')
  obtain owner epoch cap used reserved where k: "k = (owner, epoch, cap)" "vs = (used, reserved)"
    by (cases k; cases vs) auto
  from 2 k have "mutate_tool_usage owner epoch cap v used reserved d = Inr (u', d')" by simp
  then show ?case using 2(1)
  proof (rule mutate_tool_usageE)
    fix u assume u: "u \<in> set (tool_usage d)" "tu_key u = (owner, epoch, cap)" "tu_revision u = v"
      "u' = u\<lparr>tu_used_calls := used, tu_reserved_calls := reserved, tu_revision := v + 1\<rparr>"
      "d' = d\<lparr>tool_usage := replace_row tu_key u' (tool_usage d)\<rparr>"
    then have "tu_key u' = tu_key u" by (simp add: tu_key_def)
    with u show ?case using 2 k find_replace_row [of u "tool_usage d" tu_key u' k']
      by (cases k') (auto simp: get_tool_usage_def)
  qed
qed

interpretation account_cas: cas_store "\<lambda>d. distinct (map acc_owner_user_id (accounts d))" get_account acc_revision
    select_next_policy
proof (unfold_locales, goal_cases)
  case (1 d owner v pid a' d')
  then show ?case
  proof (rule_tac select_next_policyE)
    fix a assume "a \<in> set (accounts d)" "acc_owner_user_id a = owner" "acc_revision a = v"
      "a' = a\<lparr>acc_next_policy_id := Some pid, acc_revision := v + 1\<rparr>"
      "d' = d\<lparr>accounts := replace_row acc_owner_user_id a' (accounts d)\<rparr>"
    then show ?case using 1(1) find_key [of acc_owner_user_id "accounts d" a]
        find_replace_row [of a "accounts d" acc_owner_user_id a'] by (simp add: get_account_def)
  qed
next
  case (2 d owner v pid a' d' owner')
  then show ?case
  proof (rule_tac select_next_policyE)
    fix a assume "a \<in> set (accounts d)" "acc_owner_user_id a = owner" "acc_revision a = v"
      "a' = a\<lparr>acc_next_policy_id := Some pid, acc_revision := v + 1\<rparr>"
      "d' = d\<lparr>accounts := replace_row acc_owner_user_id a' (accounts d)\<rparr>"
    then show ?case using 2 find_replace_row [of a "accounts d" acc_owner_user_id a' owner']
      by (simp add: get_account_def)
  qed
qed

end
