(* ===== verification/Budget_Invariant.thy ===== *)
theory Budget_Invariant
  imports Budget_Repository
begin

text \<open>
  The invariant of the budget tables and its preservation by the repository. \<open>ledger\<close> is the
  abstract account of a window: what its reservations add up to. The invariant says that the
  counters stored in a window and in the per-capability rows are exactly these sums, that every
  owner has at most one ACTIVE window and the account points at it, and that keys, references and
  CHECK constraints hold. A charge that inserts or transitions reservations and shifts the counters
  by the same amounts keeps the invariant (\<open>budget_inv_charge\<close>), which is how the services use
  it.
\<close>

section \<open>The ledger\<close>

fun counter_kind :: "window_counter \<Rightarrow> resource_kind" where
  "counter_kind compute_used_atomic = COMPUTE_UNIT"
| "counter_kind compute_reserved_atomic = COMPUTE_UNIT"
| "counter_kind inference_used = INFERENCE_CALL"
| "counter_kind inference_reserved = INFERENCE_CALL"
| "counter_kind input_tokens_used = INPUT_TOKEN"
| "counter_kind output_tokens_used = OUTPUT_TOKEN"
| "counter_kind total_tokens_used = TOTAL_TOKEN"
| "counter_kind tokens_reserved = TOTAL_TOKEN"
| "counter_kind tool_calls_used = TOOL_CALL"
| "counter_kind tool_calls_reserved = TOOL_CALL"
| "counter_kind cost_used_atomic = COST_USD"
| "counter_kind cost_reserved_atomic = COST_USD"

definition counts_reserved :: "window_counter \<Rightarrow> bool" where
  "counts_reserved c \<longleftrightarrow>
     c \<in> {compute_reserved_atomic, inference_reserved, tokens_reserved, tool_calls_reserved, cost_reserved_atomic}"

definition contrib :: "window_counter \<Rightarrow> reservation_row \<Rightarrow> int" where
  "contrib c r =
     (if res_resource_kind r \<noteq> counter_kind c then 0
      else if counts_reserved c then (if res_state r = RESERVED then res_reserved_amount_atomic r else 0)
      else if res_state r = SETTLED
           then (case res_settled_amount_atomic r of None \<Rightarrow> 0 | Some a \<Rightarrow> a) else 0)"

definition res_win :: "reservation_row \<Rightarrow> string \<times> int" where
  "res_win r = (res_owner_user_id r, res_window_epoch r)"

definition res_tool :: "reservation_row \<Rightarrow> string \<times> int \<times> string option" where
  "res_tool r = (res_owner_user_id r, res_window_epoch r, res_capability_id r)"

definition ledger :: "window_counter \<Rightarrow> reservation_row list \<Rightarrow> string \<times> int \<Rightarrow> int" where
  "ledger c rs k = sum_where (\<lambda>r. res_win r = k) (contrib c) rs"

definition tool_ledger :: "window_counter \<Rightarrow> reservation_row list \<Rightarrow> string \<times> int \<times> string option \<Rightarrow> int" where
  "tool_ledger c rs k = sum_where (\<lambda>r. res_tool r = k) (contrib c) rs"

definition tu_win :: "tool_usage_row \<Rightarrow> string \<times> int" where
  "tu_win u = (tu_owner_user_id u, tu_window_epoch u)"

definition tu_tool :: "tool_usage_row \<Rightarrow> string \<times> int \<times> string option" where
  "tu_tool u = (tu_owner_user_id u, tu_window_epoch u, Some (tu_capability_id u))"

section \<open>The invariant\<close>

definition wf_policies :: "db \<Rightarrow> bool" where
  "wf_policies d \<longleftrightarrow> distinct (map pol_policy_id (policies d)) \<and> list_all policy_row_ok (policies d)"

definition wf_windows :: "db \<Rightarrow> bool" where
  "wf_windows d \<longleftrightarrow>
     distinct (map win_key (windows d)) \<and> distinct (active_owners (windows d)) \<and>
     list_all window_row_ok (windows d) \<and>
     list_all (\<lambda>w. list_ex (exact_policy w) (policies d)) (windows d)"

definition owned_by :: "window_row \<Rightarrow> account_row \<Rightarrow> bool" where
  "owned_by w a \<longleftrightarrow>
     acc_owner_user_id a = win_owner_user_id w \<and> win_epoch w < acc_next_window_epoch a \<and>
     (win_state w = ACTIVE \<longrightarrow> acc_active_window_epoch a = Some (win_epoch w))"

definition wf_accounts :: "db \<Rightarrow> bool" where
  "wf_accounts d \<longleftrightarrow>
     distinct (map acc_owner_user_id (accounts d)) \<and> list_all account_row_ok (accounts d) \<and>
     list_all (account_refs_ok d) (accounts d) \<and>
     list_all (\<lambda>w. list_ex (owned_by w) (accounts d)) (windows d)"

definition wf_tool_usage :: "db \<Rightarrow> bool" where
  "wf_tool_usage d \<longleftrightarrow>
     distinct (map tu_key (tool_usage d)) \<and> list_all tool_usage_row_ok (tool_usage d) \<and>
     list_all (\<lambda>u. tu_win u \<in> win_key ` set (windows d)) (tool_usage d)"

definition wf_reservations :: "db \<Rightarrow> bool" where
  "wf_reservations d \<longleftrightarrow>
     distinct (map res_key (reservations d)) \<and> distinct (map res_reservation_id (reservations d)) \<and>
     list_all reservation_row_ok (reservations d) \<and>
     list_all (\<lambda>r. res_win r \<in> win_key ` set (windows d)) (reservations d)"

definition tool_rows_exist :: "db \<Rightarrow> bool" where
  "tool_rows_exist d \<longleftrightarrow>
     list_all (\<lambda>r. res_resource_kind r = TOOL_CALL \<longrightarrow> res_tool r \<in> tu_tool ` set (tool_usage d)) (reservations d)"

definition counters_ok :: "db \<Rightarrow> bool" where
  "counters_ok d \<longleftrightarrow>
     list_all (\<lambda>w. list_all (\<lambda>c. counter c w = ledger c (reservations d) (win_key w)) all_counters) (windows d)"

definition tool_counters_ok :: "db \<Rightarrow> bool" where
  "tool_counters_ok d \<longleftrightarrow>
     list_all (\<lambda>u. tu_used_calls u = tool_ledger tool_calls_used (reservations d) (tu_tool u) \<and>
                   tu_reserved_calls u = tool_ledger tool_calls_reserved (reservations d) (tu_tool u)) (tool_usage d)"

text \<open>A reservation made by dual accounting comes with its receipt.\<close>

definition mirrored_ok :: "db \<Rightarrow> bool" where
  "mirrored_ok d \<longleftrightarrow>
     list_all (\<lambda>r. take 8 (res_idempotency_key r) = ''ubq2:v1:'' \<longrightarrow>
       ''ubq2b:'' @ drop 8 (res_idempotency_key r) \<in> rcp_bridge_receipt_id ` set (receipts d)) (reservations d)"

definition budget_inv :: "db \<Rightarrow> bool" where
  "budget_inv d \<longleftrightarrow>
     wf_policies d \<and> wf_windows d \<and> wf_accounts d \<and> wf_tool_usage d \<and> wf_reservations d \<and>
     tool_rows_exist d \<and> counters_ok d \<and> tool_counters_ok d \<and> mirrored_ok d"

lemmas budget_inv_defs =
  budget_inv_def wf_policies_def wf_windows_def wf_accounts_def wf_tool_usage_def wf_reservations_def
  tool_rows_exist_def counters_ok_def tool_counters_ok_def mirrored_ok_def

section \<open>Contributions\<close>

lemma contrib_nonneg: "reservation_row_ok r \<Longrightarrow> 0 \<le> contrib c r"
  by (auto simp: contrib_def reservation_row_ok_def nat64_def split: option.splits if_splits)

section \<open>Shifting the ledger\<close>

text \<open>
  \<open>ledger_shift rs rs' K cap \<delta>\<close>: going from \<open>rs\<close> to \<open>rs'\<close> adds \<open>\<delta> c\<close> to counter
  \<open>c\<close> of window \<open>K\<close> and, for the tool counters, of the capability \<open>cap\<close>, and nothing else.
\<close>

definition ledger_shift :: "reservation_row list \<Rightarrow> reservation_row list \<Rightarrow> string \<times> int \<Rightarrow> string option \<Rightarrow>
    (window_counter \<Rightarrow> int) \<Rightarrow> bool" where
  "ledger_shift rs rs' K cap \<delta> \<longleftrightarrow>
     (\<forall>c k. ledger c rs' k = ledger c rs k + (if k = K then \<delta> c else 0)) \<and>
     (\<forall>c k. counter_kind c = TOOL_CALL \<longrightarrow>
        tool_ledger c rs' k = tool_ledger c rs k + (if k = (fst K, snd K, cap) then \<delta> c else 0))"

lemma ledger_shift_win:
  "ledger_shift rs rs' K cap \<delta> \<Longrightarrow> ledger c rs' k = ledger c rs k + (if k = K then \<delta> c else 0)"
  by (cases k) (simp only: ledger_shift_def)

lemma ledger_shift_tool:
  "ledger_shift rs rs' K cap \<delta> \<Longrightarrow> counter_kind c = TOOL_CALL \<Longrightarrow>
   tool_ledger c rs' k = tool_ledger c rs k + (if k = (fst K, snd K, cap) then \<delta> c else 0)"
  by (cases k) (simp only: ledger_shift_def)

lemma ledger_shift_refl: "ledger_shift rs rs K cap (\<lambda>_. 0)"
  by (simp add: ledger_shift_def)

lemma ledger_shift_trans:
  "ledger_shift rs rs1 K cap \<delta>1 \<Longrightarrow> ledger_shift rs1 rs2 K cap \<delta>2 \<Longrightarrow>
   ledger_shift rs rs2 K cap (\<lambda>c. \<delta>1 c + \<delta>2 c)"
  by (auto simp: ledger_shift_def)

lemma ledger_shift_insert:
  "ledger_shift rs (rs @ [r]) (res_win r) (res_capability_id r) (\<lambda>c. contrib c r)"
  by (auto simp: ledger_shift_def ledger_def tool_ledger_def res_win_def res_tool_def)

lemma ledger_shift_replace:
  assumes "distinct (map res_key rs)" "r \<in> set rs" "res_key r' = res_key r"
    and "res_win r' = res_win r" "res_capability_id r' = res_capability_id r"
  shows "ledger_shift rs (replace_row res_key r' rs) (res_win r) (res_capability_id r)
           (\<lambda>c. contrib c r' - contrib c r)"
proof -
  have "res_tool r' = res_tool r" using assms(4,5) by (simp add: res_tool_def res_win_def)
  then show ?thesis
    using sum_where_replace_row [OF assms(1-3)] assms(4)
    by (auto simp: ledger_shift_def ledger_def tool_ledger_def res_tool_def res_win_def)
qed

lemma ledger_shift_cong:
  "ledger_shift rs rs' K cap \<delta> \<Longrightarrow> (\<And>c. \<delta> c = \<delta>' c) \<Longrightarrow> ledger_shift rs rs' K cap \<delta>'"
  by (simp add: ledger_shift_def)

section \<open>The tables a charge leaves alone\<close>

definition win_ident :: "window_row \<Rightarrow> string \<times> int \<times> window_state \<times> string \<times> string \<times> string" where
  "win_ident w = (win_owner_user_id w, win_epoch w, win_state w, win_governing_policy_id w,
                  win_governing_policy_version w, win_governing_policy_fingerprint w)"

lemma active_owners_ident:
  "map win_ident ws = map win_ident ws' \<Longrightarrow> active_owners ws = active_owners ws'"
proof (induction ws arbitrary: ws')
  case Nil
  then show ?case by simp
next
  case (Cons w ws)
  then obtain w' ws'' where ws': "ws' = w' # ws''" by (cases ws') auto
  with Cons show ?case by (auto simp: active_owners_def win_ident_def)
qed

lemma set_ident: "map win_ident ws = map win_ident ws' \<Longrightarrow> w \<in> set ws \<Longrightarrow> \<exists>w' \<in> set ws'. win_ident w' = win_ident w"
  by (metis (no_types, lifting) image_iff list.set_map)

lemma win_ident_key: "win_ident w = win_ident w' \<Longrightarrow> win_key w = win_key w'"
  by (simp add: win_ident_def win_key_def)

lemma exact_policy_ident: "win_ident w = win_ident w' \<Longrightarrow> exact_policy w = exact_policy w'"
  by (auto simp: win_ident_def exact_policy_def)

lemma owned_by_ident: "win_ident w = win_ident w' \<Longrightarrow> owned_by w = owned_by w'"
  by (auto simp: win_ident_def owned_by_def)

lemma map_win_key_ident: "map win_ident ws = map win_ident ws' \<Longrightarrow> map win_key ws = map win_key ws'"
  by (auto simp: list_eq_iff_nth_eq win_ident_def win_key_def)

lemma account_refs_ok_ident:
  assumes "map win_ident (windows d) = map win_ident (windows d')" "policies d = policies d'"
  shows "account_refs_ok d = account_refs_ok d'"
proof
  fix a :: account_row
  have "list_ex (\<lambda>w. win_owner_user_id w = acc_owner_user_id a \<and> win_epoch w = e \<and> win_state w = ACTIVE) (windows d) =
        list_ex (\<lambda>w. win_owner_user_id w = acc_owner_user_id a \<and> win_epoch w = e \<and> win_state w = ACTIVE) (windows d')" for e
    using set_ident [OF assms(1)] set_ident [OF assms(1) [symmetric]]
    by (fastforce simp: list_ex_iff win_ident_def)
  then show "account_refs_ok d a = account_refs_ok d' a"
    by (simp add: account_refs_ok_def assms(2) split: option.splits)
qed

lemma wf_windows_ident:
  assumes "wf_windows d" "map win_ident (windows d') = map win_ident (windows d)"
    "policies d' = policies d" "list_all window_row_ok (windows d')"
  shows "wf_windows d'"
  using assms map_win_key_ident [OF assms(2)] active_owners_ident [OF assms(2)] set_ident [OF assms(2)]
  by (fastforce simp: wf_windows_def list_all_iff dest: exact_policy_ident)

lemma wf_accounts_ident:
  assumes "wf_accounts d" "map win_ident (windows d') = map win_ident (windows d)"
    "policies d' = policies d" "accounts d' = accounts d"
  shows "wf_accounts d'"
  using assms account_refs_ok_ident [OF assms(2,3)] set_ident [OF assms(2)]
  by (fastforce simp: wf_accounts_def list_all_iff dest: owned_by_ident)

section \<open>Charges keep the invariant\<close>

text \<open>
  \<open>charged d d' w w' cap \<delta>\<close>: \<open>d'\<close> is \<open>d\<close> with reservations inserted or moved so that the
  ledger of window \<open>w\<close> shifts by \<open>\<delta>\<close>, and with the stored counters shifted to match.
\<close>

definition tool_row_shift :: "db \<Rightarrow> db \<Rightarrow> window_row \<Rightarrow> string option \<Rightarrow> (window_counter \<Rightarrow> int) \<Rightarrow> bool" where
  "tool_row_shift d d' w cap \<delta> \<longleftrightarrow>
     (case cap of
        None \<Rightarrow> tool_usage d' = tool_usage d \<and> \<delta> tool_calls_used = 0 \<and> \<delta> tool_calls_reserved = 0
      | Some c \<Rightarrow> (\<exists>u u'. u \<in> set (tool_usage d) \<and> tu_key u = (win_owner_user_id w, win_epoch w, c) \<and>
                    tu_key u' = tu_key u \<and> tool_usage_row_ok u' \<and>
                    tu_used_calls u' = tu_used_calls u + \<delta> tool_calls_used \<and>
                    tu_reserved_calls u' = tu_reserved_calls u + \<delta> tool_calls_reserved \<and>
                    tool_usage d' = replace_row tu_key u' (tool_usage d)))"

definition charged :: "db \<Rightarrow> db \<Rightarrow> window_row \<Rightarrow> window_row \<Rightarrow> string option \<Rightarrow> (window_counter \<Rightarrow> int) \<Rightarrow> bool" where
  "charged d d' w w' cap \<delta> \<longleftrightarrow>
     policies d' = policies d \<and> accounts d' = accounts d \<and>
     w \<in> set (windows d) \<and> win_ident w' = win_ident w \<and> window_row_ok w' \<and>
     (\<forall>c. counter c w' = counter c w + \<delta> c) \<and>
     windows d' = replace_row win_key w' (windows d) \<and>
     ledger_shift (reservations d) (reservations d') (win_key w) cap \<delta> \<and>
     tool_row_shift d d' w cap \<delta>"

lemma charged_shift: "charged d d' w w' cap \<delta> \<Longrightarrow> ledger_shift (reservations d) (reservations d') (win_key w) cap \<delta>"
  by (simp add: charged_def)

lemma charged_ident:
  assumes "charged d d' w w' cap \<delta>" "distinct (map win_key (windows d))"
  shows "map win_ident (windows d') = map win_ident (windows d)"
proof -
  have "win_ident x = win_ident w'" if "x \<in> set (windows d)" "win_key x = win_key w'" for x
    using that assms distinct_key_eq [OF assms(2) that(1), of w] win_ident_key [of w' w]
    by (simp add: charged_def)
  with assms(1) show ?thesis by (simp add: charged_def map_replace_row)
qed

lemma charged_counters:
  assumes "counters_ok d" "charged d d' w w' cap \<delta>"
  shows "counters_ok d'"
proof -
  note shift = ledger_shift_win [OF charged_shift [OF assms(2)]]
  have "counter c x = ledger c (reservations d') (win_key x)" if "x \<in> set (windows d')" for x c
  proof -
    from that assms(2) consider "x = w'" | "x \<in> set (windows d)" "win_key x \<noteq> win_key w'"
      by (auto simp: charged_def dest: in_replace_row)
    then show ?thesis
      using assms win_ident_key [of w' w]
      by cases (simp_all add: shift charged_def counters_ok_def list_all_iff)
  qed
  then show ?thesis by (simp add: counters_ok_def list_all_iff)
qed

lemma tu_tool_key: "tu_tool u = tu_tool u' \<longleftrightarrow> tu_key u = tu_key u'"
  by (auto simp: tu_tool_def tu_key_def)

lemma charged_tool_keys:
  assumes "charged d d' w w' cap \<delta>"
  shows "map tu_key (tool_usage d') = map tu_key (tool_usage d)" "tu_tool ` set (tool_usage d') = tu_tool ` set (tool_usage d)"
proof -
  show keys: "map tu_key (tool_usage d') = map tu_key (tool_usage d)"
    using assms by (auto simp: charged_def tool_row_shift_def split: option.splits)
  have "map tu_tool us = map (\<lambda>(ow, e, c). (ow, e, Some c)) (map tu_key us)" for us
    by (simp add: tu_tool_def tu_key_def)
  with keys have "map tu_tool (tool_usage d') = map tu_tool (tool_usage d)" by metis
  then show "tu_tool ` set (tool_usage d') = tu_tool ` set (tool_usage d)" by (metis list.set_map)
qed

lemma charged_tool_wins:
  assumes "charged d d' w w' cap \<delta>"
  shows "tu_win ` set (tool_usage d') = tu_win ` set (tool_usage d)"
proof -
  have "map tu_win us = map (\<lambda>(ow, e, c). (ow, e)) (map tu_key us)" for us
    by (simp add: tu_win_def tu_key_def)
  with charged_tool_keys(1) [OF assms] have "map tu_win (tool_usage d') = map tu_win (tool_usage d)" by metis
  then show ?thesis by (metis list.set_map)
qed

lemma charged_tool_counters:
  assumes "tool_counters_ok d" "charged d d' w w' cap \<delta>"
  shows "tool_counters_ok d'"
proof -
  let ?ok = "\<lambda>d u. tu_used_calls u = tool_ledger tool_calls_used (reservations d) (tu_tool u) \<and>
                   tu_reserved_calls u = tool_ledger tool_calls_reserved (reservations d) (tu_tool u)"
  note shift = ledger_shift_tool [OF charged_shift [OF assms(2)]]
  have key: "win_key w = (win_owner_user_id w, win_epoch w)" by (simp add: win_key_def)
  have "?ok d' x" if x: "x \<in> set (tool_usage d')" for x
  proof (cases cap)
    case None
    with assms x have "?ok d x" "tu_tool x \<noteq> (fst (win_key w), snd (win_key w), cap)"
      by (auto simp: charged_def tool_row_shift_def tool_counters_ok_def list_all_iff tu_tool_def)
    then show ?thesis by (simp add: shift)
  next
    case (Some c)
    with assms(2) obtain u u' where u: "u \<in> set (tool_usage d)" "tu_key u = (win_owner_user_id w, win_epoch w, c)"
      "tu_key u' = tu_key u" "tu_used_calls u' = tu_used_calls u + \<delta> tool_calls_used"
      "tu_reserved_calls u' = tu_reserved_calls u + \<delta> tool_calls_reserved"
      "tool_usage d' = replace_row tu_key u' (tool_usage d)"
      by (auto simp: charged_def tool_row_shift_def)
    then have tool: "tu_tool u = (fst (win_key w), snd (win_key w), cap)" "tu_tool u' = tu_tool u"
      using Some by (auto simp: tu_tool_def tu_key_def key)
    from x u(6) consider "x = u'" | "x \<in> set (tool_usage d)" "tu_key x \<noteq> tu_key u'"
      by (auto dest: in_replace_row)
    then show ?thesis
    proof cases
      case 1
      with assms(1) u tool show ?thesis
        by (simp add: shift tool_counters_ok_def list_all_iff)
    next
      case 2
      then have "tu_tool x \<noteq> (fst (win_key w), snd (win_key w), cap)" using tool u(3) tu_tool_key by metis
      with 2 assms(1) show ?thesis
        by (simp add: shift tool_counters_ok_def list_all_iff)
    qed
  qed
  then show ?thesis by (simp add: tool_counters_ok_def list_all_iff)
qed

definition res_table_ok :: "db \<Rightarrow> reservation_row list \<Rightarrow> bool" where
  "res_table_ok d rs \<longleftrightarrow>
     distinct (map res_key rs) \<and> distinct (map res_reservation_id rs) \<and> list_all reservation_row_ok rs \<and>
     list_all (\<lambda>r. res_win r \<in> win_key ` set (windows d)) rs \<and>
     list_all (\<lambda>r. res_resource_kind r = TOOL_CALL \<longrightarrow> res_tool r \<in> tu_tool ` set (tool_usage d)) rs"

lemma budget_inv_res_table: "budget_inv d \<Longrightarrow> res_table_ok d (reservations d)"
  by (simp add: budget_inv_def wf_reservations_def tool_rows_exist_def res_table_ok_def)

lemma insert_reservation_Inr:
  "insert_reservation r d = Inr d' \<longleftrightarrow>
     reservation_row_ok r \<and> res_win r \<in> win_key ` set (windows d) \<and>
     res_reservation_id r \<notin> res_reservation_id ` set (reservations d) \<and>
     res_key r \<notin> res_key ` set (reservations d) \<and> d' = d\<lparr>reservations := reservations d @ [r]\<rparr>"
  by (auto simp: insert_reservation_def res_win_def split: if_splits)

lemma res_table_insert:
  "insert_reservation r d = Inr d' \<Longrightarrow> res_table_ok d (reservations d) \<Longrightarrow>
   (res_resource_kind r = TOOL_CALL \<Longrightarrow> res_tool r \<in> tu_tool ` set (tool_usage d)) \<Longrightarrow>
   res_table_ok d (reservations d @ [r])"
  by (auto simp: insert_reservation_Inr res_table_ok_def)

lemma res_table_replace:
  assumes "res_table_ok d rs" "r \<in> set rs" "reservation_row_ok r'" "res_key r' = res_key r" "res_tool r' = res_tool r"
    "res_reservation_id r' = res_reservation_id r" "res_resource_kind r' = res_resource_kind r"
  shows "res_table_ok d (replace_row res_key r' rs)"
proof -
  from assms have dist: "distinct (map res_key rs)" by (simp add: res_table_ok_def)
  have same: "g x = g r'" if "x \<in> set rs" "res_key x = res_key r'" "g r' = g r" for x and g :: "reservation_row \<Rightarrow> 'b"
    using distinct_key_eq [OF dist that(1) assms(2)] that assms(4) by simp
  have "map res_reservation_id (replace_row res_key r' rs) = map res_reservation_id rs"
    by (rule map_replace_row) (use same [of _ res_reservation_id] assms(6) in auto)
  moreover have "res_win r' = res_win r" using assms(5) by (simp add: res_tool_def res_win_def)
  ultimately show ?thesis
    using assms by (auto simp: res_table_ok_def list_all_iff dest!: in_replace_row)
qed

theorem budget_inv_charge:
  assumes inv: "budget_inv d" and ch: "charged d d' w w' cap \<delta>"
    and res: "res_table_ok d (reservations d')" and mir: "mirrored_ok d'"
  shows "budget_inv d'"
proof -
  from inv have keys: "distinct (map win_key (windows d))" by (simp add: budget_inv_def wf_windows_def)
  note ident = charged_ident [OF ch keys]
  have same: "policies d' = policies d" "accounts d' = accounts d" and wins: "windows d' = replace_row win_key w' (windows d)"
    and ok: "window_row_ok w'"
    using ch by (auto simp: charged_def)
  have "wf_windows d'"
    by (rule wf_windows_ident [OF _ ident same(1)])
      (use inv ok in \<open>auto simp: wins budget_inv_def wf_windows_def intro: list_all_replace_row\<close>)
  moreover have "wf_accounts d'"
    by (rule wf_accounts_ident [OF _ ident same]) (use inv in \<open>simp add: budget_inv_def\<close>)
  moreover have "wf_tool_usage d'"
  proof -
    have "list_all tool_usage_row_ok (tool_usage d')"
      using inv ch by (auto simp: budget_inv_def wf_tool_usage_def charged_def tool_row_shift_def
          intro!: list_all_replace_row split: option.splits)
    moreover have "\<forall>k \<in> tu_win ` set (tool_usage d). k \<in> win_key ` set (windows d)"
      using inv by (simp add: budget_inv_def wf_tool_usage_def list_all_iff)
    ultimately show ?thesis
      using inv charged_tool_keys(1) [OF ch]
      unfolding charged_tool_wins [OF ch, symmetric]
      by (simp add: wf_tool_usage_def budget_inv_def list_all_iff wins)
  qed
  moreover have "wf_reservations d'"
    using res map_win_key_ident [OF ident] by (simp add: res_table_ok_def wf_reservations_def wins)
  moreover have "tool_rows_exist d'"
    using res charged_tool_keys(2) [OF ch] by (simp add: res_table_ok_def tool_rows_exist_def)
  ultimately show ?thesis
    using inv mir same charged_counters [OF _ ch] charged_tool_counters [OF _ ch]
    by (simp add: budget_inv_def wf_policies_def)
qed

section \<open>Creating rows keeps the invariant\<close>

lemma list_ex_append_mono: "list_ex P xs \<Longrightarrow> list_ex P (xs @ ys)"
  by simp

lemma insert_policy_inv:
  assumes "budget_inv d" "insert_policy p d = Inr d'"
  shows "budget_inv d'"
proof -
  from assms(2) have d': "d' = d\<lparr>policies := policies d @ [p]\<rparr>" and "policy_row_ok p"
    "pol_policy_id p \<notin> pol_policy_id ` set (policies d)"
    by (auto simp: insert_policy_def split: if_splits)
  moreover have "account_refs_ok d a \<Longrightarrow> account_refs_ok d' a" for a
    using d' by (auto simp: account_refs_ok_def split: option.splits)
  ultimately show ?thesis
    using assms(1) by (auto simp: budget_inv_defs list_all_iff)
qed

lemma insert_account_inv:
  assumes "budget_inv d" "insert_account (new_account owner) d = Inr d'"
  shows "budget_inv d'"
proof -
  from assms(2) have d': "d' = d\<lparr>accounts := accounts d @ [new_account owner]\<rparr>"
    and new: "account_row_ok (new_account owner)" "account_refs_ok d (new_account owner)"
      "acc_owner_user_id (new_account owner) \<notin> acc_owner_user_id ` set (accounts d)"
    by (auto simp: insert_account_def split: if_splits)
  moreover have "account_refs_ok d' = account_refs_ok d"
    using d' by (intro account_refs_ok_ident) simp_all
  ultimately show ?thesis
    using assms(1) by (auto simp: budget_inv_defs list_all_iff)
qed

lemma insert_binding_inv:
  assumes "budget_inv d" "insert_binding b d = Inr d'"
  shows "budget_inv d'"
proof -
  from assms(2) have d': "d' = d\<lparr>bindings := bindings d @ [b]\<rparr>"
    by (auto simp: insert_binding_def split: if_splits)
  then have "account_refs_ok d' = account_refs_ok d" by (intro account_refs_ok_ident) simp_all
  with d' assms(1) show ?thesis by (simp add: budget_inv_defs)
qed

lemma insert_receipt_inv:
  assumes "budget_inv d" "insert_receipt b d = Inr d'"
  shows "budget_inv d'"
proof -
  from assms(2) have d': "d' = d\<lparr>receipts := receipts d @ [b]\<rparr>"
    by (auto simp: insert_receipt_def split: if_splits)
  then have "account_refs_ok d' = account_refs_ok d" by (intro account_refs_ok_ident) simp_all
  with d' assms(1) show ?thesis by (auto simp: budget_inv_defs list_all_iff)
qed

lemma tool_ledger_fresh:
  assumes "budget_inv d" "(owner, epoch, cap) \<notin> tu_key ` set (tool_usage d)"
  shows "tool_ledger c (reservations d) (owner, epoch, Some cap) = 0"
proof -
  have "res_tool r \<noteq> (owner, epoch, Some cap)" if "r \<in> set (reservations d)" for r
  proof
    assume tool: "res_tool r = (owner, epoch, Some cap)"
    with that assms(1) have "res_resource_kind r = TOOL_CALL"
      by (auto simp: budget_inv_def wf_reservations_def list_all_iff reservation_row_ok_def res_tool_def)
    with that assms(1) have "res_tool r \<in> tu_tool ` set (tool_usage d)"
      by (simp add: budget_inv_def tool_rows_exist_def list_all_iff)
    with tool have "(owner, epoch, Some cap) \<in> tu_tool ` set (tool_usage d)" by simp
    with assms(2) show False by (auto simp: tu_tool_def tu_key_def image_iff)
  qed
  then show ?thesis by (simp add: tool_ledger_def sum_where_zero)
qed

lemma insert_tool_usage_inv:
  assumes "budget_inv d" "insert_tool_usage (new_tool_usage owner epoch cap) d = Inr d'"
  shows "budget_inv d'"
proof -
  let ?u = "new_tool_usage owner epoch cap"
  from assms(2) have d': "d' = d\<lparr>tool_usage := tool_usage d @ [?u]\<rparr>" and "tool_usage_row_ok ?u"
    and fresh: "tu_key ?u \<notin> tu_key ` set (tool_usage d)" and "tu_win ?u \<in> win_key ` set (windows d)"
    by (auto simp: insert_tool_usage_def tu_win_def split: if_splits)
  moreover have "account_refs_ok d' = account_refs_ok d" using d' by (intro account_refs_ok_ident) simp_all
  moreover have "tool_ledger c (reservations d) (tu_tool ?u) = 0" for c
    using tool_ledger_fresh [OF assms(1), of owner epoch cap c] fresh by (simp add: new_tool_usage_def tu_key_def tu_tool_def)
  ultimately show ?thesis
    using assms(1) by (auto simp: budget_inv_defs list_all_iff new_tool_usage_def)
qed

text \<open>Every create-or-get method preserves the invariant when the race it may lose does.\<close>

lemma create_or_get_inv:
  assumes "create_or_get lookup same ins race row d = Inr (r, d')" "budget_inv d" "budget_inv (race d)"
    and "\<And>d d'. budget_inv d \<Longrightarrow> ins row d = Inr d' \<Longrightarrow> budget_inv d'"
  shows "budget_inv d'"
  using assms by (auto simp: create_or_get_def split: option.splits sum.splits if_splits)

lemma create_or_get_immutable_policy_inv:
  assumes "create_or_get_immutable_policy race p d = Inr (r, d')" "budget_inv d" "budget_inv (race d)"
  shows "budget_inv d'"
  using assms by (auto simp: create_or_get_immutable_policy_def intro: create_or_get_inv insert_policy_inv)

lemma create_or_get_account_inv:
  assumes "create_or_get_account race owner d = Inr (r, d')" "budget_inv d" "budget_inv (race d)"
  shows "budget_inv d'"
  using assms unfolding create_or_get_account_def by (rule create_or_get_inv) (rule insert_account_inv)

lemma create_task_binding_inv:
  assumes "create_task_binding race b d = Inr (r, d')" "budget_inv d" "budget_inv (race d)"
  shows "budget_inv d'"
  using assms unfolding create_task_binding_def by (rule create_or_get_inv) (rule insert_binding_inv)

lemma create_or_get_receipt_inv:
  assumes "create_or_get_dual_accounting_receipt race b d = Inr (r, d')" "budget_inv d" "budget_inv (race d)"
  shows "budget_inv d'"
  using assms unfolding create_or_get_dual_accounting_receipt_def
  by (rule create_or_get_inv) (rule insert_receipt_inv)

lemma create_or_get_tool_usage_inv:
  assumes "create_or_get_tool_usage race owner epoch cap d = Inr (r, d')" "budget_inv d" "budget_inv (race d)"
  shows "budget_inv d'"
  using assms by (auto simp: create_or_get_tool_usage_def intro: create_or_get_inv insert_tool_usage_inv)

lemma select_next_policy_inv:
  assumes "select_next_policy owner v pid d = Inr (a', d')" "budget_inv d"
  shows "budget_inv d'"
proof -
  from assms(2) have "distinct (map acc_owner_user_id (accounts d))" by (simp add: budget_inv_def wf_accounts_def)
  with assms(1) show ?thesis
  proof (rule select_next_policyE)
    fix a assume a: "a \<in> set (accounts d)" "a' = a\<lparr>acc_next_policy_id := Some pid, acc_revision := v + 1\<rparr>"
      and ok: "account_row_ok a'" "account_refs_ok d a'"
      and d': "d' = d\<lparr>accounts := replace_row acc_owner_user_id a' (accounts d)\<rparr>"
    have refs: "account_refs_ok d' = account_refs_ok d" using d' by (intro account_refs_ok_ident) simp_all
    have "list_ex (owned_by w) (accounts d')" if "w \<in> set (windows d)" for w
    proof -
      from that assms(2) obtain b where b: "b \<in> set (accounts d)" "owned_by w b"
        by (auto simp: budget_inv_def wf_accounts_def list_all_iff list_ex_iff)
      show ?thesis
      proof (cases "acc_owner_user_id b = acc_owner_user_id a'")
        case True
        with a b assms(2) have "b = a"
          by (auto simp: budget_inv_def wf_accounts_def dest: distinct_key_eq)
        with b a have "owned_by w a'" by (simp add: owned_by_def)
        moreover have "a' \<in> set (accounts d')" using a d' by (auto intro: replaced_in_row)
        ultimately show ?thesis by (auto simp: list_ex_iff)
      next
        case False
        with b d' show ?thesis by (auto simp: list_ex_iff replace_row_def set_upd_where image_iff)
      qed
    qed
    then have "wf_accounts d'"
      using assms(2) ok refs d' by (auto simp: budget_inv_def wf_accounts_def list_all_replace_row)
        (simp add: list_all_iff)
    then show ?thesis using assms(2) d' by (simp add: budget_inv_defs)
  qed
qed

section \<open>The active window\<close>

lemma filter_active:
  "distinct (active_owners ws) \<Longrightarrow>
   filter (\<lambda>w. win_owner_user_id w = owner \<and> win_state w = ACTIVE) ws =
     (case List.find (\<lambda>w. win_owner_user_id w = owner \<and> win_state w = ACTIVE) ws of None \<Rightarrow> [] | Some w \<Rightarrow> [w])"
proof (induction ws)
  case Nil
  then show ?case by simp
next
  case (Cons w ws)
  show ?case
  proof (cases "win_owner_user_id w = owner \<and> win_state w = ACTIVE")
    case True
    with Cons.prems have "filter (\<lambda>w. win_owner_user_id w = owner \<and> win_state w = ACTIVE) ws = []"
      by (auto simp: active_owners_def filter_empty_conv image_iff)
    with True show ?thesis by simp
  next
    case False
    with Cons show ?thesis by (auto simp: active_owners_def split: if_splits)
  qed
qed

definition active_window :: "db \<Rightarrow> string \<Rightarrow> window_row option" where
  "active_window d owner = List.find (\<lambda>w. win_owner_user_id w = owner \<and> win_state w = ACTIVE) (windows d)"

lemma active_window_SomeD:
  "active_window d owner = Some w \<Longrightarrow> w \<in> set (windows d) \<and> win_owner_user_id w = owner \<and> win_state w = ACTIVE"
  unfolding active_window_def by (drule find_SomeD) simp

lemma get_active_window_inv:
  assumes "budget_inv d"
  shows "get_active_window d owner = Inr (active_window d owner)"
proof -
  from assms have "distinct (active_owners (windows d))" by (simp add: budget_inv_def wf_windows_def)
  then have act: "active_windows d owner = (case active_window d owner of None \<Rightarrow> [] | Some w \<Rightarrow> [w])"
    by (simp add: active_windows_def active_window_def filter_active split: option.splits)
  show ?thesis
  proof (cases "active_window d owner")
    case (Some w)
    note w = active_window_SomeD [OF Some]
    with assms obtain a where a: "a \<in> set (accounts d)" "owned_by w a"
      by (auto simp: budget_inv_def wf_accounts_def list_all_iff list_ex_iff)
    with w have "acc_owner_user_id a = owner" by (simp add: owned_by_def)
    with a assms have "get_account d owner = Some a"
      using find_key [of acc_owner_user_id "accounts d" a]
      by (simp add: get_account_def budget_inv_def wf_accounts_def)
    with act Some a w show ?thesis by (simp add: get_active_window_def owned_by_def)
  next
    case None
    have "acc_active_window_epoch a = None" if "get_account d owner = Some a" for a
    proof (rule ccontr)
      assume "acc_active_window_epoch a \<noteq> None"
      moreover from get_account_SomeD [OF that] assms have "account_refs_ok d a" "acc_owner_user_id a = owner"
        by (auto simp: budget_inv_def wf_accounts_def list_all_iff)
      ultimately obtain w where "w \<in> set (windows d)" "win_owner_user_id w = owner \<and> win_state w = ACTIVE"
        by (auto simp: account_refs_ok_def list_ex_iff)
      with None show False unfolding active_window_def by (auto dest: find_NoneD)
    qed
    with act None show ?thesis by (auto simp: get_active_window_def split: option.splits)
  qed
qed

section \<open>Rollover keeps the invariant\<close>

lemma close_windowE:
  assumes "close_window w now d = Inr d'" "distinct (map win_key (windows d))" "w \<in> set (windows d)"
  obtains w' where "w' = w\<lparr>win_state := CLOSED, win_closed_at := Some now, win_revision := win_revision w + 1\<rparr>"
    "window_row_ok w'" "d' = d\<lparr>windows := replace_row win_key w' (windows d)\<rparr>" "win_state w = ACTIVE"
    "distinct (active_owners (windows d'))"
proof -
  let ?f = "\<lambda>x. x\<lparr>win_state := CLOSED, win_closed_at := Some now, win_revision := win_revision w + 1\<rparr>"
  let ?Q = "\<lambda>x. win_revision x = win_revision w \<and> win_state x = ACTIVE"
  from assms(1) have upd: "update_windows (\<lambda>x. win_key x = win_key w \<and> ?Q x) ?f d = Inr d'"
    and one: "length (filter (\<lambda>x. win_key x = win_key w \<and> ?Q x) (windows d)) = 1"
    by (auto simp: close_window_def Let_def)
  from filter_length_1 [OF one] obtain x where "x \<in> set (windows d)" "win_key x = win_key w" "?Q x"
    by auto
  with assms have Q: "?Q w" by (auto dest: distinct_key_eq)
  have "win_key (?f w) = win_key w" by (simp add: win_key_def)
  with Q have "upd_where (\<lambda>x. win_key x = win_key w \<and> ?Q x) ?f (windows d) = replace_row win_key (?f w) (windows d)"
    using assms by (intro upd_where_replace_row) auto
  with upd Q assms(3) show thesis by (intro that [of "?f w"]) (auto simp: update_windows_Inr)
qed

lemma advance_accountE:
  assumes "advance_account owner v epoch d = Inr d'" "distinct (map acc_owner_user_id (accounts d))"
  obtains a a' where "a \<in> set (accounts d)" "acc_owner_user_id a = owner" "acc_revision a = v" "acc_next_window_epoch a = epoch"
    "a' = a\<lparr>acc_active_window_epoch := Some epoch, acc_next_window_epoch := epoch + 1, acc_revision := v + 1\<rparr>"
    "account_row_ok a'" "account_refs_ok d a'" "d' = d\<lparr>accounts := replace_row acc_owner_user_id a' (accounts d)\<rparr>"
proof -
  let ?f = "\<lambda>a. a\<lparr>acc_active_window_epoch := Some epoch, acc_next_window_epoch := epoch + 1, acc_revision := v + 1\<rparr>"
  let ?Q = "\<lambda>a. acc_revision a = v \<and> acc_next_window_epoch a = epoch"
  from assms(1) have upd: "update_accounts (\<lambda>x. acc_owner_user_id x = owner \<and> ?Q x) ?f d = Inr d'"
    and one: "length (filter (\<lambda>x. acc_owner_user_id x = owner \<and> ?Q x) (accounts d)) = 1"
    by (auto simp: advance_account_def Let_def)
  from filter_length_1 [OF one] obtain a where a: "a \<in> set (accounts d)" "acc_owner_user_id a = owner" "?Q a"
    by auto
  then have "upd_where (\<lambda>x. acc_owner_user_id x = owner \<and> ?Q x) ?f (accounts d) = replace_row acc_owner_user_id (?f a) (accounts d)"
    using upd_where_replace_row [of acc_owner_user_id "accounts d" a ?Q ?f] assms(2) by simp
  with upd a show thesis by (intro that [of a "?f a"]) (auto simp: update_accounts_Inr)
qed

text \<open>
  Opening a window: the windows become \<open>ws @ [new]\<close>, where \<open>ws\<close> has the same rows except
  that the expired one is CLOSED, and the account moves to the new epoch.
\<close>

definition closed_or_same :: "string \<Rightarrow> window_row \<Rightarrow> window_row \<Rightarrow> bool" where
  "closed_or_same owner w w1 \<longleftrightarrow> w1 = w \<or>
     (win_owner_user_id w = owner \<and> win_key w1 = win_key w \<and> win_state w = ACTIVE \<and> win_state w1 = CLOSED \<and> window_row_ok w1 \<and>
      exact_policy w1 = exact_policy w \<and> (\<forall>c. counter c w1 = counter c w))"

definition closed_of :: "string \<Rightarrow> window_row list \<Rightarrow> window_row list \<Rightarrow> bool" where
  "closed_of owner ws ws1 \<longleftrightarrow> list_all2 (closed_or_same owner) ws ws1"

lemma closed_of_refl: "closed_of owner ws ws"
  by (simp add: closed_of_def closed_or_same_def list_all2_refl)

lemma closed_of_close:
  assumes "close_window w now d = Inr d1" "distinct (map win_key (windows d))" "w \<in> set (windows d)"
    "win_owner_user_id w = owner"
  shows "closed_of owner (windows d) (windows d1) \<and> d1 = d\<lparr>windows := windows d1\<rparr>"
  using assms(1-3)
proof (rule close_windowE)
  fix w' assume w': "w' = w\<lparr>win_state := CLOSED, win_closed_at := Some now, win_revision := win_revision w + 1\<rparr>"
    "window_row_ok w'" "d1 = d\<lparr>windows := replace_row win_key w' (windows d)\<rparr>" "win_state w = ACTIVE"
  have "counter c w' = counter c w" for c unfolding w'(1) by (cases c) simp_all
  with w' assms(4) have "closed_or_same owner w w'" by (simp add: closed_or_same_def win_key_def exact_policy_def fun_eq_iff)
  then have "closed_of owner (windows d) (replace_row win_key w' (windows d))"
    unfolding closed_of_def using assms w'(1)
    by (intro list_all2_replace_row [of _ _ w]) (auto simp: win_key_def closed_or_same_def)
  with w'(3) show ?thesis by simp
qed

lemma closed_of_member:
  assumes "closed_of owner ws ws1" "w1 \<in> set ws1"
  obtains w where "w \<in> set ws" "win_key w1 = win_key w" "exact_policy w1 = exact_policy w" "\<forall>c. counter c w1 = counter c w"
    "w1 = w \<or> (win_owner_user_id w = owner \<and> win_state w1 = CLOSED \<and> window_row_ok w1 \<and> win_state w = ACTIVE)"
proof -
  from assms obtain i where "i < length ws" "i < length ws1" "w1 = ws1 ! i"
    by (auto simp: closed_of_def in_set_conv_nth dest: list_all2_lengthD)
  with assms(1) have "closed_or_same owner (ws ! i) w1" by (auto simp: closed_of_def list_all2_conv_all_nth)
  with \<open>i < length ws\<close> show thesis
    by (intro that [of "ws ! i"]) (auto simp: closed_or_same_def)
qed

lemma closed_of_keys: "closed_of owner ws ws1 \<Longrightarrow> map win_key ws1 = map win_key ws"
  unfolding closed_of_def by (induction rule: list_all2_induct) (auto simp: closed_or_same_def)

lemma open_windowE:
  assumes "open_window owner v now account active d = Inr (w, d')" "budget_inv d"
    and "active = active_window d owner" "get_account d owner = Some account"
  obtains p expires d1 a' where
    "acc_revision account = v" "get_policy d owner (the (acc_next_policy_id account)) = Some p"
    "closed_of owner (windows d) (windows d1)" "d1 = d\<lparr>windows := windows d1\<rparr>"
    "add_seconds now (pol_window_duration_seconds p) = Inr expires"
    "insert_window (new_window owner (acc_next_window_epoch account) p now expires) d1 =
       Inr (d\<lparr>windows := windows d1 @ [new_window owner (acc_next_window_epoch account) p now expires]\<rparr>)"
    "a' = account\<lparr>acc_active_window_epoch := Some (acc_next_window_epoch account),
                   acc_next_window_epoch := acc_next_window_epoch account + 1, acc_revision := v + 1\<rparr>"
    "account_row_ok a'"
    "account_refs_ok (d\<lparr>windows := windows d1 @ [new_window owner (acc_next_window_epoch account) p now expires]\<rparr>) a'"
    "distinct (active_owners (windows d1))"
    "d' = d\<lparr>windows := windows d1 @ [new_window owner (acc_next_window_epoch account) p now expires],
            accounts := replace_row acc_owner_user_id a' (accounts d)\<rparr>"
    "get_active_window d' owner = Inr (Some w)" "win_epoch w = acc_next_window_epoch account"
proof -
  let ?e = "acc_next_window_epoch account"
  let ?nw = "\<lambda>p expires. new_window owner ?e p now expires"
  from assms(1) obtain pid p d1 expires d2 where v: "acc_revision account = v"
    and pid: "acc_next_policy_id account = Some pid" and p: "get_policy d owner pid = Some p"
    and close: "(case active of None \<Rightarrow> Inr d | Some x \<Rightarrow> close_window x now d) = Inr d1"
    and exp: "add_seconds now (pol_window_duration_seconds p) = Inr expires"
    and ins: "insert_window (?nw p expires) d1 = Inr d2"
    and adv: "advance_account owner v ?e d2 = Inr d'"
    and act: "get_active_window d' owner = Inr (Some w)" and ep: "win_epoch w = ?e"
    by (auto simp: open_window_def Let_def split: option.splits if_splits)
  from assms(2) have keys: "distinct (map win_key (windows d))" and actd: "distinct (active_owners (windows d))"
    and accs: "distinct (map acc_owner_user_id (accounts d))"
    by (auto simp: budget_inv_def wf_windows_def wf_accounts_def)
  have d1: "closed_of owner (windows d) (windows d1)" "d1 = d\<lparr>windows := windows d1\<rparr>" "distinct (active_owners (windows d1))"
  proof -
    have "closed_of owner (windows d) (windows d1) \<and> d1 = d\<lparr>windows := windows d1\<rparr> \<and> distinct (active_owners (windows d1))"
    proof (cases active)
      case None
      with close actd show ?thesis by (simp add: closed_of_refl)
    next
      case (Some x)
      with assms(3) active_window_SomeD have x: "x \<in> set (windows d)" "win_owner_user_id x = owner" by auto
      from close Some have cl: "close_window x now d = Inr d1" by simp
      from closed_of_close [OF cl keys x] close_windowE [OF cl keys x(1)] show ?thesis by metis
    qed
    then show "closed_of owner (windows d) (windows d1)" "d1 = d\<lparr>windows := windows d1\<rparr>" "distinct (active_owners (windows d1))"
      by auto
  qed
  from ins have d2: "d2 = d1\<lparr>windows := windows d1 @ [?nw p expires]\<rparr>"
    by (auto simp: insert_window_def split: if_splits)
  then have d2': "d2 = d\<lparr>windows := windows d1 @ [?nw p expires]\<rparr>" by (subst (asm) d1(2)) simp
  then have "accounts d2 = accounts d" by simp
  with accs have "distinct (map acc_owner_user_id (accounts d2))" by simp
  with adv show thesis
  proof (rule advance_accountE)
    fix a a' assume a: "a \<in> set (accounts d2)" "acc_owner_user_id a = owner"
      and a': "a' = a\<lparr>acc_active_window_epoch := Some ?e, acc_next_window_epoch := ?e + 1, acc_revision := v + 1\<rparr>"
        "account_row_ok a'" "account_refs_ok d2 a'"
      and d': "d' = d2\<lparr>accounts := replace_row acc_owner_user_id a' (accounts d2)\<rparr>"
    from a get_account_SomeD [OF assms(4)] d2' accs have "a = account" by (auto dest: distinct_key_eq)
    with a' d' d2' ins d1 show thesis
      by (intro that [OF v _ d1(1,2) exp _ _ _ _ d1(3) _ act ep, of a']) (simp_all add: pid p)
  qed
qed

lemma new_window_fields [simp]:
  "win_owner_user_id (new_window owner epoch p now expires) = owner"
  "win_epoch (new_window owner epoch p now expires) = epoch"
  "win_state (new_window owner epoch p now expires) = ACTIVE"
  "win_key (new_window owner epoch p now expires) = (owner, epoch)"
  by (simp_all add: new_window_def win_key_def)

lemma ledger_fresh_window:
  assumes "wf_reservations d" "k \<notin> win_key ` set (windows d)"
  shows "ledger c (reservations d) k = 0"
proof -
  have "res_win r \<noteq> k" if "r \<in> set (reservations d)" for r
    using assms that by (auto simp: wf_reservations_def list_all_iff)
  then show ?thesis by (simp add: ledger_def sum_where_zero)
qed

text \<open>The tables after a window was opened on top of closed ones, for a fresh key.\<close>

lemma closed_of_other:
  assumes "closed_of owner ws ws1" "w \<in> set ws" "win_owner_user_id w \<noteq> owner"
  shows "w \<in> set ws1"
proof -
  from assms(2) obtain i where i: "i < length ws" "w = ws ! i" by (auto simp: in_set_conv_nth)
  with assms have "closed_or_same owner w (ws1 ! i)" "i < length ws1"
    by (auto simp: closed_of_def list_all2_conv_all_nth)
  with assms(3) have "ws1 ! i = w" by (simp add: closed_or_same_def)
  with \<open>i < length ws1\<close> show ?thesis by auto
qed

lemma opened_windows_inv:
  assumes inv: "budget_inv d" and cl: "closed_of owner (windows d) ws"
    and ins: "insert_window nw (d\<lparr>windows := ws\<rparr>) = Inr (d\<lparr>windows := ws @ [nw]\<rparr>)"
    and act: "distinct (active_owners ws)" "win_state nw = ACTIVE" and zero: "\<And>c. counter c nw = 0"
  shows "wf_windows (d\<lparr>windows := ws @ [nw]\<rparr>)" "wf_reservations (d\<lparr>windows := ws @ [nw]\<rparr>)"
    "counters_ok (d\<lparr>windows := ws @ [nw]\<rparr>)" "wf_tool_usage (d\<lparr>windows := ws @ [nw]\<rparr>)"
proof -
  note keys = closed_of_keys [OF cl]
  then have kset: "win_key ` set ws = win_key ` set (windows d)" by (metis list.set_map)
  from ins have nw: "window_row_ok nw" "list_ex (exact_policy nw) (policies d)" "win_key nw \<notin> win_key ` set ws"
    "win_owner_user_id nw \<notin> set (active_owners ws)"
    using act(2) by (auto simp: insert_window_def split: if_splits)
  have all: "\<forall>w \<in> set (windows d). window_row_ok w \<and> list_ex (exact_policy w) (policies d) \<and>
      (\<forall>c. counter c w = ledger c (reservations d) (win_key w))"
    using inv by (simp add: budget_inv_def wf_windows_def counters_ok_def list_all_iff)
  have old: "window_row_ok w \<and> list_ex (exact_policy w) (policies d) \<and>
      (\<forall>c. counter c w = ledger c (reservations d) (win_key w))" if w: "w \<in> set ws" for w
    using cl w
  proof (rule closed_of_member)
    fix w0 assume "w0 \<in> set (windows d)" "win_key w = win_key w0" "exact_policy w = exact_policy w0"
      "\<forall>c. counter c w = counter c w0"
      "w = w0 \<or> (win_owner_user_id w0 = owner \<and> win_state w = CLOSED \<and> window_row_ok w \<and> win_state w0 = ACTIVE)"
    with all show ?thesis by auto
  qed
  have "distinct (map win_key ws)" using inv keys by (simp add: budget_inv_def wf_windows_def)
  with nw act old show "wf_windows (d\<lparr>windows := ws @ [nw]\<rparr>)"
    by (simp add: wf_windows_def list_all_iff active_owners_def)
  show "wf_reservations (d\<lparr>windows := ws @ [nw]\<rparr>)"
    using inv by (simp add: budget_inv_def wf_reservations_def list_all_iff kset)
  show "wf_tool_usage (d\<lparr>windows := ws @ [nw]\<rparr>)"
    using inv by (simp add: budget_inv_def wf_tool_usage_def list_all_iff kset)
  show "counters_ok (d\<lparr>windows := ws @ [nw]\<rparr>)"
    using old zero ledger_fresh_window [of d "win_key nw"] inv nw(3)
    by (simp add: counters_ok_def list_all_iff budget_inv_def kset)
qed

lemma opened_accounts_inv:
  assumes inv: "budget_inv d" and cl: "closed_of owner (windows d) ws" and a: "get_account d owner = Some a"
    and nw: "win_owner_user_id nw = owner" "win_epoch nw = acc_next_window_epoch a"
      "owner \<notin> set (active_owners ws)"
    and a': "acc_owner_user_id a' = owner" "acc_active_window_epoch a' = Some (acc_next_window_epoch a)"
      "acc_next_window_epoch a' = acc_next_window_epoch a + 1" "account_row_ok a'"
      "account_refs_ok (d\<lparr>windows := ws @ [nw]\<rparr>) a'"
  shows "wf_accounts (d\<lparr>windows := ws @ [nw], accounts := replace_row acc_owner_user_id a' (accounts d)\<rparr>)"
proof -
  let ?as = "replace_row acc_owner_user_id a' (accounts d)"
  let ?d = "d\<lparr>windows := ws @ [nw], accounts := ?as\<rparr>"
  note mem = get_account_SomeD [OF a]
  have accs: "distinct (map acc_owner_user_id (accounts d))" "list_all account_row_ok (accounts d)"
    using inv by (auto simp: budget_inv_def wf_accounts_def)
  have in_as: "a' \<in> set ?as" using mem a'(1) by (auto intro: replaced_in_row)
  have refs: "account_refs_ok ?d b" if b: "b \<in> set ?as" for b
  proof (cases "b = a'")
    case True
    have "account_refs_ok ?d = account_refs_ok (d\<lparr>windows := ws @ [nw]\<rparr>)" by (rule account_refs_ok_ident) simp_all
    with True a'(5) show ?thesis by simp
  next
    case False
    with in_replace_row [OF b] a'(1) have b: "b \<in> set (accounts d)" "acc_owner_user_id b \<noteq> owner" by auto
    with inv have "account_refs_ok d b" by (simp add: budget_inv_def wf_accounts_def list_all_iff)
    with closed_of_other [OF cl] b(2) show ?thesis
      by (fastforce simp: account_refs_ok_def list_ex_iff split: option.splits)
  qed
  have owned: "\<exists>b \<in> set (accounts d). owned_by w b" if "w \<in> set (windows d)" for w
    using inv that by (auto simp: budget_inv_def wf_accounts_def list_all_iff list_ex_iff)
  have own: "\<exists>b \<in> set ?as. owned_by w b" if w: "w \<in> set ws" for w
    using cl w
  proof (rule closed_of_member)
    fix w0 assume w0: "w0 \<in> set (windows d)" "win_key w = win_key w0"
      "w = w0 \<or> (win_owner_user_id w0 = owner \<and> win_state w = CLOSED \<and> window_row_ok w \<and> win_state w0 = ACTIVE)"
    from owned [OF w0(1)] obtain b where b: "b \<in> set (accounts d)" "owned_by w0 b" by blast
    show ?thesis
    proof (cases "win_owner_user_id w = owner")
      case True
      with w nw(3) have "win_state w \<noteq> ACTIVE" by (auto simp: active_owners_def image_iff)
      moreover from b w0(2) True mem accs(1) have "b = a"
        by (auto simp: owned_by_def win_key_def dest: distinct_key_eq)
      ultimately have "owned_by w a'" using b w0(2) True a'(1,3) by (simp add: owned_by_def win_key_def)
      with in_as show ?thesis by blast
    next
      case False
      with w0 have "w = w0" by (auto simp: win_key_def)
      moreover from b False \<open>w = w0\<close> a'(1) have "b \<in> set ?as"
        by (auto simp: owned_by_def replace_row_def set_upd_where image_iff)
      ultimately show ?thesis using b(2) by blast
    qed
  qed
  have "owned_by nw a'" using nw a' by (simp add: owned_by_def)
  with accs refs own a'(4) in_as show ?thesis
    by (auto simp: wf_accounts_def list_all_iff list_ex_iff dest: in_replace_row)
qed

lemma open_window_inv:
  assumes "open_window owner v now account active d = Inr (w, d')" "budget_inv d"
    and "active = active_window d owner" "get_account d owner = Some account"
  shows "budget_inv d'"
  using assms
proof (rule open_windowE)
  fix p expires d1 a'
  let ?nw = "new_window owner (acc_next_window_epoch account) p now expires"
  assume cl: "closed_of owner (windows d) (windows d1)" and d1: "d1 = d\<lparr>windows := windows d1\<rparr>"
    and ins: "insert_window ?nw d1 = Inr (d\<lparr>windows := windows d1 @ [?nw]\<rparr>)"
    and a': "a' = account\<lparr>acc_active_window_epoch := Some (acc_next_window_epoch account),
        acc_next_window_epoch := acc_next_window_epoch account + 1, acc_revision := v + 1\<rparr>"
      "account_row_ok a'" "account_refs_ok (d\<lparr>windows := windows d1 @ [?nw]\<rparr>) a'"
    and act: "distinct (active_owners (windows d1))"
    and d': "d' = d\<lparr>windows := windows d1 @ [?nw], accounts := replace_row acc_owner_user_id a' (accounts d)\<rparr>"
  from ins have free: "owner \<notin> set (active_owners (windows d1))"
    by (auto simp: insert_window_def split: if_splits)
  from ins d1 have ins': "insert_window ?nw (d\<lparr>windows := windows d1\<rparr>) = Inr (d\<lparr>windows := windows d1 @ [?nw]\<rparr>)" by simp
  note w = opened_windows_inv [OF assms(2) cl ins' act]
  have "wf_accounts d'"
    unfolding d' by (rule opened_accounts_inv [OF assms(2) cl assms(4) _ _ free])
      (use a' get_account_SomeD [OF assms(4)] in simp_all)
  with w assms(2) d' show ?thesis
    by (simp add: budget_inv_def wf_policies_def wf_windows_def wf_reservations_def wf_tool_usage_def
        tool_rows_exist_def counters_ok_def tool_counters_ok_def mirrored_ok_def)
qed

lemma rollover_windowE:
  assumes "rollover_window owner v server_now d = Inr (w, d')" "budget_inv d"
  obtains (live) now where "normalize_authoritative_utc server_now = Inr now" "active_window d owner = Some w" "d' = d"
      "dt_less now (record_utc (win_expires_at w)) = Inr True"
  | (opened) now account where "normalize_authoritative_utc server_now = Inr now" "get_account d owner = Some account"
      "open_window owner v now account (active_window d owner) d = Inr (w, d')"
      "\<And>x. active_window d owner = Some x \<Longrightarrow> dt_less now (record_utc (win_expires_at x)) = Inr False"
proof -
  from assms(1) obtain now account where now: "normalize_authoritative_utc server_now = Inr now"
    and account: "get_account d owner = Some account"
    by (auto simp: rollover_window_def)
  note act = get_active_window_inv [OF assms(2), of owner]
  show thesis
  proof (cases "active_window d owner")
    case None
    with assms(1) now account act show thesis by (intro opened [of now account]) (auto simp: rollover_window_def)
  next
    case (Some x)
    with assms(1) now account act obtain l where l: "dt_less now (record_utc (win_expires_at x)) = Inr l"
      and r: "(if l then Inr (x, d) else open_window owner v now account (Some x) d) = Inr (w, d')"
      by (auto simp: rollover_window_def)
    show thesis
    proof (cases l)
      case True
      with r l Some now show thesis by (intro live) auto
    next
      case False
      with r l Some now account show thesis by (intro opened) auto
    qed
  qed
qed

lemma rollover_window_inv:
  assumes "rollover_window owner v now d = Inr (w, d')" "budget_inv d"
  shows "budget_inv d'"
  using assms
proof (cases rule: rollover_windowE)
  case (opened n account)
  with assms(2) show ?thesis by (intro open_window_inv [OF opened(3)]) auto
qed (use assms(2) in simp)

section \<open>Create-or-get under the owner's lock\<close>

lemma create_or_get_reservationE:
  assumes "create_or_get_reservation id i d = Inr (r, d')"
  obtains (existing) "get_reservation d (in_owner_user_id i) (in_idempotency_key i) = Some r"
      "payload_fingerprint i = Inr (res_payload_fingerprint r)" "d' = d"
  | (inserted) "new_reservation i = Inr r" "insert_reservation r d = Inr d'"
      "get_reservation d (in_owner_user_id i) (in_idempotency_key i) = None"
proof -
  from assms obtain row where row: "new_reservation i = Inr row"
    and cg: "create_or_get (\<lambda>d. get_reservation d (in_owner_user_id i) (in_idempotency_key i))
      (\<lambda>r. res_payload_fingerprint r = res_payload_fingerprint row) insert_reservation id row d = Inr (r, d')"
    by (auto simp: create_or_get_reservation_def)
  have "payload_fingerprint i = Inr (res_payload_fingerprint row)" using row by (auto simp: new_reservation_def)
  with cg row show thesis
    by (auto simp: create_or_get_def split: option.splits sum.splits if_splits intro: existing inserted)
qed

lemma create_or_get_tool_usageE:
  assumes "create_or_get_tool_usage id owner epoch cap d = Inr (u, d')"
  obtains (existing) "get_tool_usage d owner epoch cap = Some u" "d' = d"
  | (inserted) "u = new_tool_usage owner epoch cap" "insert_tool_usage u d = Inr d'"
  using assms
  by (auto simp: create_or_get_tool_usage_def create_or_get_def split: option.splits sum.splits if_splits)

lemma create_or_get_receiptE:
  assumes "create_or_get_dual_accounting_receipt id b d = Inr (r, d')"
    and "get_dual_accounting_receipt d (rcp_key b) = None"
  shows "r = b" "insert_receipt b d = Inr d'"
  using assms
  by (auto simp: create_or_get_dual_accounting_receipt_def create_or_get_def split: option.splits sum.splits if_splits)

lemma new_reservation_fields:
  assumes "new_reservation i = Inr r"
  shows "res_owner_user_id r = in_owner_user_id i" "res_window_epoch r = in_window_epoch i"
    "res_idempotency_key r = in_idempotency_key i" "res_resource_kind r = in_resource_kind i"
    "res_capability_id r = in_capability_id i" "res_reserved_amount_atomic r = in_reserved_amount_atomic i"
    "res_settled_amount_atomic r = None" "res_state r = RESERVED" "res_revision r = 0" "res_settled_at r = None"
    "res_reservation_id r = in_reservation_id i"
  using assms by (auto simp: new_reservation_def)

lemma make_intent_fields:
  assumes "make_intent rid owner epoch key kind cap amount attribution = Inr i"
  shows "in_reservation_id i = rid" "in_owner_user_id i = owner" "in_window_epoch i = epoch" "in_idempotency_key i = key"
    "in_resource_kind i = kind" "in_capability_id i = cap" "in_reserved_amount_atomic i = amount"
    "in_attribution i = attribution" "capability_scope_ok kind cap"
  using assms by (auto simp: make_intent_def)

section \<open>Counter shifts of one reservation\<close>

definition settled_delta :: "resource_kind \<Rightarrow> int \<Rightarrow> window_counter \<Rightarrow> int" where
  "settled_delta kind amount c = (if counter_kind c = kind \<and> \<not> counts_reserved c then amount else 0)"

definition reserved_delta :: "resource_kind \<Rightarrow> int \<Rightarrow> window_counter \<Rightarrow> int" where
  "reserved_delta kind amount c = (if counter_kind c = kind \<and> counts_reserved c then amount else 0)"

lemma contrib_reserved:
  "res_state r = RESERVED \<Longrightarrow> contrib c r = reserved_delta (res_resource_kind r) (res_reserved_amount_atomic r) c"
  by (auto simp: contrib_def reserved_delta_def)

lemma contrib_released: "res_state r = RELEASED \<Longrightarrow> contrib c r = 0"
  by (auto simp: contrib_def)

lemma reserved_delta_tool:
  "reserved_delta TOOL_CALL a tool_calls_used = 0" "reserved_delta TOOL_CALL a tool_calls_reserved = a"
  by (auto simp: reserved_delta_def counts_reserved_def)

lemma contrib_settled:
  "res_state r = SETTLED \<Longrightarrow> res_settled_amount_atomic r = Some amount \<Longrightarrow>
   contrib c r = settled_delta (res_resource_kind r) amount c"
  by (auto simp: contrib_def settled_delta_def)

lemma settled_delta_tool:
  "settled_delta kind amount tool_calls_used = (if kind = TOOL_CALL then amount else 0)"
  "settled_delta kind amount tool_calls_reserved = 0"
  by (auto simp: settled_delta_def counts_reserved_def)

section \<open>Compare-and-swap on a row that was read\<close>

lemma mutate_window_memberE:
  assumes "mutate_window_usage owner (win_epoch w) v vs d = Inr (w', d')" "distinct (map win_key (windows d))"
    and "w \<in> set (windows d)" "win_owner_user_id w = owner"
  shows "w' = (set_counters vs w)\<lparr>win_revision := v + 1\<rparr>" "window_row_ok w'" "win_ident w' = win_ident w" "win_revision w = v"
    "d' = d\<lparr>windows := replace_row win_key w' (windows d)\<rparr>"
    "\<forall>(c, x) \<in> set vs. c \<in> set monotonic_used_fields \<longrightarrow> counter c w \<le> x"
proof -
  from assms(1,2) have "w' = (set_counters vs w)\<lparr>win_revision := v + 1\<rparr> \<and> window_row_ok w' \<and> win_revision w = v \<and>
    d' = d\<lparr>windows := replace_row win_key w' (windows d)\<rparr> \<and>
    (\<forall>(c, x) \<in> set vs. c \<in> set monotonic_used_fields \<longrightarrow> counter c w \<le> x)"
  proof (rule mutate_window_usageE)
    fix w0 assume w0: "w0 \<in> set (windows d)" "win_key w0 = (owner, win_epoch w)" "win_revision w0 = v"
      "w' = (set_counters vs w0)\<lparr>win_revision := v + 1\<rparr>" "window_row_ok w'" "d' = d\<lparr>windows := replace_row win_key w' (windows d)\<rparr>"
      "\<forall>(c, x) \<in> set vs. c \<in> set monotonic_used_fields \<longrightarrow> counter c w0 \<le> x"
    from w0(1,2) assms(2-4) have "w0 = w" by (auto simp: win_key_def dest: distinct_key_eq)
    with w0 show ?thesis by simp
  qed
  then show "w' = (set_counters vs w)\<lparr>win_revision := v + 1\<rparr>" "window_row_ok w'" "win_revision w = v"
    "d' = d\<lparr>windows := replace_row win_key w' (windows d)\<rparr>"
    "\<forall>(c, x) \<in> set vs. c \<in> set monotonic_used_fields \<longrightarrow> counter c w \<le> x" by blast+
  then show "win_ident w' = win_ident w" by (simp add: win_ident_def)
qed

lemma mutate_tool_memberE:
  assumes "mutate_tool_usage owner epoch cap v used reserved d = Inr (u', d')" "distinct (map tu_key (tool_usage d))"
    and "u \<in> set (tool_usage d)" "tu_key u = (owner, epoch, cap)"
  shows "u' = u\<lparr>tu_used_calls := used, tu_reserved_calls := reserved, tu_revision := v + 1\<rparr>" "tool_usage_row_ok u'"
    "tu_key u' = tu_key u" "d' = d\<lparr>tool_usage := replace_row tu_key u' (tool_usage d)\<rparr>"
proof -
  from assms(1,2) have "u' = u\<lparr>tu_used_calls := used, tu_reserved_calls := reserved, tu_revision := v + 1\<rparr> \<and> tool_usage_row_ok u' \<and>
    d' = d\<lparr>tool_usage := replace_row tu_key u' (tool_usage d)\<rparr>"
  proof (rule mutate_tool_usageE)
    fix u0 assume u0: "u0 \<in> set (tool_usage d)" "tu_key u0 = (owner, epoch, cap)"
      "u' = u0\<lparr>tu_used_calls := used, tu_reserved_calls := reserved, tu_revision := v + 1\<rparr>"
      "tool_usage_row_ok u'" "d' = d\<lparr>tool_usage := replace_row tu_key u' (tool_usage d)\<rparr>"
    from u0(1,2) assms(2-4) have "u0 = u" by (auto dest: distinct_key_eq)
    with u0 show ?thesis by simp
  qed
  then show "u' = u\<lparr>tu_used_calls := used, tu_reserved_calls := reserved, tu_revision := v + 1\<rparr>" "tool_usage_row_ok u'"
    "d' = d\<lparr>tool_usage := replace_row tu_key u' (tool_usage d)\<rparr>" by blast+
  then show "tu_key u' = tu_key u" by (simp add: tu_key_def)
qed

end
