(* ===== verification/Dual_Accounting.thy ===== *)
theory Dual_Accounting
  imports Budget_Invariant
begin

text \<open>
  Dual accounting (\<open>src/se/src/application/user_budget.py\<close>): who owns the renewable budget of a
  principal, the unbounded shadow policy that accounts without limiting, the binding of tasks to
  owners, the mirroring of committed task-budget charges into the user budget, and the read-only
  reconciliation. The argument \<open>race\<close> is what other transactions commit before the INSERTs of
  the shadow policy (index 0) and of the account (index 1).
\<close>

section \<open>Types\<close>

definition UBQ2_ENROLLMENT_VERSION :: string where
  "UBQ2_ENROLLMENT_VERSION = ''ubq2-v1''"

definition UBQ2_IDEMPOTENCY_VERSION :: string where
  "UBQ2_IDEMPOTENCY_VERSION = ''ubq2-v1''"

record dual_accounting_settings =
  das_enabled :: bool
  das_policy_version :: string
  das_window_duration_seconds :: int

record budget_owner_resolution =
  bor_owner_user_id :: string
  bor_source_auth_type :: string
  bor_source_api_key_id :: "string option"
  bor_source_application_id :: "string option"
  bor_source_organization_id :: "string option"
  bor_resolution_fingerprint :: string

record task_binding_snapshot =
  tbs_task_id :: string
  tbs_owner_user_id :: string
  tbs_enrollment_version :: string
  tbs_resolution_fingerprint :: string

record mirror_dimension =
  md_resource_kind :: string
  md_amount_atomic :: int
  md_capability_id :: "string option"

datatype recon_status =
    LEGACY_UNBOUND | SOURCE_ABSENT_UNPROVEN | SOURCE_RESERVATION_MISSING | RECON_OK
  | PAYLOAD_MISMATCH | MISSING_UBQ

record reconciliation_item =
  rec_status :: recon_status
  rec_task_id :: string
  rec_bridge_receipt_id :: "string option"
  rec_mirror_dimension :: "string option"

datatype auth_type = jwt | api_key | admin_key | guest

fun auth_type_text :: "auth_type \<Rightarrow> string" where
  "auth_type_text jwt = ''jwt''"
| "auth_type_text api_key = ''api_key''"
| "auth_type_text admin_key = ''admin_key''"
| "auth_type_text guest = ''guest''"

text \<open>The fields of \<open>Identity\<close> (\<open>src/se/src/domain/schemas/identity.py\<close>) the budget reads.\<close>

record identity =
  id_user_id :: "string option"
  id_organization_id :: "string option"
  id_application_id :: "string option"
  id_api_key_id :: "string option"
  id_auth_type :: auth_type

definition none_if_empty :: "string option \<Rightarrow> string option" where
  "none_if_empty m = (case m of Some s \<Rightarrow> (if s = [] then None else Some s) | None \<Rightarrow> None)"

definition or_empty :: "string option \<Rightarrow> string" where
  "or_empty m = (case m of None \<Rightarrow> [] | Some s \<Rightarrow> s)"

definition py_str :: "string option \<Rightarrow> string" where
  "py_str m = (case m of None \<Rightarrow> ''None'' | Some s \<Rightarrow> s)"

definition is_retryable_error :: "err \<Rightarrow> bool" where
  "is_retryable_error e \<longleftrightarrow> e \<in> {UserBudgetConflictError, UserBudgetSerializationError}"

section \<open>Who owns the budget\<close>

definition resolution :: "string \<Rightarrow> identity \<Rightarrow> string option \<Rightarrow> string option \<Rightarrow> string option \<Rightarrow> budget_owner_resolution" where
  "resolution owner ident key app org =
     \<lparr>bor_owner_user_id = owner, bor_source_auth_type = auth_type_text (id_auth_type ident),
      bor_source_api_key_id = key, bor_source_application_id = app, bor_source_organization_id = org,
      bor_resolution_fingerprint = canonical_sha256
        [(''version'', JStr UBQ2_ENROLLMENT_VERSION), (''owner_user_id'', JStr owner),
         (''source_auth_type'', JStr (auth_type_text (id_auth_type ident))),
         (''source_api_key_id'', json_opt_str key), (''source_application_id'', json_opt_str app),
         (''source_organization_id'', json_opt_str org)]\<rparr>"

definition resolve_budget_owner :: "db \<Rightarrow> identity \<Rightarrow> err + budget_owner_resolution" where
  "resolve_budget_owner d ident =
     (if id_auth_type ident \<in> {admin_key, guest} then Inl UserBudgetOwnerUnresolvedError
      else case none_if_empty (id_user_id ident) of
        Some uid \<Rightarrow>
          (if uid \<notin> set (users d) then Inl UserBudgetOwnerUnresolvedError
           else Inr (resolution uid ident (id_api_key_id ident) (id_application_id ident) (id_organization_id ident)))
      | None \<Rightarrow>
          (case none_if_empty (id_api_key_id ident) of
             None \<Rightarrow> Inl UserBudgetOwnerUnresolvedError
           | Some kid \<Rightarrow>
               if id_auth_type ident \<noteq> api_key then Inl UserBudgetOwnerUnresolvedError else
               bindR (ofOption UserBudgetOwnerUnresolvedError (List.find (\<lambda>k. key_id k = kid) (api_keys d))) (\<lambda>key.
               bindR (requireR (key_status key = ''active'') UserBudgetOwnerUnresolvedError) (\<lambda>_.
               bindR (ofOption UserBudgetOwnerUnresolvedError
                        (List.find (\<lambda>a. app_id a = key_application_id key) (applications d))) (\<lambda>app.
               bindR (ofOption UserBudgetOwnerUnresolvedError
                        (List.find (\<lambda>g. org_id g = app_organization_id app) (organizations d))) (\<lambda>org.
               bindR (requireR (or_empty (id_application_id ident) = app_id app \<and>
                                or_empty (id_organization_id ident) = org_id org) UserBudgetOwnerUnresolvedError) (\<lambda>_.
               bindR (requireR (org_owner_id org \<in> set (users d)) UserBudgetOwnerUnresolvedError) (\<lambda>_.
               Inr (resolution (org_owner_id org) ident (Some (key_id key)) (Some (app_id app)) (Some (org_id org)))))))))))"

section \<open>The shadow policy\<close>

definition shadow_policy_id :: "string \<Rightarrow> string \<Rightarrow> int \<Rightarrow> string" where
  "shadow_policy_id owner version duration =
     ''ubq2-shadow-'' @ take 48 (canonical_sha256
       [(''authority'', JStr ''UBQ2_SHADOW_ACCOUNTING''), (''owner_user_id'', JStr owner),
        (''policy_version'', JStr version), (''window_duration_seconds'', JInt duration),
        (''unbounded'', JBool True)])"

definition unbounded_policy :: "string \<Rightarrow> string \<Rightarrow> string \<Rightarrow> int \<Rightarrow> err + policy" where
  "unbounded_policy pid owner version duration =
     make_policy pid owner version duration None None None None None None None [] None"

definition shadow_policy :: "dual_accounting_settings \<Rightarrow> string \<Rightarrow> err + policy" where
  "shadow_policy s owner =
     unbounded_policy (shadow_policy_id owner (das_policy_version s) (das_window_duration_seconds s))
       owner (das_policy_version s) (das_window_duration_seconds s)"

definition starts_with :: "string \<Rightarrow> string \<Rightarrow> bool" where
  "starts_with s p \<longleftrightarrow> take (length p) s = p"

definition unlimited_row :: "policy_row \<Rightarrow> bool" where
  "unlimited_row row \<longleftrightarrow>
     pol_max_compute_atomic row = None \<and> pol_max_inference_calls row = None \<and>
     pol_max_input_tokens row = None \<and> pol_max_output_tokens row = None \<and>
     pol_max_total_tokens row = None \<and> pol_max_tool_calls_total row = None \<and>
     pol_default_per_tool_limit row = None \<and> pol_max_cost_usd_atomic row = None"

definition is_recognized_shadow_policy :: "policy_row \<Rightarrow> err + bool" where
  "is_recognized_shadow_policy row =
     (if \<not> starts_with (pol_policy_version row) ''ubq2-shadow-'' then Inr False
      else if \<not> unlimited_row row then Inr False
      else if pol_tool_limits_json row \<noteq> [] then Inr False
      else let expected_id = shadow_policy_id (pol_owner_user_id row) (pol_policy_version row)
                               (pol_window_duration_seconds row)
           in if pol_policy_id row \<noteq> expected_id then Inr False
              else bindR (unbounded_policy expected_id (pol_owner_user_id row) (pol_policy_version row)
                            (pol_window_duration_seconds row)) (\<lambda>expected.
                   bindR (policy_fingerprint expected) (\<lambda>fp.
                   Inr (pol_policy_fingerprint row = fp))))"

definition select_shadow_policy :: "string \<Rightarrow> policy_row \<Rightarrow> account_row \<Rightarrow> db \<Rightarrow> err + (account_row \<times> db)" where
  "select_shadow_policy owner policy account d =
     (case acc_next_policy_id account of
        None \<Rightarrow> select_next_policy owner (acc_revision account) (pol_policy_id policy) d
      | Some pid \<Rightarrow>
          (case get_policy d owner pid of
             None \<Rightarrow> Inl UserBudgetPolicyAuthorityConflictError
           | Some selected \<Rightarrow>
               bindR (is_recognized_shadow_policy selected) (\<lambda>ok.
               if ok then Inr (account, d) else Inl UserBudgetPolicyAuthorityConflictError)))"

definition require_shadow_window :: "string \<Rightarrow> db \<Rightarrow> err + unit" where
  "require_shadow_window owner d =
     bindR (get_active_window d owner) (\<lambda>active.
     case active of
       None \<Rightarrow> Inr ()
     | Some w \<Rightarrow>
         (case get_policy d owner (win_governing_policy_id w) of
            None \<Rightarrow> Inl UserBudgetPolicyAuthorityConflictError
          | Some governing \<Rightarrow>
              bindR (is_recognized_shadow_policy governing) (\<lambda>ok.
              if ok \<and> win_governing_policy_fingerprint w = pol_policy_fingerprint governing then Inr ()
              else Inl UserBudgetPolicyAuthorityConflictError)))"

definition ensure_shadow_account :: "dual_accounting_settings \<Rightarrow> (nat \<Rightarrow> db \<Rightarrow> db) \<Rightarrow> string \<Rightarrow> db \<Rightarrow> err + (account_row \<times> db)" where
  "ensure_shadow_account s race owner d =
     bindR (shadow_policy s owner) (\<lambda>expected.
     bindR (create_or_get_immutable_policy (race 0) expected d) (\<lambda>(policy, d).
     bindR (create_or_get_account (race 1) owner d) (\<lambda>(account, d).
     bindR (select_shadow_policy owner policy account d) (\<lambda>(account, d).
     bindR (require_shadow_window owner d) (\<lambda>_.
     Inr (account, d))))))"

section \<open>Enrolment\<close>

definition prepare_enrollment :: "dual_accounting_settings \<Rightarrow> (nat \<Rightarrow> db \<Rightarrow> db) \<Rightarrow> string option \<Rightarrow> identity \<Rightarrow>
    db \<Rightarrow> err + (budget_owner_resolution \<times> db)" where
  "prepare_enrollment s race parent_task_id ident d =
     bindR (resolve_budget_owner d ident) (\<lambda>res.
     bindR (ensure_shadow_account s race (bor_owner_user_id res) d) (\<lambda>(_, d).
     case parent_task_id of
       None \<Rightarrow> Inr (res, d)
     | Some parent \<Rightarrow>
         (case get_task_binding d parent of
            None \<Rightarrow> Inl UserBudgetParentUnboundError
          | Some b \<Rightarrow>
              if bnd_owner_user_id b \<noteq> bor_owner_user_id res then Inl UserBudgetParentOwnerMismatchError
              else Inr (res, d))))"

definition binding_snapshot :: "binding_row \<Rightarrow> task_binding_snapshot" where
  "binding_snapshot row =
     \<lparr>tbs_task_id = bnd_task_id row, tbs_owner_user_id = bnd_owner_user_id row,
      tbs_enrollment_version = bnd_enrollment_version row,
      tbs_resolution_fingerprint = bnd_resolution_fingerprint row\<rparr>"

definition bind_prepared_task :: "(db \<Rightarrow> db) \<Rightarrow> string \<Rightarrow> budget_owner_resolution \<Rightarrow> db \<Rightarrow> err + (task_binding_snapshot \<times> db)" where
  "bind_prepared_task race task_id res d =
     bindR (create_task_binding race
       \<lparr>bnd_task_id = task_id, bnd_owner_user_id = bor_owner_user_id res,
        bnd_enrollment_version = UBQ2_ENROLLMENT_VERSION,
        bnd_source_auth_type = bor_source_auth_type res,
        bnd_source_api_key_id = bor_source_api_key_id res,
        bnd_source_application_id = bor_source_application_id res,
        bnd_source_organization_id = bor_source_organization_id res,
        bnd_resolution_fingerprint = bor_resolution_fingerprint res\<rparr> d) (\<lambda>(row, d).
     Inr (binding_snapshot row, d))"

definition preflight_binding :: "db \<Rightarrow> string \<Rightarrow> task_binding_snapshot option" where
  "preflight_binding d task_id = map_option binding_snapshot (get_task_binding d task_id)"

definition require_same_binding :: "task_binding_snapshot \<Rightarrow> binding_row \<Rightarrow> err + unit" where
  "require_same_binding expected row =
     requireR (bnd_task_id row = tbs_task_id expected \<and> bnd_owner_user_id row = tbs_owner_user_id expected \<and>
               bnd_enrollment_version row = tbs_enrollment_version expected \<and>
               bnd_resolution_fingerprint row = tbs_resolution_fingerprint expected) UserBudgetBindingDriftError"

section \<open>Mirror dimensions\<close>

definition inference_dimensions :: "mirror_dimension list" where
  "inference_dimensions =
     [\<lparr>md_resource_kind = kind_value INFERENCE_CALL, md_amount_atomic = 1, md_capability_id = None\<rparr>]"

definition tool_call_dimensions :: "string \<Rightarrow> err + mirror_dimension list" where
  "tool_call_dimensions capability_id =
     bindR (requireR (capability_id \<noteq> []) ValueError) (\<lambda>_.
     Inr [\<lparr>md_resource_kind = kind_value TOOL_CALL, md_amount_atomic = 1, md_capability_id = Some capability_id\<rparr>])"

definition usage_dimensions :: "int \<Rightarrow> pyval \<Rightarrow> err + mirror_dimension list" where
  "usage_dimensions tokens cost_usd =
     bindR (decimal_to_atomic False cost_usd) (\<lambda>cost_atomic.
     let dims =
       (if 0 < tokens
        then [\<lparr>md_resource_kind = kind_value TOTAL_TOKEN, md_amount_atomic = tokens, md_capability_id = None\<rparr>] else []) @
       (if 0 < cost_atomic
        then [\<lparr>md_resource_kind = kind_value COST_USD, md_amount_atomic = cost_atomic, md_capability_id = None\<rparr>] else [])
     in Inr (if dims = []
             then [\<lparr>md_resource_kind = ''NO_CHARGE'', md_amount_atomic = 0, md_capability_id = None\<rparr>]
             else dims))"

section \<open>Mirroring a committed charge\<close>

definition mirror_digest :: "string \<Rightarrow> string \<Rightarrow> string \<Rightarrow> string \<Rightarrow> string \<Rightarrow> string" where
  "mirror_digest owner task_id tb_kind reservation_key kind =
     canonical_sha256
       [(''version'', JStr UBQ2_IDEMPOTENCY_VERSION), (''owner_user_id'', JStr owner),
        (''task_id'', JStr task_id), (''task_budget_kind'', JStr tb_kind),
        (''task_budget_reservation_key'', JStr reservation_key), (''resource_kind'', JStr kind)]"

definition ensure_active_shadow_window :: "dual_accounting_settings \<Rightarrow> (nat \<Rightarrow> db \<Rightarrow> db) \<Rightarrow> string \<Rightarrow> pydatetime \<Rightarrow>
    db \<Rightarrow> err + (window_row \<times> db)" where
  "ensure_active_shadow_window s race owner now d =
     bindR (ensure_shadow_account s race owner d) (\<lambda>(account, d).
     bindR (get_active_window d owner) (\<lambda>active.
     case active of
       None \<Rightarrow> rollover_window owner (acc_revision account) now d
     | Some w \<Rightarrow>
         bindR (dt_less now (record_utc (win_expires_at w))) (\<lambda>live.
         if live then Inr (w, d) else rollover_window owner (acc_revision account) now d)))"

definition receipt_matches :: "task_binding_snapshot \<Rightarrow> string \<Rightarrow> mirror_dimension \<Rightarrow> receipt_row \<Rightarrow> bool" where
  "receipt_matches binding source_fp dim b \<longleftrightarrow>
     rcp_owner_user_id b = tbs_owner_user_id binding \<and> rcp_source_payload_fingerprint b = source_fp \<and>
     rcp_amount_atomic b = md_amount_atomic dim \<and>
     none_if_empty (rcp_capability_id b) = none_if_empty (md_capability_id dim)"

text \<open>Every existing receipt is checked against its dimension, in order; \<open>None\<close> marks a missing one.\<close>

fun existing_receipts :: "db \<Rightarrow> task_binding_snapshot \<Rightarrow> string \<Rightarrow> string \<Rightarrow> string \<Rightarrow> mirror_dimension list \<Rightarrow>
    err + receipt_row option list" where
  "existing_receipts d binding tb_kind rkey source_fp [] = Inr []"
| "existing_receipts d binding tb_kind rkey source_fp (dim # dims) =
     (let e = get_dual_accounting_receipt d (tbs_task_id binding, tb_kind, rkey, md_resource_kind dim) in
      bindR (requireR (case e of None \<Rightarrow> True | Some b \<Rightarrow> receipt_matches binding source_fp dim b)
               UserBudgetConflictError) (\<lambda>_.
      bindR (existing_receipts d binding tb_kind rkey source_fp dims) (\<lambda>es. Inr (e # es))))"

definition require_mirror_replay :: "db \<Rightarrow> task_binding_snapshot \<Rightarrow> string \<Rightarrow> string \<Rightarrow> string \<Rightarrow> mirror_dimension list \<Rightarrow>
    err + receipt_row list" where
  "require_mirror_replay d binding tb_kind rkey source_fp dims =
     mapR (\<lambda>dim.
       bindR (ofOption UserBudgetIntegrityError
                (get_dual_accounting_receipt d (tbs_task_id binding, tb_kind, rkey, md_resource_kind dim))) (\<lambda>b.
       bindR (requireR (receipt_matches binding source_fp dim b) UserBudgetConflictError) (\<lambda>_.
       Inr b))) dims"

definition mirror_counter :: "resource_kind \<Rightarrow> err + window_counter" where
  "mirror_counter kind =
     (case kind of
        INFERENCE_CALL \<Rightarrow> Inr inference_used
      | TOTAL_TOKEN \<Rightarrow> Inr total_tokens_used
      | COST_USD \<Rightarrow> Inr cost_used_atomic
      | TOOL_CALL \<Rightarrow> Inr tool_calls_used
      | _ \<Rightarrow> Inl ValueError)"

definition mirror_intent :: "task_binding_snapshot \<Rightarrow> string \<Rightarrow> string \<Rightarrow> int \<Rightarrow> resource_kind \<Rightarrow> mirror_dimension \<Rightarrow> err + intent" where
  "mirror_intent binding tb_kind rkey epoch kind dim =
     (let digest = mirror_digest (tbs_owner_user_id binding) (tbs_task_id binding) tb_kind rkey (kind_value kind)
      in make_intent (''ubq2r:'' @ digest) (tbs_owner_user_id binding) epoch (''ubq2:v1:'' @ digest)
           kind (md_capability_id dim) (md_amount_atomic dim)
           ([(KStr ''version'', VStr UBQ2_IDEMPOTENCY_VERSION),
             (KStr ''task_id'', VStr (tbs_task_id binding)),
             (KStr ''task_budget_kind'', VStr tb_kind),
             (KStr ''task_budget_reservation_key'', VStr rkey),
             (KStr ''resource_kind'', VStr (kind_value kind))] @
            (case md_capability_id dim of None \<Rightarrow> [] | Some c \<Rightarrow> [(KStr ''capability_id'', VStr c)])))"

definition charge_tool_usage :: "string \<Rightarrow> int \<Rightarrow> string \<Rightarrow> int \<Rightarrow> db \<Rightarrow> err + db" where
  "charge_tool_usage owner epoch capability_id amount d =
     bindR (create_or_get_tool_usage id owner epoch capability_id d) (\<lambda>(u, d).
     bindR (mutate_tool_usage owner epoch capability_id (tu_revision u) (tu_used_calls u + amount)
              (tu_reserved_calls u) d) (\<lambda>(_, d). Inr d))"

definition charged_receipt :: "task_binding_snapshot \<Rightarrow> string \<Rightarrow> string \<Rightarrow> string \<Rightarrow> resource_kind \<Rightarrow> mirror_dimension \<Rightarrow>
    int \<Rightarrow> reservation_row \<Rightarrow> receipt_row" where
  "charged_receipt binding tb_kind rkey source_fp kind dim epoch settled =
     \<lparr>rcp_bridge_receipt_id =
        ''ubq2b:'' @ mirror_digest (tbs_owner_user_id binding) (tbs_task_id binding) tb_kind rkey (kind_value kind),
      rcp_owner_user_id = tbs_owner_user_id binding, rcp_task_id = tbs_task_id binding,
      rcp_task_budget_kind = tb_kind, rcp_task_budget_reservation_key = rkey,
      rcp_mirror_dimension = kind_value kind, rcp_source_payload_fingerprint = source_fp,
      rcp_window_epoch = Some epoch, rcp_ubq_reservation_id = Some (res_reservation_id settled),
      rcp_ubq_idempotency_key = Some (res_idempotency_key settled),
      rcp_ubq_payload_fingerprint = Some (res_payload_fingerprint settled),
      rcp_amount_atomic = md_amount_atomic dim, rcp_capability_id = md_capability_id dim\<rparr>"

definition mirror_one :: "task_binding_snapshot \<Rightarrow> string \<Rightarrow> string \<Rightarrow> string \<Rightarrow> pydatetime \<Rightarrow> mirror_dimension \<Rightarrow>
    window_row \<Rightarrow> db \<Rightarrow> err + (receipt_row \<times> window_row \<times> db)" where
  "mirror_one binding tb_kind rkey source_fp now dim window d =
     bindR (kind_of_value (md_resource_kind dim)) (\<lambda>kind.
     let amount = md_amount_atomic dim; owner = tbs_owner_user_id binding in
     bindR (requireR (0 < amount) ValueError) (\<lambda>_.
     bindR (requireR (\<not> (kind = TOOL_CALL \<and> none_if_empty (md_capability_id dim) = None)) ValueError) (\<lambda>_.
     bindR (requireR (\<not> (kind \<noteq> TOOL_CALL \<and> none_if_empty (md_capability_id dim) \<noteq> None)) ValueError) (\<lambda>_.
     bindR (mirror_intent binding tb_kind rkey (win_epoch window) kind dim) (\<lambda>i.
     bindR (create_or_get_reservation id i d) (\<lambda>(reservation, d).
     bindR (mirror_counter kind) (\<lambda>c.
     bindR (mutate_window_usage owner (win_epoch window) (win_revision window)
              [(c, counter c window + amount)] d) (\<lambda>(window, d).
     bindR (if kind = TOOL_CALL
            then charge_tool_usage owner (win_epoch window) (or_empty (md_capability_id dim)) amount d
            else Inr d) (\<lambda>d.
     bindR (transition_reservation owner (in_idempotency_key i) (res_revision reservation) SETTLED
              (Some amount) (Some now) d) (\<lambda>(settled, d).
     bindR (create_or_get_dual_accounting_receipt id
              (charged_receipt binding tb_kind rkey source_fp kind dim (win_epoch window) settled) d) (\<lambda>(bridge, d).
     Inr (bridge, window, d))))))))))))"

fun mirror_all :: "task_binding_snapshot \<Rightarrow> string \<Rightarrow> string \<Rightarrow> string \<Rightarrow> pydatetime \<Rightarrow> mirror_dimension list \<Rightarrow>
    window_row \<Rightarrow> db \<Rightarrow> err + (receipt_row list \<times> db)" where
  "mirror_all binding tb_kind rkey source_fp now [] window d = Inr ([], d)"
| "mirror_all binding tb_kind rkey source_fp now (dim # dims) window d =
     bindR (mirror_one binding tb_kind rkey source_fp now dim window d) (\<lambda>(bridge, window, d).
     bindR (mirror_all binding tb_kind rkey source_fp now dims window d) (\<lambda>(rows, d).
     Inr (bridge # rows, d)))"

definition no_charge_receipt :: "task_binding_snapshot \<Rightarrow> string \<Rightarrow> string \<Rightarrow> string \<Rightarrow> receipt_row" where
  "no_charge_receipt binding tb_kind rkey source_fp =
     \<lparr>rcp_bridge_receipt_id =
        ''ubq2b:'' @ mirror_digest (tbs_owner_user_id binding) (tbs_task_id binding) tb_kind rkey ''NO_CHARGE'',
      rcp_owner_user_id = tbs_owner_user_id binding, rcp_task_id = tbs_task_id binding,
      rcp_task_budget_kind = tb_kind, rcp_task_budget_reservation_key = rkey,
      rcp_mirror_dimension = ''NO_CHARGE'', rcp_source_payload_fingerprint = source_fp,
      rcp_window_epoch = None, rcp_ubq_reservation_id = None, rcp_ubq_idempotency_key = None,
      rcp_ubq_payload_fingerprint = None, rcp_amount_atomic = 0, rcp_capability_id = None\<rparr>"

definition mirror_resource :: "dual_accounting_settings \<Rightarrow> (nat \<Rightarrow> db \<Rightarrow> db) \<Rightarrow> task_binding_snapshot \<Rightarrow> string \<Rightarrow> string \<Rightarrow>
    string \<Rightarrow> mirror_dimension list \<Rightarrow> pydatetime \<Rightarrow> db \<Rightarrow> err + (receipt_row list \<times> db)" where
  "mirror_resource s race binding tb_kind rkey source_fp dims now d =
     bindR (requireR (dims \<noteq> []) ValueError) (\<lambda>_.
     bindR (existing_receipts d binding tb_kind rkey source_fp dims) (\<lambda>es.
     if None \<notin> set es then Inr (map the es, d)
     else if \<not> list_all (\<lambda>e. e = None) es then Inl UserBudgetConflictError
     else if length dims = 1 \<and> md_resource_kind (hd dims) = ''NO_CHARGE''
     then bindR (create_or_get_dual_accounting_receipt id (no_charge_receipt binding tb_kind rkey source_fp) d)
            (\<lambda>(row, d). Inr ([row], d))
     else bindR (ensure_active_shadow_window s race (tbs_owner_user_id binding) now d) (\<lambda>(window, d).
          mirror_all binding tb_kind rkey source_fp now dims window d)))"

section \<open>Reconciliation\<close>

definition get_task_budget :: "db \<Rightarrow> string \<Rightarrow> task_budget_row option" where
  "get_task_budget d task_id = List.find (\<lambda>b. tb_task_id b = task_id) (task_budgets d)"

definition get_task_budget_reservation :: "db \<Rightarrow> string \<Rightarrow> string \<Rightarrow> string \<Rightarrow> int \<Rightarrow> task_budget_reservation_row option" where
  "get_task_budget_reservation d task_id kind key generation =
     List.find (\<lambda>r. tbr_task_id r = task_id \<and> tbr_kind r = kind \<and> tbr_reservation_key r = key \<and>
                   tbr_incarnation_generation r = generation) (task_budget_reservations d)"

definition reconcile_receipt :: "db \<Rightarrow> string \<Rightarrow> int \<Rightarrow> receipt_row \<Rightarrow> err + recon_status" where
  "reconcile_receipt d task_id generation b =
     (case get_task_budget_reservation d task_id (rcp_task_budget_kind b) (rcp_task_budget_reservation_key b) generation of
        None \<Rightarrow> Inr SOURCE_RESERVATION_MISSING
      | Some source \<Rightarrow>
          if tbr_payload_fingerprint source \<noteq> rcp_source_payload_fingerprint b then Inr PAYLOAD_MISMATCH
          else if rcp_mirror_dimension b = ''NO_CHARGE'' then Inr RECON_OK
          else case get_reservation d (rcp_owner_user_id b) (py_str (rcp_ubq_idempotency_key b)) of
                 None \<Rightarrow> Inr MISSING_UBQ
               | Some ubq \<Rightarrow>
                   if res_reservation_id ubq \<noteq> py_str (rcp_ubq_reservation_id b) then Inr PAYLOAD_MISMATCH
                   else bindR (ofOption TypeError (rcp_window_epoch b)) (\<lambda>epoch.
                        Inr (if res_window_epoch ubq \<noteq> epoch \<or>
                                kind_value (res_resource_kind ubq) \<noteq> rcp_mirror_dimension b \<or>
                                res_payload_fingerprint ubq \<noteq> py_str (rcp_ubq_payload_fingerprint b) \<or>
                                res_state ubq \<noteq> SETTLED \<or>
                                (case res_settled_amount_atomic ubq of None \<Rightarrow> 0 | Some a \<Rightarrow> a) \<noteq> rcp_amount_atomic b \<or>
                                none_if_empty (res_capability_id ubq) \<noteq> none_if_empty (rcp_capability_id b)
                             then PAYLOAD_MISMATCH else RECON_OK)))"

definition plain_item :: "recon_status \<Rightarrow> string \<Rightarrow> reconciliation_item" where
  "plain_item status task_id =
     \<lparr>rec_status = status, rec_task_id = task_id, rec_bridge_receipt_id = None, rec_mirror_dimension = None\<rparr>"

definition bridge_item :: "recon_status \<Rightarrow> string \<Rightarrow> receipt_row \<Rightarrow> reconciliation_item" where
  "bridge_item status task_id b =
     \<lparr>rec_status = status, rec_task_id = task_id, rec_bridge_receipt_id = Some (rcp_bridge_receipt_id b),
      rec_mirror_dimension = Some (rcp_mirror_dimension b)\<rparr>"

definition reconcile_task :: "db \<Rightarrow> string \<Rightarrow> err + reconciliation_item list" where
  "reconcile_task d task_id =
     (if get_task_binding d task_id = None then Inr [plain_item LEGACY_UNBOUND task_id]
      else let bridges = list_dual_accounting_receipts d task_id
           in if task_id \<notin> tsk_id ` set (tasks d)
              then Inr (if bridges = [] then [plain_item SOURCE_ABSENT_UNPROVEN task_id]
                        else map (bridge_item SOURCE_ABSENT_UNPROVEN task_id) bridges)
              else case get_task_budget d task_id of
                     None \<Rightarrow> Inr [plain_item SOURCE_RESERVATION_MISSING task_id]
                   | Some budget \<Rightarrow>
                       if bridges = [] then Inr [plain_item RECON_OK task_id]
                       else mapR (\<lambda>b. bindR (reconcile_receipt d task_id (tb_incarnation_generation budget) b) (\<lambda>st.
                                   Inr (bridge_item st task_id b))) bridges)"

section \<open>Accounts and windows of the shadow policy\<close>

lemma select_shadow_policy_inv:
  assumes "select_shadow_policy owner p a d = Inr (a', d')" "budget_inv d"
  shows "budget_inv d'"
  using assms by (auto simp: select_shadow_policy_def split: option.splits if_splits intro: select_next_policy_inv)

lemma ensure_shadow_account_inv:
  assumes "ensure_shadow_account s race owner d = Inr (a, d')" "budget_inv d"
    and "\<And>i d. budget_inv d \<Longrightarrow> budget_inv (race i d)"
  shows "budget_inv d'"
proof -
  from assms(1) obtain expected p d1 a0 d2 a1 where
    "create_or_get_immutable_policy (race 0) expected d = Inr (p, d1)"
    "create_or_get_account (race 1) owner d1 = Inr (a0, d2)" "select_shadow_policy owner p a0 d2 = Inr (a1, d')"
    by (auto simp: ensure_shadow_account_def)
  with assms(2,3) show ?thesis
    by (meson create_or_get_immutable_policy_inv create_or_get_account_inv select_shadow_policy_inv)
qed

lemma ensure_active_shadow_windowE:
  assumes "ensure_active_shadow_window s race owner now d = Inr (w, d')" "budget_inv d"
    and "\<And>i d. budget_inv d \<Longrightarrow> budget_inv (race i d)"
  obtains a d1 where "ensure_shadow_account s race owner d = Inr (a, d1)" "budget_inv d1"
    "(active_window d1 owner = Some w \<and> d' = d1) \<or> rollover_window owner (acc_revision a) now d1 = Inr (w, d')"
proof -
  from assms(1) obtain a d1 where e: "ensure_shadow_account s race owner d = Inr (a, d1)"
    by (auto simp: ensure_active_shadow_window_def)
  from ensure_shadow_account_inv [OF e assms(2,3)] have inv: "budget_inv d1" .
  from assms(1) e get_active_window_inv [OF inv, of owner] show thesis
    by (intro that [OF e inv]) (auto simp: ensure_active_shadow_window_def split: option.splits if_splits)
qed

lemma rollover_window_member:
  assumes "rollover_window owner v now d = Inr (w, d')" "budget_inv d"
  shows "active_window d' owner = Some w"
  using assms
proof (cases rule: rollover_windowE)
  case (opened n account)
  then have "get_active_window d' owner = Inr (Some w)"
    by (auto simp: open_window_def Let_def split: option.splits if_splits)
  with get_active_window_inv [OF rollover_window_inv [OF assms], of owner] show ?thesis by simp
qed (use assms in simp)

section \<open>Mirroring keeps the ledger\<close>

lemma mirror_counter_delta:
  "mirror_counter kind = Inr c \<Longrightarrow>
   counter c' ((set_counters [(c, counter c w + amount)] w)\<lparr>win_revision := v\<rparr>) = counter c' w + settled_delta kind amount c'"
  by (cases kind; cases c') (auto simp: mirror_counter_def settled_delta_def counts_reserved_def)

lemma charge_tool_usageE:
  assumes "charge_tool_usage owner epoch cap amount d = Inr d'" "distinct (map tu_key (tool_usage d))"
  obtains us u u' where "us = tool_usage d \<or> insert_tool_usage (new_tool_usage owner epoch cap) d = Inr (d\<lparr>tool_usage := us\<rparr>)"
    "u \<in> set us" "tu_key u = (owner, epoch, cap)" "tu_key u' = tu_key u" "tool_usage_row_ok u'"
    "tu_used_calls u' = tu_used_calls u + amount" "tu_reserved_calls u' = tu_reserved_calls u"
    "d' = d\<lparr>tool_usage := replace_row tu_key u' us\<rparr>"
proof -
  from assms(1) obtain u0 d1 x where c: "create_or_get_tool_usage id owner epoch cap d = Inr (u0, d1)"
    and m: "mutate_tool_usage owner epoch cap (tu_revision u0) (tu_used_calls u0 + amount) (tu_reserved_calls u0) d1 = Inr (x, d')"
    by (auto simp: charge_tool_usage_def)
  from c have "\<exists>us. d1 = d\<lparr>tool_usage := us\<rparr> \<and>
    (us = tool_usage d \<or> insert_tool_usage (new_tool_usage owner epoch cap) d = Inr (d\<lparr>tool_usage := us\<rparr>)) \<and>
    distinct (map tu_key us) \<and> get_tool_usage d1 owner epoch cap = Some u0"
  proof (cases rule: create_or_get_tool_usageE)
    case existing
    then show ?thesis using assms(2) by (intro exI [of _ "tool_usage d"]) simp
  next
    case inserted
    then show ?thesis using assms(2) usage.ins_lookup [of owner epoch cap d d1]
      by (intro exI [of _ "tool_usage d1"]) (auto simp: insert_tool_usage_def split: if_splits)
  qed
  then obtain us where d1: "d1 = d\<lparr>tool_usage := us\<rparr>" "get_tool_usage d1 owner epoch cap = Some u0"
    and ins: "us = tool_usage d \<or> insert_tool_usage (new_tool_usage owner epoch cap) d = Inr (d\<lparr>tool_usage := us\<rparr>)"
    and dist: "distinct (map tu_key us)"
    by blast
  from dist d1(1) have "distinct (map tu_key (tool_usage d1))" by simp
  with m show thesis
  proof (rule mutate_tool_usageE)
    fix u assume u: "u \<in> set (tool_usage d1)" "tu_key u = (owner, epoch, cap)"
      "x = u\<lparr>tu_used_calls := tu_used_calls u0 + amount, tu_reserved_calls := tu_reserved_calls u0, tu_revision := tu_revision u0 + 1\<rparr>"
      "tool_usage_row_ok x" "d' = d1\<lparr>tool_usage := replace_row tu_key x (tool_usage d1)\<rparr>"
    from u(1,2) get_tool_usage_SomeD [OF d1(2)] dist d1(1) have "u = u0" by (auto dest: distinct_key_eq)
    with u d1(1) show thesis
      by (intro that [OF ins _ u(2) _ u(4)]) (auto simp: tu_key_def)
  qed
qed

text \<open>
  One mirrored dimension, in the order the code runs: reservation, window counter, capability
  counter, settlement, receipt. The receipt's primary key makes a reservation that already existed
  fail, so the reservation is always fresh.
\<close>

lemma mirror_oneE:
  assumes "mirror_one binding tb_kind rkey source_fp now dim w d = Inr (b, w', d')"
  obtains kind i r d1 c d2 d3 settled d4 where
    "kind_of_value (md_resource_kind dim) = Inr kind" "0 < md_amount_atomic dim"
    "mirror_intent binding tb_kind rkey (win_epoch w) kind dim = Inr i"
    "create_or_get_reservation id i d = Inr (r, d1)" "mirror_counter kind = Inr c"
    "mutate_window_usage (tbs_owner_user_id binding) (win_epoch w) (win_revision w)
       [(c, counter c w + md_amount_atomic dim)] d1 = Inr (w', d2)"
    "(if kind = TOOL_CALL
      then charge_tool_usage (tbs_owner_user_id binding) (win_epoch w') (or_empty (md_capability_id dim)) (md_amount_atomic dim) d2
      else Inr d2) = Inr d3"
    "transition_reservation (tbs_owner_user_id binding) (in_idempotency_key i) (res_revision r) SETTLED
       (Some (md_amount_atomic dim)) (Some now) d3 = Inr (settled, d4)"
    "create_or_get_dual_accounting_receipt id
       (charged_receipt binding tb_kind rkey source_fp kind dim (win_epoch w') settled) d4 = Inr (b, d')"
  using assms by (auto simp: mirror_one_def Let_def)

lemma mirror_intent_fields:
  assumes "mirror_intent binding tb_kind rkey epoch kind dim = Inr i"
  shows "in_owner_user_id i = tbs_owner_user_id binding" "in_window_epoch i = epoch" "in_resource_kind i = kind"
    "in_capability_id i = md_capability_id dim" "in_reserved_amount_atomic i = md_amount_atomic dim"
    "in_idempotency_key i = ''ubq2:v1:'' @ mirror_digest (tbs_owner_user_id binding) (tbs_task_id binding) tb_kind rkey (kind_value kind)"
    "capability_scope_ok kind (md_capability_id dim)"
  using assms by (auto simp: mirror_intent_def Let_def dest: make_intent_fields)

lemma transition_fresh:
  assumes "transition_reservation owner key v target amount at d3 = Inr (s, d4)" "target \<noteq> RESERVED"
    and "insert_reservation r d = Inr d1" "reservations d3 = reservations d1" "distinct (map res_key (reservations d))"
    and "res_key r = (owner, key)" "res_state r = RESERVED"
  obtains settled stamp where "settlement_fields target amount at = Inr (settled, stamp)"
    "s = r\<lparr>res_state := target, res_settled_amount_atomic := settled, res_settled_at := stamp, res_revision := v + 1\<rparr>"
    "reservation_row_ok s" "d4 = d3\<lparr>reservations := replace_row res_key s (reservations d @ [r])\<rparr>"
proof -
  have rs: "reservations d3 = reservations d @ [r]" and dist: "distinct (map res_key (reservations d3))"
    using assms(3-5) by (auto simp: insert_reservation_Inr)
  have found: "get_reservation d3 owner key = Some r"
    using find_fresh_key [of res_key r "reservations d"] assms(3,6) rs by (simp add: get_reservation_def insert_reservation_Inr)
  from assms(1) dist show thesis
  proof (cases rule: transition_reservationE)
    case replayed
    with found assms(2,7) show thesis by simp
  next
    case (moved r0 settled stamp)
    from moved(1,2) get_reservation_SomeD [OF found] dist have "r0 = r" by (auto dest: distinct_key_eq)
    with moved rs show thesis by (intro that) auto
  qed
qed

lemma charged_receipt_key:
  "kind_of_value (md_resource_kind dim) = Inr kind \<Longrightarrow>
   rcp_key (charged_receipt binding tb_kind rkey source_fp kind dim epoch settled) =
     (tbs_task_id binding, tb_kind, rkey, md_resource_kind dim)"
  by (auto simp: rcp_key_def charged_receipt_def dest: kind_of_value_Inr)

lemma mirror_window:
  assumes "mutate_window_usage owner (win_epoch w) (win_revision w) [(c, counter c w + amount)] d1 = Inr (w', d2)"
    and "mirror_counter kind = Inr c" "distinct (map win_key (windows d1))" "w \<in> set (windows d1)" "win_owner_user_id w = owner"
  shows "d2 = d1\<lparr>windows := replace_row win_key w' (windows d1)\<rparr>" "window_row_ok w'" "win_ident w' = win_ident w"
    "counter c' w' = counter c' w + settled_delta kind amount c'"
  using mutate_window_memberE [OF assms(1,3-5)] mirror_counter_delta [OF assms(2)] by simp_all

lemma insert_tool_usage_upd:
  "insert_tool_usage u d = Inr (d\<lparr>tool_usage := us\<rparr>) \<longleftrightarrow>
     tool_usage_row_ok u \<and> (tu_owner_user_id u, tu_window_epoch u) \<in> win_key ` set (windows d) \<and>
     tu_key u \<notin> tu_key ` set (tool_usage d) \<and> us = tool_usage d @ [u]"
proof -
  have "a = b" if "d\<lparr>tool_usage := a\<rparr> = d\<lparr>tool_usage := b\<rparr>" for a b
  proof -
    from that have "tool_usage (d\<lparr>tool_usage := a\<rparr>) = tool_usage (d\<lparr>tool_usage := b\<rparr>)" by (rule arg_cong)
    then show ?thesis by simp
  qed
  then show ?thesis by (auto simp: insert_tool_usage_def)
qed

lemma mirror_tool_row:
  assumes ch: "(if kind = TOOL_CALL then charge_tool_usage owner epoch (or_empty cap) amount d2 else Inr d2) = Inr d3"
    and inv: "budget_inv d" and same: "tool_usage d2 = tool_usage d" "win_key ` set (windows d2) = win_key ` set (windows d)"
    and scope: "capability_scope_ok kind cap" and w: "win_owner_user_id w = owner" "win_epoch w = epoch"
  obtains us us' where "d3 = d2\<lparr>tool_usage := us'\<rparr>" "budget_inv (d\<lparr>tool_usage := us\<rparr>)"
    "kind = TOOL_CALL \<Longrightarrow> (owner, epoch, cap) \<in> tu_tool ` set us"
    "\<And>x. tool_usage x = us' \<Longrightarrow> tool_row_shift (d\<lparr>tool_usage := us\<rparr>) x w cap (settled_delta kind amount)"
proof (cases "kind = TOOL_CALL")
  case False
  with scope have "cap = None" by (simp add: capability_scope_ok_def)
  with False ch inv same(1) show thesis
    by (intro that [of "tool_usage d" "tool_usage d"]) (auto simp: tool_row_shift_def settled_delta_tool)
next
  case True
  with scope obtain c where c: "cap = Some c" by (auto simp: capability_scope_ok_def)
  from inv same(1) have "distinct (map tu_key (tool_usage d2))" by (simp add: budget_inv_def wf_tool_usage_def)
  moreover from ch True c have "charge_tool_usage owner epoch c amount d2 = Inr d3" by (simp add: or_empty_def)
  ultimately show thesis
  proof (rule_tac charge_tool_usageE)
    fix us u u'
    assume us: "us = tool_usage d2 \<or> insert_tool_usage (new_tool_usage owner epoch c) d2 = Inr (d2\<lparr>tool_usage := us\<rparr>)"
      and u: "u \<in> set us" "tu_key u = (owner, epoch, c)" "tu_key u' = tu_key u" "tool_usage_row_ok u'"
        "tu_used_calls u' = tu_used_calls u + amount" "tu_reserved_calls u' = tu_reserved_calls u"
      and d3: "d3 = d2\<lparr>tool_usage := replace_row tu_key u' us\<rparr>"
    from us same have "us = tool_usage d \<or> insert_tool_usage (new_tool_usage owner epoch c) d = Inr (d\<lparr>tool_usage := us\<rparr>)"
      by (simp add: insert_tool_usage_upd)
    with inv have "budget_inv (d\<lparr>tool_usage := us\<rparr>)" by (auto intro: insert_tool_usage_inv)
    moreover have "(owner, epoch, cap) \<in> tu_tool ` set us"
      using u(1,2) c by (auto simp: tu_tool_def tu_key_def image_iff)
    moreover have "tool_row_shift (d\<lparr>tool_usage := us\<rparr>) x w cap (settled_delta kind amount)"
      if "tool_usage x = replace_row tu_key u' us" for x
      unfolding tool_row_shift_def c option.case
      using u w True that by (intro exI [of _ u] exI [of _ u']) (simp add: settled_delta_tool)
    ultimately show thesis using d3 by (intro that [of "replace_row tu_key u' us" us]) simp_all
  qed
qed

lemma mirrored_reservation_exists:
  assumes "mirrored_ok d" "get_reservation d owner (''ubq2:v1:'' @ dg) = Some r"
  shows "''ubq2b:'' @ dg \<in> rcp_bridge_receipt_id ` set (receipts d)"
proof -
  from get_reservation_SomeD [OF assms(2)] have "r \<in> set (reservations d)" "res_idempotency_key r = ''ubq2:v1:'' @ dg"
    by (auto simp: res_key_def)
  with assms(1) show ?thesis by (auto simp: mirrored_ok_def list_all_iff)
qed

lemma transition_receipts:
  "transition_reservation owner key v target amount at d = Inr (s, d') \<Longrightarrow> receipts d' = receipts d"
  by (auto simp: transition_reservation_def Let_def update_reservations_Inr split: if_splits option.splits)

lemma insert_receipt_upd:
  assumes "insert_receipt b d = Inr d'"
  shows "d' = d\<lparr>receipts := receipts d @ [b]\<rparr>" "rcp_bridge_receipt_id b \<notin> rcp_bridge_receipt_id ` set (receipts d)"
  using assms by (auto simp: insert_receipt_def split: if_splits)

lemma settled_shift:
  assumes "distinct (map res_key rs)" "res_key r \<notin> res_key ` set rs" "res_state r = RESERVED"
    "s = r\<lparr>res_state := SETTLED, res_settled_amount_atomic := Some amount, res_settled_at := stamp, res_revision := v\<rparr>"
  shows "ledger_shift rs (replace_row res_key s (rs @ [r])) (res_win r) (res_capability_id r)
           (settled_delta (res_resource_kind r) amount)"
proof -
  have "ledger_shift (rs @ [r]) (replace_row res_key s (rs @ [r])) (res_win r) (res_capability_id r)
      (\<lambda>c. contrib c s - contrib c r)"
    using assms by (intro ledger_shift_replace) (auto simp: res_key_def res_win_def)
  then have "ledger_shift rs (replace_row res_key s (rs @ [r])) (res_win r) (res_capability_id r)
      (\<lambda>c. contrib c r + (contrib c s - contrib c r))"
    by (rule ledger_shift_trans [OF ledger_shift_insert])
  then show ?thesis by (rule ledger_shift_cong) (use assms(4) in \<open>simp add: contrib_settled\<close>)
qed

lemma mirror_one_fresh:
  assumes m: "mirror_one binding tb_kind rkey source_fp now dim w d = Inr (b, w', d')" and inv: "budget_inv d"
    and w: "w \<in> set (windows d)" "win_owner_user_id w = tbs_owner_user_id binding"
    and fresh: "get_dual_accounting_receipt d (tbs_task_id binding, tb_kind, rkey, md_resource_kind dim) = None"
  obtains kind i r c d2 d3 settled d4 where
    "kind_of_value (md_resource_kind dim) = Inr kind" "mirror_intent binding tb_kind rkey (win_epoch w) kind dim = Inr i"
    "new_reservation i = Inr r" "insert_reservation r d = Inr (d\<lparr>reservations := reservations d @ [r]\<rparr>)"
    "mirror_counter kind = Inr c"
    "d2 = d\<lparr>reservations := reservations d @ [r], windows := replace_row win_key w' (windows d)\<rparr>"
    "window_row_ok w'" "win_ident w' = win_ident w"
    "\<And>c'. counter c' w' = counter c' w + settled_delta kind (md_amount_atomic dim) c'"
    "(if kind = TOOL_CALL
      then charge_tool_usage (tbs_owner_user_id binding) (win_epoch w) (or_empty (md_capability_id dim)) (md_amount_atomic dim) d2
      else Inr d2) = Inr d3"
    "transition_reservation (tbs_owner_user_id binding) (in_idempotency_key i) (res_revision r) SETTLED
       (Some (md_amount_atomic dim)) (Some now) d3 = Inr (settled, d4)"
    "b = charged_receipt binding tb_kind rkey source_fp kind dim (win_epoch w) settled"
    "d' = d4\<lparr>receipts := receipts d @ [b]\<rparr>"
  using m
proof (rule mirror_oneE)
  let ?owner = "tbs_owner_user_id binding" and ?amount = "md_amount_atomic dim"
  fix kind i r d1 c d2 d3 settled d4
  let ?b = "charged_receipt binding tb_kind rkey source_fp kind dim (win_epoch w') settled"
  let ?dg = "mirror_digest ?owner (tbs_task_id binding) tb_kind rkey (kind_value kind)"
  assume kind: "kind_of_value (md_resource_kind dim) = Inr kind"
    and i: "mirror_intent binding tb_kind rkey (win_epoch w) kind dim = Inr i"
    and r: "create_or_get_reservation id i d = Inr (r, d1)" and c: "mirror_counter kind = Inr c"
    and mw: "mutate_window_usage ?owner (win_epoch w) (win_revision w) [(c, counter c w + ?amount)] d1 = Inr (w', d2)"
    and mt: "(if kind = TOOL_CALL then charge_tool_usage ?owner (win_epoch w') (or_empty (md_capability_id dim)) ?amount d2
              else Inr d2) = Inr d3"
    and tr: "transition_reservation ?owner (in_idempotency_key i) (res_revision r) SETTLED (Some ?amount) (Some now) d3 = Inr (settled, d4)"
    and rc: "create_or_get_dual_accounting_receipt id ?b d4 = Inr (b, d')"
  note fields = mirror_intent_fields [OF i]
  from r have d1: "windows d1 = windows d" "tool_usage d1 = tool_usage d" "receipts d1 = receipts d"
    by (cases rule: create_or_get_reservationE; simp add: insert_reservation_Inr)+
  have dist: "distinct (map win_key (windows d))" "distinct (map tu_key (tool_usage d))"
    using inv by (auto simp: budget_inv_def wf_windows_def wf_tool_usage_def)
  note mw' = mirror_window [OF mw c _ _ w(2), unfolded d1, OF dist(1) w(1)]
  have epoch: "win_epoch w' = win_epoch w" using mw'(3) by (simp add: win_ident_def)
  have "receipts d3 = receipts d2"
  proof (cases "kind = TOOL_CALL")
    case True
    with mt have "charge_tool_usage ?owner (win_epoch w') (or_empty (md_capability_id dim)) ?amount d2 = Inr d3" by simp
    moreover have "distinct (map tu_key (tool_usage d2))" using mw'(1) dist d1 by simp
    ultimately show ?thesis by (rule charge_tool_usageE) simp
  qed (use mt in simp)
  with transition_receipts [OF tr] mw'(1) d1 have rcs: "receipts d4 = receipts d" by simp
  have "get_dual_accounting_receipt d4 (rcp_key ?b) = None"
    using fresh rcs charged_receipt_key [OF kind] by (simp add: get_dual_accounting_receipt_def)
  note b = create_or_get_receiptE [OF rc this]
  note b' = insert_receipt_upd [OF b(2)]
  from r show thesis
  proof (cases rule: create_or_get_reservationE)
    case existing
    with fields inv have "''ubq2b:'' @ ?dg \<in> rcp_bridge_receipt_id ` set (receipts d)"
      by (intro mirrored_reservation_exists [of d ?owner _ r]) (auto simp: budget_inv_def)
    with b'(2) rcs show thesis by (simp add: charged_receipt_def)
  next
    case inserted
    then have "d1 = d\<lparr>reservations := reservations d @ [r]\<rparr>" by (simp add: insert_reservation_Inr)
    with inserted(2) b(1) b'(1) mw'(1) epoch rcs show thesis
      by (intro that [OF kind i inserted(1) _ c _ mw'(2,3,4) mt [unfolded epoch] tr]) simp_all
  qed
qed

lemma mirrored_ok_charge:
  assumes "mirrored_ok d" "reservations d' = replace_row res_key s (reservations d @ [r])" "receipts d' = receipts d @ [b]"
    "res_idempotency_key s = ''ubq2:v1:'' @ dg" "rcp_bridge_receipt_id b = ''ubq2b:'' @ dg"
    "res_key s = res_key r"
  shows "mirrored_ok d'"
proof -
  have "x = s \<or> x \<in> set (reservations d)" if "x \<in> set (reservations d')" for x
    using that assms(2,6) by (auto dest!: in_replace_row)
  with assms show ?thesis by (fastforce simp: mirrored_ok_def list_all_iff)
qed

lemma mirror_one_inv:
  assumes m: "mirror_one binding tb_kind rkey source_fp now dim w d = Inr (b, w', d')" and inv: "budget_inv d"
    and w: "w \<in> set (windows d)" "win_owner_user_id w = tbs_owner_user_id binding"
    and fresh: "get_dual_accounting_receipt d (tbs_task_id binding, tb_kind, rkey, md_resource_kind dim) = None"
  shows "budget_inv d' \<and> w' \<in> set (windows d') \<and> win_ident w' = win_ident w \<and> receipts d' = receipts d @ [b] \<and>
    rcp_key b = (tbs_task_id binding, tb_kind, rkey, md_resource_kind dim) \<and> receipt_matches binding source_fp dim b \<and>
    (\<exists>kind. kind_value kind = md_resource_kind dim \<and>
      (\<forall>c. counter c w' = counter c w + settled_delta kind (md_amount_atomic dim) c))"
  using m inv w fresh
proof (rule mirror_one_fresh)
  let ?owner = "tbs_owner_user_id binding" and ?amount = "md_amount_atomic dim" and ?cap = "md_capability_id dim"
  fix kind i r c d2 d3 settled d4
  assume kind: "kind_of_value (md_resource_kind dim) = Inr kind"
    and i: "mirror_intent binding tb_kind rkey (win_epoch w) kind dim = Inr i" and r: "new_reservation i = Inr r"
    and ins: "insert_reservation r d = Inr (d\<lparr>reservations := reservations d @ [r]\<rparr>)"
    and d2: "d2 = d\<lparr>reservations := reservations d @ [r], windows := replace_row win_key w' (windows d)\<rparr>"
    and w': "window_row_ok w'" "win_ident w' = win_ident w" "\<And>c'. counter c' w' = counter c' w + settled_delta kind ?amount c'"
    and mt: "(if kind = TOOL_CALL then charge_tool_usage ?owner (win_epoch w) (or_empty ?cap) ?amount d2 else Inr d2) = Inr d3"
    and tr: "transition_reservation ?owner (in_idempotency_key i) (res_revision r) SETTLED (Some ?amount) (Some now) d3 = Inr (settled, d4)"
    and b: "b = charged_receipt binding tb_kind rkey source_fp kind dim (win_epoch w) settled"
    and d': "d' = d4\<lparr>receipts := receipts d @ [b]\<rparr>"
  note fields = mirror_intent_fields [OF i] and rf = new_reservation_fields [OF r]
  have tu: "tool_usage d2 = tool_usage d" "win_key ` set (windows d2) = win_key ` set (windows d)" using d2 by simp_all
  obtain us us' where d3: "d3 = d2\<lparr>tool_usage := us'\<rparr>" and inv0: "budget_inv (d\<lparr>tool_usage := us\<rparr>)"
    and tool: "kind = TOOL_CALL \<Longrightarrow> (?owner, win_epoch w, ?cap) \<in> tu_tool ` set us"
    and shift: "\<And>x. tool_usage x = us' \<Longrightarrow> tool_row_shift (d\<lparr>tool_usage := us\<rparr>) x w ?cap (settled_delta kind ?amount)"
    by (rule mirror_tool_row [OF mt inv tu fields(7) w(2) refl]) blast
  let ?d0 = "d\<lparr>tool_usage := us\<rparr>"
  have rkeys: "distinct (map res_key (reservations d))" using inv by (simp add: budget_inv_def wf_reservations_def)
  have rs3: "reservations d3 = reservations (d\<lparr>reservations := reservations d @ [r]\<rparr>)" using d3 d2 by simp
  obtain amount stamp where sf: "settlement_fields SETTLED (Some ?amount) (Some now) = Inr (amount, stamp)"
    and s: "settled = r\<lparr>res_state := SETTLED, res_settled_amount_atomic := amount, res_settled_at := stamp, res_revision := res_revision r + 1\<rparr>"
      "reservation_row_ok settled" "d4 = d3\<lparr>reservations := replace_row res_key settled (reservations d @ [r])\<rparr>"
    by (rule transition_fresh [OF tr _ ins rs3 rkeys]) (simp_all add: res_key_def rf fields)
  from sf have amount: "amount = Some ?amount" by (auto simp: settlement_fields_def)
  have rw: "res_win r = win_key w" "res_tool r = (?owner, win_epoch w, ?cap)" "res_capability_id r = ?cap" "res_resource_kind r = kind"
    using rf fields w(2) by (simp_all add: res_win_def win_key_def res_tool_def)
  have shift_r: "ledger_shift (reservations d) (replace_row res_key settled (reservations d @ [r])) (win_key w) ?cap (settled_delta kind ?amount)"
    using settled_shift [OF rkeys, where r = r and s = settled and amount = ?amount and stamp = stamp and v = "res_revision r + 1"] ins s(1) rf(8) amount
    unfolding rw by (simp add: insert_reservation_Inr)
  have rs': "reservations d' = replace_row res_key settled (reservations d @ [r])" "windows d' = replace_row win_key w' (windows d)"
    "tool_usage d' = us'" "policies d' = policies d" "accounts d' = accounts d" "receipts d' = receipts d @ [b]"
    using d' s(3) d3 d2 by simp_all
  have ch: "charged ?d0 d' w w' ?cap (settled_delta kind ?amount)"
    using w w' shift [OF rs'(3)] shift_r by (simp add: charged_def rs')
  have "res_table_ok ?d0 (reservations d @ [r])"
    using res_table_insert [of r ?d0] budget_inv_res_table [OF inv0] ins tool by (simp add: insert_reservation_Inr rw)
  then have res: "res_table_ok ?d0 (reservations d')"
    unfolding rs'(1) by (rule res_table_replace [of _ _ r]) (use s in \<open>simp_all add: res_key_def res_tool_def\<close>)
  have "mirrored_ok d'"
  proof (rule mirrored_ok_charge [OF _ rs'(1,6)])
    show "mirrored_ok d" using inv by (simp add: budget_inv_def)
    show "res_idempotency_key settled = ''ubq2:v1:'' @ mirror_digest ?owner (tbs_task_id binding) tb_kind rkey (kind_value kind)"
      unfolding s(1) by (simp add: rf fields)
    show "rcp_bridge_receipt_id b = ''ubq2b:'' @ mirror_digest ?owner (tbs_task_id binding) tb_kind rkey (kind_value kind)"
      unfolding b by (simp add: charged_receipt_def)
    show "res_key settled = res_key r" unfolding s(1) by (simp add: res_key_def)
  qed
  from budget_inv_charge [OF inv0 ch res this] have "budget_inv d'" .
  moreover have "w' \<in> set (windows d')" using w(1) win_ident_key [OF w'(2)] by (auto simp: rs' intro: replaced_in_row)
  ultimately show ?thesis
    using w' rs' b kind charged_receipt_key [OF kind] kind_of_value_Inr [OF kind]
    by (auto simp: charged_receipt_def receipt_matches_def)
qed

definition kind_amount :: "mirror_dimension list \<Rightarrow> window_counter \<Rightarrow> int" where
  "kind_amount dims c =
     sum_list (map (\<lambda>dim. if md_resource_kind dim = kind_value (counter_kind c) \<and> \<not> counts_reserved c
                          then md_amount_atomic dim else 0) dims)"

lemma kind_amount_Nil [simp]: "kind_amount [] c = 0"
  by (simp add: kind_amount_def)

lemma kind_amount_Cons:
  assumes "kind_value kind = md_resource_kind dim"
  shows "kind_amount (dim # dims) c = settled_delta kind (md_amount_atomic dim) c + kind_amount dims c"
proof -
  have "md_resource_kind dim = kind_value (counter_kind c) \<longleftrightarrow> counter_kind c = kind"
    unfolding assms [symmetric] by auto
  then show ?thesis by (simp add: kind_amount_def settled_delta_def)
qed

lemma mirror_all_inv:
  assumes "mirror_all binding tb_kind rkey source_fp now dims w d = Inr (bs, d')" "budget_inv d"
    and "w \<in> set (windows d)" "win_owner_user_id w = tbs_owner_user_id binding"
    and "distinct (map md_resource_kind dims)"
    and "\<forall>dim \<in> set dims. get_dual_accounting_receipt d (tbs_task_id binding, tb_kind, rkey, md_resource_kind dim) = None"
  shows "budget_inv d' \<and> receipts d' = receipts d @ bs \<and>
    map rcp_key bs = map (\<lambda>dim. (tbs_task_id binding, tb_kind, rkey, md_resource_kind dim)) dims \<and>
    list_all2 (receipt_matches binding source_fp) dims bs \<and>
    (\<exists>w' \<in> set (windows d'). win_ident w' = win_ident w \<and> (\<forall>c. counter c w' = counter c w + kind_amount dims c))"
  using assms
proof (induction dims arbitrary: w d bs)
  case Nil
  then show ?case by auto
next
  case (Cons dim dims)
  from Cons.prems(1) obtain b w1 d1 bs' where one: "mirror_one binding tb_kind rkey source_fp now dim w d = Inr (b, w1, d1)"
    and rest: "mirror_all binding tb_kind rkey source_fp now dims w1 d1 = Inr (bs', d')" and bs: "bs = b # bs'"
    by auto
  have "get_dual_accounting_receipt d (tbs_task_id binding, tb_kind, rkey, md_resource_kind dim) = None" using Cons.prems by simp
  note m = mirror_one_inv [OF one Cons.prems(2-4) this]
  then obtain kind where kind: "kind_value kind = md_resource_kind dim"
    and w1: "\<forall>c. counter c w1 = counter c w + settled_delta kind (md_amount_atomic dim) c" by blast
  have own: "win_owner_user_id w1 = tbs_owner_user_id binding" using m Cons.prems(4) by (simp add: win_ident_def)
  have none: "\<forall>x \<in> set dims. get_dual_accounting_receipt d1 (tbs_task_id binding, tb_kind, rkey, md_resource_kind x) = None"
    using Cons.prems(5,6) m by (auto simp: get_dual_accounting_receipt_def find_append split: option.splits)
  from Cons.IH [OF rest _ _ own _ none] m Cons.prems(5) have
    ih: "budget_inv d' \<and> receipts d' = receipts d1 @ bs' \<and>
      map rcp_key bs' = map (\<lambda>dim. (tbs_task_id binding, tb_kind, rkey, md_resource_kind dim)) dims \<and>
      list_all2 (receipt_matches binding source_fp) dims bs' \<and>
      (\<exists>w' \<in> set (windows d'). win_ident w' = win_ident w1 \<and> (\<forall>c. counter c w' = counter c w1 + kind_amount dims c))"
    by simp
  then obtain w' where "w' \<in> set (windows d')" "win_ident w' = win_ident w1" "\<forall>c. counter c w' = counter c w1 + kind_amount dims c"
    by blast
  with m w1 kind have "\<exists>w' \<in> set (windows d'). win_ident w' = win_ident w \<and> (\<forall>c. counter c w' = counter c w + kind_amount (dim # dims) c)"
    by (intro bexI [of _ w']) (simp_all add: kind_amount_Cons [OF kind])
  with ih m bs show ?case by simp
qed

lemma existing_receipts_lookup:
  "existing_receipts d binding tb_kind rkey source_fp dims = Inr es \<Longrightarrow>
   es = map (\<lambda>dim. get_dual_accounting_receipt d (tbs_task_id binding, tb_kind, rkey, md_resource_kind dim)) dims \<and>
   list_all2 (\<lambda>dim e. case e of None \<Rightarrow> True | Some b \<Rightarrow> receipt_matches binding source_fp dim b) dims es"
  by (induction dims arbitrary: es) (auto simp: Let_def)

lemma ensure_active_shadow_window_inv:
  assumes "ensure_active_shadow_window s race owner now d = Inr (w, d')" "budget_inv d"
    and "\<And>i d. budget_inv d \<Longrightarrow> budget_inv (race i d)"
  shows "budget_inv d' \<and> active_window d' owner = Some w"
  using assms
proof (rule ensure_active_shadow_windowE)
  fix a d1 assume "budget_inv d1"
    "(active_window d1 owner = Some w \<and> d' = d1) \<or> rollover_window owner (acc_revision a) now d1 = Inr (w, d')"
  then show ?thesis by (auto dest: rollover_window_inv rollover_window_member)
qed

section \<open>The service operations keep the invariant\<close>

text \<open>
  The dimensions the callers build: distinct resource kinds, and \<open>NO_CHARGE\<close> stands alone with
  amount zero.
\<close>

definition dims_ok :: "mirror_dimension list \<Rightarrow> bool" where
  "dims_ok dims \<longleftrightarrow>
     distinct (map md_resource_kind dims) \<and>
     list_all (\<lambda>dim. md_resource_kind dim = ''NO_CHARGE'' \<longrightarrow>
       length dims = 1 \<and> md_amount_atomic dim = 0 \<and> none_if_empty (md_capability_id dim) = None) dims"

lemma inference_dimensions_ok: "dims_ok inference_dimensions"
  by (simp add: dims_ok_def inference_dimensions_def)

lemma tool_call_dimensions_ok: "tool_call_dimensions cap = Inr dims \<Longrightarrow> dims_ok dims"
  by (auto simp: dims_ok_def tool_call_dimensions_def)

lemma usage_dimensions_ok: "usage_dimensions tokens cost = Inr dims \<Longrightarrow> dims_ok dims"
  by (auto simp: dims_ok_def usage_dimensions_def Let_def none_if_empty_def)

lemma mirror_resourceE:
  assumes "mirror_resource s race binding tb_kind rkey source_fp dims now d = Inr (bs, d')"
  obtains (replay) "map (\<lambda>dim. get_dual_accounting_receipt d (tbs_task_id binding, tb_kind, rkey, md_resource_kind dim)) dims = map Some bs"
      "existing_receipts d binding tb_kind rkey source_fp dims = Inr (map Some bs)" "d' = d" "dims \<noteq> []"
  | (no_charge) dim b where "dims = [dim]" "md_resource_kind dim = ''NO_CHARGE''" "bs = [b]"
      "get_dual_accounting_receipt d (tbs_task_id binding, tb_kind, rkey, ''NO_CHARGE'') = None"
      "create_or_get_dual_accounting_receipt id (no_charge_receipt binding tb_kind rkey source_fp) d = Inr (b, d')"
  | (charged) w d1 where "dims \<noteq> []"
      "\<forall>dim \<in> set dims. get_dual_accounting_receipt d (tbs_task_id binding, tb_kind, rkey, md_resource_kind dim) = None"
      "ensure_active_shadow_window s race (tbs_owner_user_id binding) now d = Inr (w, d1)"
      "mirror_all binding tb_kind rkey source_fp now dims w d1 = Inr (bs, d')"
proof -
  let ?get = "\<lambda>dim. get_dual_accounting_receipt d (tbs_task_id binding, tb_kind, rkey, md_resource_kind dim)"
  from assms obtain es where ne: "dims \<noteq> []" and es: "existing_receipts d binding tb_kind rkey source_fp dims = Inr es"
    by (auto simp: mirror_resource_def)
  note look = existing_receipts_lookup [OF es, THEN conjunct1]
  consider (all) "None \<notin> set es" | (some) "None \<in> set es" "\<not> list_all (\<lambda>e. e = None) es"
    | (none) "None \<in> set es" "list_all (\<lambda>e. e = None) es" by blast
  then show thesis
  proof cases
    case all
    then have "es = map Some (map the es)" by (induction es) auto
    with all assms ne es look show thesis by (intro replay) (auto simp: mirror_resource_def)
  next
    case some
    with assms ne es show thesis by (auto simp: mirror_resource_def)
  next
    case none
    then have nn: "\<forall>dim \<in> set dims. ?get dim = None" by (auto simp: look list_all_iff)
    show thesis
    proof (cases "length dims = 1 \<and> md_resource_kind (hd dims) = ''NO_CHARGE''")
      case True
      then obtain dim where "dims = [dim]" by (cases dims) auto
      with True nn assms ne es none show thesis by (intro no_charge [of dim "hd bs"]) (auto simp: mirror_resource_def)
    next
      case False
      with nn assms ne es none show thesis by (auto simp: mirror_resource_def intro: charged)
    qed
  qed
qed

text \<open>
  What the mirroring transaction relies on: other transactions keep the invariant, and none of them
  adds a receipt for this task, because the caller has already updated the task's budget row in the
  same transaction (\<open>src/se/src/runtimes/agent/task_budget.py\<close>, \<open>_mutate_enrolled_resource\<close>).
\<close>

definition race_ok :: "string \<Rightarrow> (nat \<Rightarrow> db \<Rightarrow> db) \<Rightarrow> bool" where
  "race_ok task_id race \<longleftrightarrow>
     (\<forall>i d. budget_inv d \<longrightarrow> budget_inv (race i d)) \<and>
     (\<forall>i d k. get_dual_accounting_receipt (race i d) (task_id, k) = get_dual_accounting_receipt d (task_id, k))"

lemma race_ok_id: "race_ok task_id (\<lambda>_ d. d)"
  by (simp add: race_ok_def)

lemma get_receipt_cong: "receipts d = receipts d' \<Longrightarrow> get_dual_accounting_receipt d k = get_dual_accounting_receipt d' k"
  by (simp add: get_dual_accounting_receipt_def)

lemma open_window_receipts:
  "open_window owner v now a active d = Inr (w, d') \<Longrightarrow> receipts d' = receipts d"
  by (auto simp: open_window_def Let_def close_window_def advance_account_def insert_window_def update_windows_Inr
      update_accounts_Inr split: option.splits if_splits)

lemma rollover_window_receipts: "rollover_window owner v now d = Inr (w, d') \<Longrightarrow> receipts d' = receipts d"
  by (auto simp: rollover_window_def split: option.splits if_splits dest: open_window_receipts)

lemma create_policy_receipts:
  "create_or_get_immutable_policy race p d = Inr (r, d') \<Longrightarrow> receipts d' = receipts d \<or> receipts d' = receipts (race d)"
  by (auto simp: create_or_get_immutable_policy_def create_or_get_def insert_policy_def
      split: option.splits sum.splits if_splits)

lemma create_account_receipts:
  "create_or_get_account race owner d = Inr (r, d') \<Longrightarrow> receipts d' = receipts d \<or> receipts d' = receipts (race d)"
  by (auto simp: create_or_get_account_def create_or_get_def insert_account_def
      split: option.splits sum.splits if_splits)

lemma select_shadow_receipts: "select_shadow_policy owner p a d = Inr (a', d') \<Longrightarrow> receipts d' = receipts d"
  by (auto simp: select_shadow_policy_def select_next_policy_def Let_def update_accounts_Inr split: option.splits if_splits)

lemma ensure_window_receipts:
  assumes "ensure_active_shadow_window s race owner now d = Inr (w, d')" "budget_inv d" "race_ok task_id race"
  shows "get_dual_accounting_receipt d' (task_id, k) = get_dual_accounting_receipt d (task_id, k)"
  using assms(1,2) _
proof (rule ensure_active_shadow_windowE)
  show "\<And>i d. budget_inv d \<Longrightarrow> budget_inv (race i d)" using assms(3) by (simp add: race_ok_def)
  fix a d1 assume e: "ensure_shadow_account s race owner d = Inr (a, d1)"
    and r: "(active_window d1 owner = Some w \<and> d' = d1) \<or> rollover_window owner (acc_revision a) now d1 = Inr (w, d')"
  have race: "get_dual_accounting_receipt (race i x) (task_id, k) = get_dual_accounting_receipt x (task_id, k)" for i x
    using assms(3) by (cases k) (simp add: race_ok_def)
  from e obtain expected p d2 a0 d3 a1 where
    "create_or_get_immutable_policy (race 0) expected d = Inr (p, d2)"
    "create_or_get_account (race 1) owner d2 = Inr (a0, d3)" "select_shadow_policy owner p a0 d3 = Inr (a1, d1)"
    by (auto simp: ensure_shadow_account_def)
  then have "get_dual_accounting_receipt d2 (task_id, k) = get_dual_accounting_receipt d (task_id, k)"
    "get_dual_accounting_receipt d3 (task_id, k) = get_dual_accounting_receipt d2 (task_id, k)"
    "get_dual_accounting_receipt d1 (task_id, k) = get_dual_accounting_receipt d3 (task_id, k)"
    using race create_policy_receipts create_account_receipts select_shadow_receipts by (metis get_receipt_cong)+
  with r show ?thesis using get_receipt_cong rollover_window_receipts by metis
qed

lemma mirror_resource_charged:
  assumes "ensure_active_shadow_window s race (tbs_owner_user_id binding) now d = Inr (w, d1)"
    and "mirror_all binding tb_kind rkey source_fp now dims w d1 = Inr (bs, d')"
    and "budget_inv d" "dims_ok dims" "race_ok (tbs_task_id binding) race"
    and "\<forall>dim \<in> set dims. get_dual_accounting_receipt d (tbs_task_id binding, tb_kind, rkey, md_resource_kind dim) = None"
  shows "budget_inv d' \<and> receipts d' = receipts d1 @ bs \<and>
    map rcp_key bs = map (\<lambda>dim. (tbs_task_id binding, tb_kind, rkey, md_resource_kind dim)) dims \<and>
    list_all2 (receipt_matches binding source_fp) dims bs \<and>
    (\<exists>w' \<in> set (windows d'). win_ident w' = win_ident w \<and> (\<forall>c. counter c w' = counter c w + kind_amount dims c))"
proof -
  have race: "\<And>i d. budget_inv d \<Longrightarrow> budget_inv (race i d)" using assms(5) by (simp add: race_ok_def)
  note e = ensure_active_shadow_window_inv [OF assms(1,3) race]
  then have w: "w \<in> set (windows d1)" "win_owner_user_id w = tbs_owner_user_id binding"
    by (auto dest: active_window_SomeD)
  have "\<forall>dim \<in> set dims. get_dual_accounting_receipt d1 (tbs_task_id binding, tb_kind, rkey, md_resource_kind dim) = None"
    using assms(6) ensure_window_receipts [OF assms(1,3,5)] by simp
  with mirror_all_inv [OF assms(2) _ w] e assms(4) show ?thesis by (simp add: dims_ok_def)
qed

lemma mirror_resource_inv:
  assumes "mirror_resource s race binding tb_kind rkey source_fp dims now d = Inr (bs, d')" "budget_inv d" "dims_ok dims"
    and "race_ok (tbs_task_id binding) race"
  shows "budget_inv d'"
  using assms(1)
proof (cases rule: mirror_resourceE)
  case (no_charge dim b)
  with assms(2) show ?thesis by (auto intro: create_or_get_receipt_inv)
next
  case (charged w d1)
  from mirror_resource_charged [OF charged(3,4) assms(2-4) charged(2)] show ?thesis by simp
qed (use assms(2) in simp)

lemma prepare_enrollment_inv:
  assumes "prepare_enrollment s race parent ident d = Inr (res, d')" "budget_inv d"
    and "\<And>i d. budget_inv d \<Longrightarrow> budget_inv (race i d)"
  shows "budget_inv d'"
proof -
  from assms(1) obtain r a d2 where e: "ensure_shadow_account s race (bor_owner_user_id r) d = Inr (a, d2)"
    and p: "(case parent of None \<Rightarrow> Inr (r, d2)
       | Some parent \<Rightarrow> (case get_task_binding d2 parent of None \<Rightarrow> Inl UserBudgetParentUnboundError
          | Some b \<Rightarrow> if bnd_owner_user_id b \<noteq> bor_owner_user_id r then Inl UserBudgetParentOwnerMismatchError
                      else Inr (r, d2))) = Inr (res, d')"
    by (auto simp: prepare_enrollment_def)
  from p have "d' = d2" by (auto split: option.splits if_splits)
  with ensure_shadow_account_inv [OF e assms(2,3)] show ?thesis by simp
qed

lemma bind_prepared_task_inv:
  assumes "bind_prepared_task race task_id res d = Inr (snap, d')" "budget_inv d" "budget_inv (race d)"
  shows "budget_inv d'"
  using assms by (auto simp: bind_prepared_task_def intro: create_task_binding_inv)

section \<open>Properties\<close>

text \<open>
  C3. Mirroring a charge is exact: a successful call either finds every receipt already there and
  writes nothing, or records a zero charge, or adds to the used counters of the owner's active
  window exactly the amounts of the dimensions, one receipt per dimension, and the counters stay
  equal to the sums of the reservations.
\<close>

theorem mirror_charges_exactly:
  assumes "mirror_resource s race binding tb_kind rkey source_fp dims now d = Inr (bs, d')"
    and "budget_inv d" "dims_ok dims" "race_ok (tbs_task_id binding) race"
  shows "budget_inv d' \<and> list_all2 (receipt_matches binding source_fp) dims bs \<and>
    (d' = d \<or> map md_resource_kind dims = [''NO_CHARGE''] \<and> windows d' = windows d \<or>
     (\<exists>w d1. ensure_active_shadow_window s race (tbs_owner_user_id binding) now d = Inr (w, d1) \<and>
        receipts d' = receipts d1 @ bs \<and>
        (\<exists>w' \<in> set (windows d'). win_key w' = win_key w \<and> (\<forall>c. counter c w' = counter c w + kind_amount dims c))))"
  using assms(1)
proof (cases rule: mirror_resourceE)
  case replay
  with existing_receipts_lookup [OF replay(2)] assms(2) show ?thesis
    by (simp add: list.rel_map)
next
  case (no_charge dim b)
  have key: "rcp_key (no_charge_receipt binding tb_kind rkey source_fp) = (tbs_task_id binding, tb_kind, rkey, ''NO_CHARGE'')"
    by (simp add: rcp_key_def no_charge_receipt_def)
  note b = create_or_get_receiptE [OF no_charge(5), unfolded key, OF no_charge(4)]
  have "receipt_matches binding source_fp dim b"
    using assms(3) no_charge(1,2) b(1) by (simp add: dims_ok_def receipt_matches_def no_charge_receipt_def none_if_empty_def)
  with no_charge insert_receipt_upd(1) [OF b(2)] mirror_resource_inv [OF assms] show ?thesis by simp
next
  case (charged w d1)
  from mirror_resource_charged [OF charged(3,4) assms(2-4) charged(2)] charged(3) show ?thesis
    by (auto dest: win_ident_key)
qed

lemma existing_receipts_all:
  assumes "list_all2 (receipt_matches binding source_fp) dims bs"
    and "map (\<lambda>dim. get_dual_accounting_receipt d (tbs_task_id binding, tb_kind, rkey, md_resource_kind dim)) dims = map Some bs"
  shows "existing_receipts d binding tb_kind rkey source_fp dims = Inr (map Some bs)"
  using assms by (induction rule: list_all2_induct) simp_all

lemma find_appended_keys:
  assumes "map k bs = map g xs" "distinct (map g xs)" "\<forall>x \<in> set xs. List.find (\<lambda>r. k r = g x) rs = None"
  shows "map (\<lambda>x. List.find (\<lambda>r. k r = g x) (rs @ bs)) xs = map Some bs"
proof (rule nth_equalityI)
  show len: "length (map (\<lambda>x. List.find (\<lambda>r. k r = g x) (rs @ bs)) xs) = length (map Some bs)"
    using assms(1) map_eq_imp_length_eq by fastforce
  fix i assume "i < length (map (\<lambda>x. List.find (\<lambda>r. k r = g x) (rs @ bs)) xs)"
  then have i: "i < length xs" "i < length bs" using len by auto
  then have "k (bs ! i) = g (xs ! i)" using assms(1) by (metis nth_map)
  moreover have "distinct (map k bs)" using assms(1,2) by simp
  ultimately show "map (\<lambda>x. List.find (\<lambda>r. k r = g x) (rs @ bs)) xs ! i = map Some bs ! i"
    using i assms(3) find_key [of k bs "bs ! i"] by (simp add: find_append)
qed

text \<open>After mirroring, every dimension has the receipt that was returned for it.\<close>

lemma mirror_resource_receipts:
  assumes "mirror_resource s race binding tb_kind rkey source_fp dims now d = Inr (bs, d')"
    and "budget_inv d" "dims_ok dims" "race_ok (tbs_task_id binding) race"
  shows "dims \<noteq> [] \<and> existing_receipts d' binding tb_kind rkey source_fp dims = Inr (map Some bs)"
proof -
  let ?get = "\<lambda>dim. get_dual_accounting_receipt d' (tbs_task_id binding, tb_kind, rkey, md_resource_kind dim)"
  show ?thesis
    using assms(1)
  proof (cases rule: mirror_resourceE)
    case (no_charge dim b)
    have key: "rcp_key (no_charge_receipt binding tb_kind rkey source_fp) = (tbs_task_id binding, tb_kind, rkey, ''NO_CHARGE'')"
      by (simp add: rcp_key_def no_charge_receipt_def)
    note b = create_or_get_receiptE [OF no_charge(5), unfolded key, OF no_charge(4)]
    from receipt.ins_lookup [OF b(2)] key have "?get dim = Some b" using no_charge(2) b(1) by simp
    moreover have "receipt_matches binding source_fp dim b"
      using assms(3) no_charge(1,2) b(1) by (simp add: dims_ok_def receipt_matches_def no_charge_receipt_def none_if_empty_def)
    ultimately show ?thesis using no_charge(1,3) by simp
  next
    case (charged w d1)
    note m = mirror_resource_charged [OF charged(3,4) assms(2-4) charged(2)]
    have none: "\<forall>dim \<in> set dims. get_dual_accounting_receipt d1 (tbs_task_id binding, tb_kind, rkey, md_resource_kind dim) = None"
      using charged(2) ensure_window_receipts [OF charged(3) assms(2,4)] by simp
    have "distinct (map (\<lambda>dim. (tbs_task_id binding, tb_kind, rkey, md_resource_kind dim)) dims)"
      using assms(3) by (auto simp: dims_ok_def distinct_map inj_on_def)
    with none m find_appended_keys [of rcp_key bs "\<lambda>dim. (tbs_task_id binding, tb_kind, rkey, md_resource_kind dim)" dims "receipts d1"]
    have "map ?get dims = map Some bs" by (simp add: get_dual_accounting_receipt_def)
    with m charged(1) show ?thesis by (simp add: existing_receipts_all)
  qed simp
qed

text \<open>
  C5. Mirroring is idempotent: repeating the call with the same arguments, at any later time and
  under any races, returns the same receipts and changes nothing.
\<close>

theorem mirror_replay:
  assumes "mirror_resource s race binding tb_kind rkey source_fp dims now d = Inr (bs, d')"
    and "budget_inv d" "dims_ok dims" "race_ok (tbs_task_id binding) race"
  shows "mirror_resource s race' binding tb_kind rkey source_fp dims now' d' = Inr (bs, d')"
  using mirror_resource_receipts [OF assms] by (simp add: mirror_resource_def comp_def)

text \<open>
  C7. Budget ownership: a resolved owner is a durable user; administrators and guests never own a
  budget; a principal with a user id owns its own budget; otherwise the principal is an active API
  key and the owner is the owner of the organization of the key's application, and the identity
  names exactly that application and organization.
\<close>

theorem resolve_budget_owner_sound:
  assumes "resolve_budget_owner d ident = Inr res"
  shows "bor_owner_user_id res \<in> set (users d) \<and> id_auth_type ident \<in> {jwt, api_key} \<and>
    (case none_if_empty (id_user_id ident) of
       Some uid \<Rightarrow> bor_owner_user_id res = uid
     | None \<Rightarrow> id_auth_type ident = api_key \<and>
         (\<exists>key \<in> set (api_keys d). \<exists>app \<in> set (applications d). \<exists>org \<in> set (organizations d).
            id_api_key_id ident = Some (key_id key) \<and> key_status key = ''active'' \<and>
            key_application_id key = app_id app \<and> app_organization_id app = org_id org \<and>
            or_empty (id_application_id ident) = app_id app \<and> or_empty (id_organization_id ident) = org_id org \<and>
            bor_owner_user_id res = org_owner_id org))"
proof -
  have auth: "id_auth_type ident \<in> {jwt, api_key}"
    using assms by (cases "id_auth_type ident") (auto simp: resolve_budget_owner_def)
  show ?thesis
  proof (cases "none_if_empty (id_user_id ident)")
    case (Some uid)
    with assms auth show ?thesis by (auto simp: resolve_budget_owner_def resolution_def split: if_splits)
  next
    case None
    with assms auth obtain kid where kid: "none_if_empty (id_api_key_id ident) = Some kid"
      by (auto simp: resolve_budget_owner_def split: option.splits if_splits)
    then have "id_api_key_id ident = Some kid" by (auto simp: none_if_empty_def split: option.splits if_splits)
    moreover from assms None kid auth obtain key app org where
      f: "List.find (\<lambda>k. key_id k = kid) (api_keys d) = Some key"
        "List.find (\<lambda>a. app_id a = key_application_id key) (applications d) = Some app"
        "List.find (\<lambda>g. org_id g = app_organization_id app) (organizations d) = Some org"
      and g: "id_auth_type ident = api_key" "key_status key = ''active''" "or_empty (id_application_id ident) = app_id app"
        "or_empty (id_organization_id ident) = org_id org" "org_owner_id org \<in> set (users d)"
        "bor_owner_user_id res = org_owner_id org"
      by (auto simp: resolve_budget_owner_def resolution_def split: if_splits)
    moreover note mem = f [THEN find_SomeD]
    ultimately have "\<exists>key \<in> set (api_keys d). \<exists>app \<in> set (applications d). \<exists>org \<in> set (organizations d).
        id_api_key_id ident = Some (key_id key) \<and> key_status key = ''active'' \<and>
        key_application_id key = app_id app \<and> app_organization_id app = org_id org \<and>
        or_empty (id_application_id ident) = app_id app \<and> or_empty (id_organization_id ident) = org_id org \<and>
        bor_owner_user_id res = org_owner_id org"
      by (intro bexI [OF _ mem(1) [THEN conjunct1]] bexI [OF _ mem(2) [THEN conjunct1]] bexI [OF _ mem(3) [THEN conjunct1]])
        auto
    with None g show ?thesis by simp
  qed
qed

text \<open>
  C8. The automatic shadow policy is recognised as such exactly when the configured policy version
  starts with \<open>ubq2-shadow-\<close>.
\<close>

theorem shadow_policy_recognized:
  assumes "shadow_policy s owner = Inr p" "durable_values p = Inr row"
  shows "is_recognized_shadow_policy row = Inr (starts_with (das_policy_version s) ''ubq2-shadow-'')"
proof -
  let ?pid = "shadow_policy_id owner (das_policy_version s) (das_window_duration_seconds s)"
  from assms(1) have p: "unbounded_policy ?pid owner (das_policy_version s) (das_window_duration_seconds s) = Inr p"
    by (simp add: shadow_policy_def)
  then have fields: "policy_id p = ?pid" "owner_user_id p = owner" "policy_version p = das_policy_version s"
    "window_duration_seconds p = das_window_duration_seconds s" "max_compute_units p = None" "max_inference_calls p = None"
    "max_input_tokens p = None" "max_output_tokens p = None" "max_total_tokens p = None" "max_tool_calls_total p = None"
    "default_per_tool_limit p = None" "tool_limits p = []" "max_cost_usd p = None"
    by (auto simp: unbounded_policy_def make_policy_def validate_tool_limits_def normalize_optional_decimal_limit_def
        pydantic_wrap_def unwrapped_def)
  from assms(2) obtain fp where fp: "policy_fingerprint p = Inr fp" by (auto simp: durable_values_def)
  with assms(2) fields have row: "pol_policy_id row = ?pid" "pol_owner_user_id row = owner"
    "pol_policy_version row = das_policy_version s" "pol_window_duration_seconds row = das_window_duration_seconds s"
    "pol_tool_limits_json row = []" "unlimited_row row" "pol_policy_fingerprint row = fp"
    by (auto simp: durable_values_def atomic_limit_def unlimited_row_def)
  then show ?thesis by (simp add: is_recognized_shadow_policy_def p fp)
qed

end
