(* ===== verification/Budget_Errors.thy ===== *)
theory Budget_Errors
  imports Dual_Accounting
begin

text \<open>
  The services end their retry loops with \<open>raise AssertionError("unreachable ...")\<close>. The lemmas
  here show that no operation below the loops raises AssertionError itself, so that an
  AssertionError seen by a caller can only come from running off a loop. They are collected in
  \<open>no_assert\<close>.
\<close>

named_theorems no_assert \<open>operations that never raise AssertionError\<close>

lemma na_decimal_of [no_assert]: "decimal_of v \<noteq> Inl AssertionError"
  by (auto simp: decimal_of_def split: pyval.splits)

lemma na_quantize [no_assert]: "quantize t d \<noteq> Inl AssertionError"
  by (auto simp: quantize_def Let_def split: pydec.splits)

lemma na_require_atomic_int [no_assert]: "require_atomic_int b v \<noteq> Inl AssertionError"
  by (auto simp: require_atomic_int_def split: pyval.splits)

lemma na_normalize_decimal_value [no_assert]: "normalize_decimal_value b v \<noteq> Inl AssertionError"
  by (auto simp: normalize_decimal_value_def bindR_eq_Inl no_assert)

lemma na_canonical_decimal_string [no_assert]: "canonical_decimal_string m \<noteq> Inl AssertionError"
  by (auto simp: canonical_decimal_string_def bindR_eq_Inl no_assert split: option.splits)

lemma mapR_Inl: "mapR f xs = Inl e \<Longrightarrow> \<exists>x \<in> set xs. f x = Inl e"
  by (induction xs) (auto simp: bindR_eq_Inl)

lemma na_canonicalize_json [no_assert]: "canonicalize_json v \<noteq> Inl AssertionError"
proof (induction v rule: canonicalize_json.induct)
  case (7 kvs)
  then show ?case by (auto simp: bindR_eq_Inl dest!: mapR_Inl)
next
  case (8 xs)
  then show ?case by (auto simp: bindR_eq_Inl dest!: mapR_Inl)
qed (auto simp: bindR_eq_Inl no_assert)

lemma na_canonical_attribution [no_assert]: "canonical_attribution i \<noteq> Inl AssertionError"
  using na_canonicalize_json [of "VDict (in_attribution i)"]
  by (auto simp: canonical_attribution_def bindR_eq_Inl simp del: canonicalize_json.simps split: json.splits)

lemma na_payload_fingerprint [no_assert]: "payload_fingerprint i \<noteq> Inl AssertionError"
  by (auto simp: payload_fingerprint_def bindR_eq_Inl no_assert)

lemma na_new_reservation [no_assert]: "new_reservation i \<noteq> Inl AssertionError"
  by (auto simp: new_reservation_def bindR_eq_Inl no_assert)

lemma na_make_intent [no_assert]: "make_intent a b c d e f g h \<noteq> Inl AssertionError"
  by (auto simp: make_intent_def bindR_eq_Inl)

lemma na_inserts [no_assert]:
  "insert_tool_usage u d \<noteq> Inl AssertionError" "insert_reservation r d \<noteq> Inl AssertionError"
  "insert_window w d \<noteq> Inl AssertionError"
  by (auto simp: insert_tool_usage_def insert_reservation_def insert_window_def)

lemma na_updates [no_assert]:
  "update_windows P f d \<noteq> Inl AssertionError" "update_accounts P' f' d \<noteq> Inl AssertionError"
  "update_tool_usage P'' f'' d \<noteq> Inl AssertionError" "update_reservations Q g d \<noteq> Inl AssertionError"
  by (auto simp: update_windows_def update_accounts_def update_tool_usage_def update_reservations_def Let_def)

lemma na_create_or_get:
  "(\<And>d. ins row d \<noteq> Inl AssertionError) \<Longrightarrow> create_or_get lookup same ins race row d \<noteq> Inl AssertionError"
  by (auto simp: create_or_get_def split: option.splits sum.splits)

lemma na_create_or_get_tool_usage [no_assert]: "create_or_get_tool_usage race ow e c d \<noteq> Inl AssertionError"
  by (auto simp: create_or_get_tool_usage_def bindR_eq_Inl na_create_or_get no_assert)

lemma na_create_or_get_reservation [no_assert]: "create_or_get_reservation race i d \<noteq> Inl AssertionError"
  by (auto simp: create_or_get_reservation_def bindR_eq_Inl na_create_or_get no_assert)

lemma na_require_atomic_counter [no_assert]: "require_atomic_counter i \<noteq> Inl AssertionError"
  by (simp add: require_atomic_counter_def)

lemma na_mutate_window_usage [no_assert]: "mutate_window_usage ow e v vs d \<noteq> Inl AssertionError"
  by (auto simp: mutate_window_usage_def Let_def bindR_eq_Inl no_assert dest!: mapR_Inl)

lemma na_mutate_tool_usage [no_assert]: "mutate_tool_usage ow e c v used res d \<noteq> Inl AssertionError"
  by (auto simp: mutate_tool_usage_def Let_def bindR_eq_Inl no_assert)

lemma na_normalize_utc [no_assert]: "normalize_authoritative_utc t \<noteq> Inl AssertionError"
  by (auto simp: normalize_authoritative_utc_def split: option.splits)

lemma na_settlement_fields [no_assert]: "settlement_fields t a w \<noteq> Inl AssertionError"
  by (auto simp: settlement_fields_def bindR_eq_Inl no_assert split: option.splits)

lemma na_transition_reservation [no_assert]: "transition_reservation ow k v t a w d \<noteq> Inl AssertionError"
  by (auto simp: transition_reservation_def Let_def bindR_eq_Inl no_assert split: option.splits)

lemma na_get_active_window [no_assert]: "get_active_window d ow \<noteq> Inl AssertionError"
  by (auto simp: get_active_window_def Let_def split: option.splits)

lemma na_dt_less [no_assert]: "dt_less a b \<noteq> Inl AssertionError"
  by (auto simp: dt_less_def split: option.splits)

lemma na_add_seconds [no_assert]: "add_seconds a b \<noteq> Inl AssertionError"
  by (simp add: add_seconds_def)

lemma na_close_window [no_assert]: "close_window w now d \<noteq> Inl AssertionError"
  by (auto simp: close_window_def Let_def bindR_eq_Inl no_assert)

lemma na_advance_account [no_assert]: "advance_account ow v e d \<noteq> Inl AssertionError"
  by (auto simp: advance_account_def Let_def bindR_eq_Inl no_assert)

lemma na_open_window [no_assert]: "open_window ow v now a w d \<noteq> Inl AssertionError"
  by (auto simp: open_window_def Let_def bindR_eq_Inl no_assert split: option.splits)

lemma na_rollover_window [no_assert]: "rollover_window ow v now d \<noteq> Inl AssertionError"
  by (auto simp: rollover_window_def bindR_eq_Inl no_assert split: option.splits)

lemma na_resolve_budget_owner [no_assert]: "resolve_budget_owner d i \<noteq> Inl AssertionError"
  by (auto simp: resolve_budget_owner_def bindR_eq_Inl split: option.splits)

lemma na_unbounded_policy [no_assert]: "unbounded_policy a b c e \<noteq> Inl AssertionError"
  by (auto simp: unbounded_policy_def make_policy_def bindR_eq_Inl normalize_optional_decimal_limit_def
      validate_tool_limits_def pydantic_wrap_def unwrapped_def)

lemma na_policy_fingerprint [no_assert]: "policy_fingerprint p \<noteq> Inl AssertionError"
  by (auto simp: policy_fingerprint_def canonical_semantics_def bindR_eq_Inl no_assert)

lemma na_recognized [no_assert]: "is_recognized_shadow_policy p \<noteq> Inl AssertionError"
  by (auto simp: is_recognized_shadow_policy_def Let_def bindR_eq_Inl no_assert)

end
