(* ===== verification/Tool_Quota.thy ===== *)
theory Tool_Quota
  imports Budget_Errors
begin

text \<open>
  The renewable tool-call quota (\<open>src/se/src/application/user_tool_quota.py\<close>): admission of a
  logical invocation, its settlement or release, and the recovery of an earlier admission. One
  attempt of an operation is one transaction. The record \<open>tx_env\<close> is what the transaction cannot
  control: what other transactions commit before an attempt (\<open>others\<close>) and while the attempt
  waits for the owner's account row (\<open>lock_wait\<close>), and whether BEGIN IMMEDIATE fails
  (\<open>write_intent\<close>). On SQLite \<open>lock_wait\<close> is the identity; on PostgreSQL
  \<open>write_intent\<close> never fails.
\<close>

section \<open>Types\<close>

record tx_env =
  others :: "nat \<Rightarrow> db \<Rightarrow> db"
  lock_wait :: "nat \<Rightarrow> db \<Rightarrow> db"
  write_intent :: "nat \<Rightarrow> err option"

definition UBQ3_IDEMPOTENCY_VERSION :: string where
  "UBQ3_IDEMPOTENCY_VERSION = ''ubq3-v1''"

record tool_quota_settings =
  tqs_enabled :: bool
  tqs_max_conflict_retries :: int

record tool_admission =
  ta_owner_user_id :: string
  ta_invocation_id :: string
  ta_capability_id :: string
  ta_request_fingerprint :: string
  ta_idempotency_key :: "string option"
  ta_reservation_id :: "string option"
  ta_window_epoch :: "int option"
  ta_reservation_state :: reservation_state
  ta_historical_bridge :: bool

text \<open>
  The arguments that identify a logical invocation. The lineage fields are dynamically typed: a
  terminal transition reads them back from the stored JSON.
\<close>

record invocation =
  iv_invocation_id :: string
  iv_capability_id :: string
  iv_request_fingerprint :: string
  iv_execution_id :: pyval
  iv_tool_call_id :: pyval
  iv_task_id :: pyval
  iv_workflow_id :: pyval
  iv_session_id :: pyval

section \<open>Identity of an invocation\<close>

definition tool_digest :: "string \<Rightarrow> string" where
  "tool_digest invocation_id =
     canonical_sha256 [(''version'', JStr UBQ3_IDEMPOTENCY_VERSION), (''invocation_id'', JStr invocation_id)]"

definition tool_identity :: "string \<Rightarrow> string \<times> string" where
  "tool_identity invocation_id =
     (''ubq3:v1:'' @ tool_digest invocation_id, ''ubq3r:'' @ tool_digest invocation_id)"

definition tool_attribution :: "invocation \<Rightarrow> (pykey \<times> pyval) list" where
  "tool_attribution iv =
     [(KStr ''version'', VStr UBQ3_IDEMPOTENCY_VERSION),
      (KStr ''invocation_id'', VStr (iv_invocation_id iv)),
      (KStr ''request_fingerprint'', VStr (iv_request_fingerprint iv)),
      (KStr ''capability_id'', VStr (iv_capability_id iv)),
      (KStr ''execution_id'', iv_execution_id iv),
      (KStr ''tool_call_id'', iv_tool_call_id iv),
      (KStr ''task_id'', iv_task_id iv),
      (KStr ''workflow_id'', iv_workflow_id iv),
      (KStr ''session_id'', iv_session_id iv)]"

definition tool_intent :: "string \<Rightarrow> int \<Rightarrow> invocation \<Rightarrow> err + intent" where
  "tool_intent owner epoch iv =
     make_intent (snd (tool_identity (iv_invocation_id iv))) owner epoch (fst (tool_identity (iv_invocation_id iv)))
       TOOL_CALL (Some (iv_capability_id iv)) 1 (tool_attribution iv)"

definition task_budget_tool_fingerprint :: "string \<Rightarrow> string \<Rightarrow> string \<Rightarrow> (string \<times> json) list \<Rightarrow> string" where
  "task_budget_tool_fingerprint execution_id tool_call_id capability_id arguments =
     sha256_hexdigest (dumps True (JObj
       [(''kind'', JStr ''TOOL_CALL''), (''reservation_key'', JStr tool_call_id),
        (''payload'', JObj
          [(''execution_id'', JStr execution_id), (''tool_call_id'', JStr tool_call_id),
           (''capability_id'', JStr capability_id), (''arguments'', JObj arguments)])]))"

definition resolve_tool_owner :: "db \<Rightarrow> identity \<Rightarrow> string option \<Rightarrow> err + budget_owner_resolution" where
  "resolve_tool_owner d ident task_id =
     bindR (resolve_budget_owner d ident) (\<lambda>res.
     bindR (requireR (case task_id of None \<Rightarrow> True
              | Some t \<Rightarrow> (case get_task_binding d t of None \<Rightarrow> True
                          | Some b \<Rightarrow> bnd_owner_user_id b = bor_owner_user_id res)) UserBudgetBindingDriftError) (\<lambda>_.
     Inr res))"

definition verify_direct_reservation :: "reservation_row \<Rightarrow> string \<Rightarrow> invocation \<Rightarrow> err + unit" where
  "verify_direct_reservation row owner iv =
     bindR (tool_intent owner (res_window_epoch row) iv) (\<lambda>i.
     bindR (requireR (res_reservation_id row = snd (tool_identity (iv_invocation_id iv)) \<and>
                      res_owner_user_id row = owner \<and>
                      res_idempotency_key row = fst (tool_identity (iv_invocation_id iv)) \<and>
                      res_resource_kind row = TOOL_CALL \<and>
                      or_empty (res_capability_id row) = iv_capability_id iv \<and>
                      res_reserved_amount_atomic row = 1) UserToolQuotaConflictError) (\<lambda>_.
     bindR (payload_fingerprint i) (\<lambda>fp.
     requireR (res_payload_fingerprint row = fp) UserToolQuotaConflictError)))"

definition direct_admission :: "string \<Rightarrow> invocation \<Rightarrow> reservation_row \<Rightarrow> tool_admission" where
  "direct_admission owner iv row =
     \<lparr>ta_owner_user_id = owner, ta_invocation_id = iv_invocation_id iv, ta_capability_id = iv_capability_id iv,
      ta_request_fingerprint = iv_request_fingerprint iv,
      ta_idempotency_key = Some (fst (tool_identity (iv_invocation_id iv))),
      ta_reservation_id = Some (res_reservation_id row), ta_window_epoch = Some (res_window_epoch row),
      ta_reservation_state = res_state row, ta_historical_bridge = False\<rparr>"

section \<open>Charges made by dual accounting before the quota was enabled\<close>

definition get_tool_call :: "db \<Rightarrow> string \<Rightarrow> string \<Rightarrow> tool_call_row option" where
  "get_tool_call d execution_id tool_call_id =
     List.find (\<lambda>c. tc_execution_id c = execution_id \<and> tc_tool_call_id c = tool_call_id) (tool_calls d)"

definition get_execution :: "db \<Rightarrow> string \<Rightarrow> execution_row option" where
  "get_execution d execution_id = List.find (\<lambda>x. exe_id x = execution_id) (executions d)"

definition historical_reservation :: "db \<Rightarrow> string \<Rightarrow> string \<Rightarrow> receipt_row \<Rightarrow> err + reservation_row" where
  "historical_reservation d owner capability_id bridge =
     bindR (ofOption UserToolQuotaConflictError (rcp_ubq_idempotency_key bridge)) (\<lambda>key.
     bindR (ofOption UserToolQuotaConflictError (get_reservation d owner key)) (\<lambda>mirrored.
     bindR (requireR (res_reservation_id mirrored = py_str (rcp_ubq_reservation_id bridge)) UserToolQuotaConflictError) (\<lambda>_.
     bindR (ofOption TypeError (rcp_window_epoch bridge)) (\<lambda>epoch.
     bindR (requireR (res_window_epoch mirrored = epoch \<and> res_resource_kind mirrored = TOOL_CALL \<and>
                      or_empty (res_capability_id mirrored) = capability_id \<and>
                      res_payload_fingerprint mirrored = py_str (rcp_ubq_payload_fingerprint bridge) \<and>
                      res_state mirrored = SETTLED \<and>
                      res_settled_amount_atomic mirrored = Some 1) UserToolQuotaConflictError) (\<lambda>_.
     Inr mirrored)))))"

definition historical_bridge_admission :: "db \<Rightarrow> string \<Rightarrow> invocation \<Rightarrow> string option \<Rightarrow> string option \<Rightarrow> string option \<Rightarrow>
    (string \<times> json) list \<Rightarrow> err + tool_admission option" where
  "historical_bridge_admission d owner iv execution_id tool_call_id task_id arguments =
     (case (none_if_empty task_id, none_if_empty execution_id, none_if_empty tool_call_id) of
        (Some task, Some execution, Some call) \<Rightarrow>
          (case get_dual_accounting_receipt d (task, ''TOOL_CALL'', call, kind_value TOOL_CALL) of
             None \<Rightarrow> Inr None
           | Some bridge \<Rightarrow>
               bindR (ofOption UserToolQuotaConflictError (get_task_binding d task)) (\<lambda>binding.
               bindR (ofOption UserToolQuotaConflictError (get_execution d execution)) (\<lambda>ex.
               bindR (ofOption UserToolQuotaConflictError (get_tool_call d execution call)) (\<lambda>tc.
               bindR (ofOption UserToolQuotaConflictError (get_task_budget d task)) (\<lambda>budget.
               bindR (requireR (bnd_owner_user_id binding = owner \<and> or_empty (exe_task_id ex) = task \<and>
                                tc_invocation_id tc = iv_invocation_id iv \<and> tc_tool_call_id tc = call \<and>
                                tc_capability_id tc = iv_capability_id iv \<and>
                                dict_eq (tc_arguments tc) arguments) UserToolQuotaConflictError) (\<lambda>_.
               let fp = task_budget_tool_fingerprint execution call (iv_capability_id iv) arguments in
               bindR (ofOption UserToolQuotaConflictError
                        (get_task_budget_reservation d task ''TOOL_CALL'' call (tb_incarnation_generation budget))) (\<lambda>source.
               bindR (requireR (tbr_payload_fingerprint source = fp \<and> rcp_source_payload_fingerprint bridge = fp \<and>
                                rcp_owner_user_id bridge = owner \<and>
                                or_empty (rcp_capability_id bridge) = iv_capability_id iv \<and>
                                rcp_amount_atomic bridge = 1) UserToolQuotaConflictError) (\<lambda>_.
               bindR (historical_reservation d owner (iv_capability_id iv) bridge) (\<lambda>mirrored.
               Inr (Some ((direct_admission owner iv mirrored)
                      \<lparr>ta_idempotency_key := None, ta_reservation_state := SETTLED,
                       ta_historical_bridge := True\<rparr>)))))))))))
      | _ \<Rightarrow> Inr None)"

section \<open>Looking an admission up\<close>

definition resolve_owner :: "tool_quota_settings \<Rightarrow> db \<Rightarrow> identity \<Rightarrow> string option \<Rightarrow> err + budget_owner_resolution option" where
  "resolve_owner s d ident task_id =
     (if \<not> tqs_enabled s then Inr None
      else bindR (resolve_tool_owner d ident task_id) (\<lambda>res. Inr (Some res)))"

definition string_invocation :: "string \<Rightarrow> string \<Rightarrow> string \<Rightarrow> string option \<Rightarrow> string option \<Rightarrow> string option \<Rightarrow>
    string option \<Rightarrow> string option \<Rightarrow> invocation" where
  "string_invocation invocation_id capability_id request_fp execution_id tool_call_id task_id workflow_id session_id =
     \<lparr>iv_invocation_id = invocation_id, iv_capability_id = capability_id, iv_request_fingerprint = request_fp,
      iv_execution_id = opt_str execution_id, iv_tool_call_id = opt_str tool_call_id, iv_task_id = opt_str task_id,
      iv_workflow_id = opt_str workflow_id, iv_session_id = opt_str session_id\<rparr>"

definition find_tool_call_authority :: "tool_quota_settings \<Rightarrow> db \<Rightarrow> string \<Rightarrow> string \<Rightarrow> string \<Rightarrow> string \<Rightarrow>
    (string \<times> json) list \<Rightarrow> string option \<Rightarrow> string option \<Rightarrow> string option \<Rightarrow> string option \<Rightarrow>
    err + tool_admission option" where
  "find_tool_call_authority s d owner invocation_id capability_id request_fp arguments execution_id tool_call_id
     workflow_id session_id =
     (if \<not> tqs_enabled s then Inr None
      else
      bindR (requireR (owner \<noteq> [] \<and> invocation_id \<noteq> [] \<and> capability_id \<noteq> [] \<and> request_fp \<noteq> [])
               UserToolQuotaConflictError) (\<lambda>_.
      bindR (case execution_id of
               None \<Rightarrow> Inr None
             | Some x \<Rightarrow> bindR (ofOption UserToolQuotaConflictError (get_execution d x)) (\<lambda>ex. Inr (exe_task_id ex))) (\<lambda>task_id.
      let iv = string_invocation invocation_id capability_id request_fp execution_id tool_call_id task_id
                 workflow_id session_id in
      case get_reservation d owner (fst (tool_identity invocation_id)) of
        Some direct \<Rightarrow>
          bindR (verify_direct_reservation direct owner iv) (\<lambda>_. Inr (Some (direct_admission owner iv direct)))
      | None \<Rightarrow>
          if execution_id = None \<or> task_id = None \<or> tool_call_id = None then Inr None
          else historical_bridge_admission d owner iv execution_id tool_call_id task_id arguments)))"

definition recover_tool_call :: "tool_quota_settings \<Rightarrow> db \<Rightarrow> string \<Rightarrow> string \<Rightarrow> string \<Rightarrow> string \<Rightarrow>
    (string \<times> json) list \<Rightarrow> string option \<Rightarrow> string option \<Rightarrow> string option \<Rightarrow> string option \<Rightarrow>
    err + tool_admission" where
  "recover_tool_call s d owner invocation_id capability_id request_fp arguments execution_id tool_call_id
     workflow_id session_id =
     bindR (find_tool_call_authority s d owner invocation_id capability_id request_fp arguments execution_id
              tool_call_id workflow_id session_id) (\<lambda>m.
     bindR (ofOption UserToolQuotaConflictError m) (\<lambda>authority.
     bindR (requireR (ta_historical_bridge authority \<or> ta_reservation_state authority = RESERVED)
              UserToolQuotaConflictError) (\<lambda>_.
     Inr authority)))"

section \<open>Admission\<close>

text \<open>The active window, rolled over when there is none or it has expired.\<close>

definition admission_window :: "string \<Rightarrow> account_row \<Rightarrow> pydatetime \<Rightarrow> db \<Rightarrow> err + (window_row \<times> db)" where
  "admission_window owner account now d =
     bindR (get_active_window d owner) (\<lambda>active.
     case active of
       None \<Rightarrow> rollover_window owner (acc_revision account) now d
     | Some w \<Rightarrow>
         bindR (dt_less now (record_utc (win_expires_at w))) (\<lambda>live.
         if live then Inr (w, d) else rollover_window owner (acc_revision account) now d))"

text \<open>The policy that governs a window; a shadow policy authorises nothing.\<close>

definition canonical_policy :: "string \<Rightarrow> window_row \<Rightarrow> db \<Rightarrow> err + policy_row" where
  "canonical_policy owner w d =
     bindR (ofOption UserBudgetPolicyAuthorityConflictError (get_policy d owner (win_governing_policy_id w))) (\<lambda>p.
     bindR (requireR (pol_policy_fingerprint p = win_governing_policy_fingerprint w)
              UserBudgetPolicyAuthorityConflictError) (\<lambda>_.
     bindR (is_recognized_shadow_policy p) (\<lambda>shadow.
     bindR (requireR (\<not> shadow) UserBudgetPolicyAuthorityConflictError) (\<lambda>_.
     Inr p))))"

definition per_tool_limit :: "policy_row \<Rightarrow> string \<Rightarrow> int option" where
  "per_tool_limit p capability_id =
     (case dict_get (pol_tool_limits_json p) capability_id of
        Some l \<Rightarrow> Some l | None \<Rightarrow> pol_default_per_tool_limit p)"

definition exceeds :: "int option \<Rightarrow> int \<Rightarrow> bool" where
  "exceeds limit n = (case limit of None \<Rightarrow> False | Some l \<Rightarrow> l < n)"

definition admit_tool_call :: "string \<Rightarrow> account_row \<Rightarrow> invocation \<Rightarrow> pydatetime \<Rightarrow> db \<Rightarrow> err + (tool_admission \<times> db)" where
  "admit_tool_call owner account iv now d =
     bindR (admission_window owner account now d) (\<lambda>(w, d).
     bindR (canonical_policy owner w d) (\<lambda>p.
     bindR (create_or_get_tool_usage id owner (win_epoch w) (iv_capability_id iv) d) (\<lambda>(u, d).
     bindR (requireR (\<not> exceeds (per_tool_limit p (iv_capability_id iv)) (tu_used_calls u + tu_reserved_calls u + 1))
              UserToolCapabilityQuotaExceededError) (\<lambda>_.
     bindR (requireR (\<not> exceeds (pol_max_tool_calls_total p) (win_tool_calls_used w + win_tool_calls_reserved w + 1))
              UserToolQuotaExceededError) (\<lambda>_.
     bindR (tool_intent owner (win_epoch w) iv) (\<lambda>i.
     bindR (create_or_get_reservation id i d) (\<lambda>(r, d).
     bindR (verify_direct_reservation r owner iv) (\<lambda>_.
     bindR (mutate_window_usage owner (win_epoch w) (win_revision w)
              [(tool_calls_reserved, win_tool_calls_reserved w + 1)] d) (\<lambda>(w, d).
     bindR (mutate_tool_usage owner (win_epoch w) (iv_capability_id iv) (tu_revision u) (tu_used_calls u)
              (tu_reserved_calls u + 1) d) (\<lambda>(_, d).
     Inr ((direct_admission owner iv r)\<lparr>ta_window_epoch := Some (win_epoch w), ta_reservation_state := RESERVED\<rparr>,
          d)))))))))))"

definition reserve_attempt :: "tx_env \<Rightarrow> nat \<Rightarrow> identity \<Rightarrow> string \<Rightarrow> string \<Rightarrow> string \<Rightarrow> (string \<times> json) list \<Rightarrow>
    string option \<Rightarrow> string option \<Rightarrow> string option \<Rightarrow> string option \<Rightarrow> string option \<Rightarrow> pydatetime \<Rightarrow>
    db \<Rightarrow> err + (tool_admission \<times> db)" where
  "reserve_attempt env n ident invocation_id capability_id request_fp arguments execution_id tool_call_id task_id
     workflow_id session_id now d =
     (case write_intent env n of
        Some e \<Rightarrow> Inl e
      | None \<Rightarrow>
          bindR (resolve_tool_owner d ident task_id) (\<lambda>res.
          let owner = bor_owner_user_id res; key = fst (tool_identity invocation_id);
              iv = string_invocation invocation_id capability_id request_fp execution_id tool_call_id task_id
                     workflow_id session_id in
          case get_reservation d owner key of
            Some existing \<Rightarrow>
              bindR (verify_direct_reservation existing owner iv) (\<lambda>_. Inr (direct_admission owner iv existing, d))
          | None \<Rightarrow>
              bindR (historical_bridge_admission d owner iv execution_id tool_call_id task_id arguments) (\<lambda>historical.
              case historical of
                Some a \<Rightarrow> Inr (a, d)
              | None \<Rightarrow>
                  let d = lock_wait env n d in
                  bindR (ofOption UserBudgetPolicyAuthorityConflictError (get_account d owner)) (\<lambda>account.
                  bindR (requireR (acc_next_policy_id account \<noteq> None) UserBudgetPolicyAuthorityConflictError) (\<lambda>_.
                  case get_reservation d owner key of
                    Some locked \<Rightarrow>
                      bindR (verify_direct_reservation locked owner iv) (\<lambda>_. Inr (direct_admission owner iv locked, d))
                  | None \<Rightarrow> admit_tool_call owner account iv now d)))))"

definition reserve_tool_call :: "tool_quota_settings \<Rightarrow> tx_env \<Rightarrow> identity \<Rightarrow> string \<Rightarrow> string \<Rightarrow> string \<Rightarrow> (string \<times> json) list \<Rightarrow>
    string option \<Rightarrow> string option \<Rightarrow> string option \<Rightarrow> string option \<Rightarrow> string option \<Rightarrow> pydatetime \<Rightarrow>
    db \<Rightarrow> (err + tool_admission option) \<times> db" where
  "reserve_tool_call s env ident invocation_id capability_id request_fp arguments execution_id tool_call_id task_id
     workflow_id session_id now d =
     (if \<not> tqs_enabled s then (Inr None, d)
      else if invocation_id = [] \<or> capability_id = [] \<or> request_fp = [] then (Inl ValueError, d)
      else map_prod (map_sum id Some) id
             (retry_loop is_retryable_error AssertionError (others env)
               (\<lambda>n. reserve_attempt env n ident invocation_id capability_id request_fp arguments execution_id
                      tool_call_id task_id workflow_id session_id now)
               0 (nat (max 1 (tqs_max_conflict_retries s))) d))"

section \<open>Settlement and release\<close>

definition stored_field :: "reservation_row \<Rightarrow> string \<Rightarrow> pyval" where
  "stored_field r name =
     (case dict_get (res_attribution_json r) name of None \<Rightarrow> VNone | Some j \<Rightarrow> pyval_of_json j)"

definition stored_invocation :: "tool_admission \<Rightarrow> reservation_row \<Rightarrow> invocation" where
  "stored_invocation a r =
     \<lparr>iv_invocation_id = ta_invocation_id a, iv_capability_id = ta_capability_id a,
      iv_request_fingerprint = ta_request_fingerprint a,
      iv_execution_id = stored_field r ''execution_id'', iv_tool_call_id = stored_field r ''tool_call_id'',
      iv_task_id = stored_field r ''task_id'', iv_workflow_id = stored_field r ''workflow_id'',
      iv_session_id = stored_field r ''session_id''\<rparr>"

definition finish_tool_call :: "tool_admission \<Rightarrow> string \<Rightarrow> reservation_state \<Rightarrow> pydatetime \<Rightarrow> reservation_row \<Rightarrow>
    db \<Rightarrow> err + (tool_admission \<times> db)" where
  "finish_tool_call a key target now r d =
     (let owner = ta_owner_user_id a; cap = ta_capability_id a in
      bindR (ofOption UserToolQuotaConflictError (get_window d owner (res_window_epoch r))) (\<lambda>w.
      bindR (ofOption UserToolQuotaConflictError (get_tool_usage d owner (res_window_epoch r) cap)) (\<lambda>u.
      bindR (requireR (0 < win_tool_calls_reserved w \<and> 0 < tu_reserved_calls u) UserToolQuotaConflictError) (\<lambda>_.
      bindR (if target = SETTLED
             then bindR (mutate_window_usage owner (win_epoch w) (win_revision w)
                           [(tool_calls_used, win_tool_calls_used w + 1),
                            (tool_calls_reserved, win_tool_calls_reserved w - 1)] d) (\<lambda>(_, d).
                  bindR (mutate_tool_usage owner (win_epoch w) cap (tu_revision u) (tu_used_calls u + 1)
                           (tu_reserved_calls u - 1) d) (\<lambda>(_, d).
                  transition_reservation owner key (res_revision r) target (Some 1) (Some now) d))
             else bindR (mutate_window_usage owner (win_epoch w) (win_revision w)
                           [(tool_calls_reserved, win_tool_calls_reserved w - 1)] d) (\<lambda>(_, d).
                  bindR (mutate_tool_usage owner (win_epoch w) cap (tu_revision u) (tu_used_calls u)
                           (tu_reserved_calls u - 1) d) (\<lambda>(_, d).
                  transition_reservation owner key (res_revision r) target None None d))) (\<lambda>(t, d).
      Inr (a\<lparr>ta_reservation_state := res_state t, ta_historical_bridge := False\<rparr>, d))))))"

definition terminal_attempt :: "tx_env \<Rightarrow> nat \<Rightarrow> tool_admission \<Rightarrow> string \<Rightarrow> reservation_state \<Rightarrow> pydatetime \<Rightarrow>
    db \<Rightarrow> err + (tool_admission \<times> db)" where
  "terminal_attempt env n a key target now d =
     (case write_intent env n of
        Some e \<Rightarrow> Inl e
      | None \<Rightarrow>
          bindR (ofOption UserToolQuotaConflictError (get_reservation d (ta_owner_user_id a) key)) (\<lambda>r.
          bindR (verify_direct_reservation r (ta_owner_user_id a) (stored_invocation a r)) (\<lambda>_.
          if res_state r = target
          then Inr (a\<lparr>ta_reservation_state := target, ta_historical_bridge := False\<rparr>, d)
          else bindR (requireR (res_state r = RESERVED) UserToolQuotaConflictError) (\<lambda>_.
               finish_tool_call a key target now r d))))"

definition terminal_transition :: "tool_quota_settings \<Rightarrow> tx_env \<Rightarrow> tool_admission option \<Rightarrow> reservation_state \<Rightarrow> pydatetime \<Rightarrow>
    db \<Rightarrow> (err + tool_admission option) \<times> db" where
  "terminal_transition s env m target now d =
     (case m of
        None \<Rightarrow> (Inr m, d)
      | Some a \<Rightarrow>
          if ta_historical_bridge a then (Inr m, d)
          else case ta_idempotency_key a of
                 None \<Rightarrow> (Inl UserToolQuotaConflictError, d)
               | Some key \<Rightarrow>
                   if target \<notin> {SETTLED, RELEASED} then (Inl ValueError, d)
                   else map_prod (map_sum id Some) id
                          (retry_loop is_retryable_error AssertionError (others env)
                            (\<lambda>n. terminal_attempt env n a key target now)
                            0 (nat (max 1 (tqs_max_conflict_retries s))) d))"

definition settle_tool_call :: "tool_quota_settings \<Rightarrow> tx_env \<Rightarrow> tool_admission option \<Rightarrow> pydatetime \<Rightarrow> db \<Rightarrow>
    (err + tool_admission option) \<times> db" where
  "settle_tool_call s env m now d = terminal_transition s env m SETTLED now d"

definition release_tool_call :: "tool_quota_settings \<Rightarrow> tx_env \<Rightarrow> tool_admission option \<Rightarrow> pydatetime \<Rightarrow> db \<Rightarrow>
    (err + tool_admission option) \<times> db" where
  "release_tool_call s env m now d = terminal_transition s env m RELEASED now d"

section \<open>The attribution that is stored\<close>

definition stored_attribution :: "string \<Rightarrow> string \<Rightarrow> string \<Rightarrow> json \<Rightarrow> json \<Rightarrow> json \<Rightarrow> json \<Rightarrow> json \<Rightarrow> (string \<times> json) list" where
  "stored_attribution i c f e t k w s =
     [(''capability_id'', JStr c), (''execution_id'', e), (''invocation_id'', JStr i), (''request_fingerprint'', JStr f),
      (''session_id'', s), (''task_id'', k), (''tool_call_id'', t), (''version'', JStr UBQ3_IDEMPOTENCY_VERSION),
      (''workflow_id'', w)]"

lemma canonical_opt_str: "canonicalize_json (opt_str m) = Inr (json_opt_str m)"
  by (cases m) (simp_all add: opt_str_def json_opt_str_def)

lemma tool_attribution_sorted:
  "sort_key (key_str \<circ> fst) (tool_attribution iv) =
     [(KStr ''capability_id'', VStr (iv_capability_id iv)), (KStr ''execution_id'', iv_execution_id iv),
      (KStr ''invocation_id'', VStr (iv_invocation_id iv)), (KStr ''request_fingerprint'', VStr (iv_request_fingerprint iv)),
      (KStr ''session_id'', iv_session_id iv), (KStr ''task_id'', iv_task_id iv), (KStr ''tool_call_id'', iv_tool_call_id iv),
      (KStr ''version'', VStr UBQ3_IDEMPOTENCY_VERSION), (KStr ''workflow_id'', iv_workflow_id iv)]"
  by (simp add: tool_attribution_def)

lemma tool_attribution_canonical:
  assumes "canonicalize_json (iv_execution_id iv) = Inr e" "canonicalize_json (iv_tool_call_id iv) = Inr t"
    "canonicalize_json (iv_task_id iv) = Inr k" "canonicalize_json (iv_workflow_id iv) = Inr w"
    "canonicalize_json (iv_session_id iv) = Inr s"
  shows "canonicalize_json (VDict (tool_attribution iv)) =
    Inr (JObj (stored_attribution (iv_invocation_id iv) (iv_capability_id iv) (iv_request_fingerprint iv) e t k w s))"
proof -
  have "list_all (is_str_key \<circ> fst) (tool_attribution iv)" by (simp add: tool_attribution_def)
  then show ?thesis by (simp add: tool_attribution_sorted assms stored_attribution_def)
qed

section \<open>Admission keeps the ledger\<close>

lemma tool_window_delta:
  "counter c ((set_counters [(tool_calls_reserved, win_tool_calls_reserved w + a)] w)\<lparr>win_revision := v\<rparr>) =
     counter c w + reserved_delta TOOL_CALL a c"
  "counter c ((set_counters [(tool_calls_used, win_tool_calls_used w + b), (tool_calls_reserved, win_tool_calls_reserved w + a)] w)
      \<lparr>win_revision := v\<rparr>) = counter c w + (settled_delta TOOL_CALL b c + reserved_delta TOOL_CALL a c)"
  by (cases c; simp add: reserved_delta_def settled_delta_def counts_reserved_def)+

lemma admission_window_inv:
  assumes "admission_window owner account now d = Inr (w, d')" "budget_inv d"
  shows "budget_inv d' \<and> active_window d' owner = Some w \<and>
    (d' = d \<or> rollover_window owner (acc_revision account) now d = Inr (w, d'))"
proof -
  have act: "get_active_window d owner = Inr (active_window d owner)" by (rule get_active_window_inv [OF assms(2)])
  have "(d' = d \<and> active_window d owner = Some w) \<or> rollover_window owner (acc_revision account) now d = Inr (w, d')"
  proof (cases "active_window d owner")
    case None
    with assms(1) act show ?thesis by (simp add: admission_window_def)
  next
    case (Some x)
    with assms(1) act obtain l where "(if l then Inr (x, d) else rollover_window owner (acc_revision account) now d) = Inr (w, d')"
      by (auto simp: admission_window_def)
    with Some show ?thesis by (cases l) auto
  qed
  then show ?thesis
    using assms(2) rollover_window_inv rollover_window_member by metis
qed

lemma open_window_reservations:
  "open_window owner v now a active d = Inr (w, d') \<Longrightarrow> reservations d' = reservations d \<and> policies d' = policies d \<and> tool_usage d' = tool_usage d"
  by (auto simp: open_window_def Let_def close_window_def advance_account_def insert_window_def update_windows_Inr
      update_accounts_Inr split: option.splits if_splits)

lemma rollover_window_reservations:
  assumes "rollover_window owner v now d = Inr (w, d')" "budget_inv d"
  shows "reservations d' = reservations d \<and> policies d' = policies d \<and> tool_usage d' = tool_usage d"
  using assms by (cases rule: rollover_windowE) (auto dest: open_window_reservations)

lemma tool_intent_fields:
  assumes "tool_intent owner epoch iv = Inr i"
  shows "in_reservation_id i = snd (tool_identity (iv_invocation_id iv))" "in_owner_user_id i = owner" "in_window_epoch i = epoch"
    "in_idempotency_key i = fst (tool_identity (iv_invocation_id iv))" "in_resource_kind i = TOOL_CALL"
    "in_capability_id i = Some (iv_capability_id iv)" "in_reserved_amount_atomic i = 1" "iv_capability_id iv \<noteq> []"
  using assms by (auto simp: tool_intent_def capability_scope_ok_def dest: make_intent_fields)

lemma admit_tool_callE:
  assumes "admit_tool_call owner account iv now d = Inr (a, d')"
  obtains w d1 p u d2 i r d3 w' d4 u' where
    "admission_window owner account now d = Inr (w, d1)" "canonical_policy owner w d1 = Inr p"
    "create_or_get_tool_usage id owner (win_epoch w) (iv_capability_id iv) d1 = Inr (u, d2)"
    "\<not> exceeds (per_tool_limit p (iv_capability_id iv)) (tu_used_calls u + tu_reserved_calls u + 1)"
    "\<not> exceeds (pol_max_tool_calls_total p) (win_tool_calls_used w + win_tool_calls_reserved w + 1)"
    "tool_intent owner (win_epoch w) iv = Inr i" "create_or_get_reservation id i d2 = Inr (r, d3)"
    "verify_direct_reservation r owner iv = Inr ()"
    "mutate_window_usage owner (win_epoch w) (win_revision w) [(tool_calls_reserved, win_tool_calls_reserved w + 1)] d3 = Inr (w', d4)"
    "mutate_tool_usage owner (win_epoch w') (iv_capability_id iv) (tu_revision u) (tu_used_calls u) (tu_reserved_calls u + 1) d4 = Inr (u', d')"
    "a = (direct_admission owner iv r)\<lparr>ta_window_epoch := Some (win_epoch w'), ta_reservation_state := RESERVED\<rparr>"
  using assms by (auto simp: admit_tool_call_def)

lemma create_tool_usage_frame:
  assumes "create_or_get_tool_usage id owner epoch cap d = Inr (u, d')"
  shows "windows d' = windows d" "policies d' = policies d" "reservations d' = reservations d" "receipts d' = receipts d"
    "accounts d' = accounts d" "u \<in> set (tool_usage d')" "tu_key u = (owner, epoch, cap)"
proof -
  have "windows d' = windows d \<and> policies d' = policies d \<and> reservations d' = reservations d \<and> receipts d' = receipts d \<and>
    accounts d' = accounts d \<and> u \<in> set (tool_usage d') \<and> tu_key u = (owner, epoch, cap)"
    using assms
  proof (cases rule: create_or_get_tool_usageE)
    case existing
    then show ?thesis by (auto dest: get_tool_usage_SomeD)
  next
    case inserted
    then show ?thesis by (auto simp: insert_tool_usage_def new_tool_usage_def tu_key_def split: if_splits)
  qed
  then show "windows d' = windows d" "policies d' = policies d" "reservations d' = reservations d" "receipts d' = receipts d"
    "accounts d' = accounts d" "u \<in> set (tool_usage d')" "tu_key u = (owner, epoch, cap)"
    by blast+
qed

lemma tool_key_prefix: "take 8 (fst (tool_identity x)) \<noteq> ''ubq2:v1:''"
  by (simp add: tool_identity_def)

lemma admit_charged:
  assumes inv: "budget_inv d2" and w: "w \<in> set (windows d2)" "win_owner_user_id w = owner"
    and u: "u \<in> set (tool_usage d2)" "tu_key u = (owner, win_epoch w, iv_capability_id iv)"
    and i: "tool_intent owner (win_epoch w) iv = Inr i" and r: "new_reservation i = Inr r" "insert_reservation r d2 = Inr d3"
    and mw: "mutate_window_usage owner (win_epoch w) (win_revision w) [(tool_calls_reserved, win_tool_calls_reserved w + 1)] d3 = Inr (w', d4)"
    and mt: "mutate_tool_usage owner (win_epoch w') (iv_capability_id iv) (tu_revision u) (tu_used_calls u) (tu_reserved_calls u + 1) d4 = Inr (u', d')"
  shows "charged d2 d' w w' (Some (iv_capability_id iv)) (reserved_delta TOOL_CALL 1)" "budget_inv d'"
    "reservations d' = reservations d2 @ [r]" "policies d' = policies d2"
    "windows d' = replace_row win_key w' (windows d2)" "tool_usage d' = replace_row tu_key u' (tool_usage d2)"
    "tu_key u' = tu_key u" "tu_used_calls u' = tu_used_calls u" "tu_reserved_calls u' = tu_reserved_calls u + 1"
    "accounts d' = accounts d2" "receipts d' = receipts d2" "win_ident w' = win_ident w"
proof -
  from r(2) have d3: "d3 = d2\<lparr>reservations := reservations d2 @ [r]\<rparr>" by (simp add: insert_reservation_Inr)
  have dist: "distinct (map win_key (windows d3))" "distinct (map tu_key (tool_usage d2))"
    using inv d3 by (auto simp: budget_inv_def wf_windows_def wf_tool_usage_def)
  have "w \<in> set (windows d3)" using w d3 by simp
  note mw = mutate_window_memberE [OF mw dist(1) this w(2)]
  have epoch: "win_epoch w' = win_epoch w" using mw(3) by (simp add: win_ident_def)
  have tu4: "tool_usage d4 = tool_usage d2" using mw(5) d3 by simp
  note mt = mutate_tool_memberE [OF mt [unfolded epoch], unfolded tu4, OF dist(2) u]
  note rf = new_reservation_fields [OF r(1)] and fields = tool_intent_fields [OF i]
  have rw: "res_win r = win_key w" "res_tool r = tu_tool u" "res_capability_id r = Some (iv_capability_id iv)"
    using rf fields w(2) u(2) by (simp_all add: res_win_def win_key_def res_tool_def tu_tool_def tu_key_def)
  show frame: "reservations d' = reservations d2 @ [r]" "policies d' = policies d2"
    "windows d' = replace_row win_key w' (windows d2)" "tool_usage d' = replace_row tu_key u' (tool_usage d2)"
    "accounts d' = accounts d2" "receipts d' = receipts d2"
    using mt(4) mw(5) d3 by simp_all
  show tools: "tu_key u' = tu_key u" "tu_used_calls u' = tu_used_calls u" "tu_reserved_calls u' = tu_reserved_calls u + 1"
    using mt by simp_all
  show "win_ident w' = win_ident w" by (rule mw(3))
  have "ledger_shift (reservations d2) (reservations d') (win_key w) (Some (iv_capability_id iv)) (reserved_delta TOOL_CALL 1)"
    using ledger_shift_cong [OF ledger_shift_insert [of "reservations d2" r], of "reserved_delta TOOL_CALL 1"] rf fields
    by (simp add: frame rw contrib_reserved)
  moreover have "tool_row_shift d2 d' w (Some (iv_capability_id iv)) (reserved_delta TOOL_CALL 1)"
    unfolding tool_row_shift_def option.case
    using u w tools mt(2) frame(4) by (intro exI [of _ u] exI [of _ u']) (simp add: reserved_delta_tool)
  moreover have "counter c w' = counter c w + reserved_delta TOOL_CALL 1 c" for c
    unfolding mw(1) by (rule tool_window_delta(1))
  ultimately show ch: "charged d2 d' w w' (Some (iv_capability_id iv)) (reserved_delta TOOL_CALL 1)"
    using w mw(2,3) frame by (simp add: charged_def)
  have res: "res_table_ok d2 (reservations d')"
    unfolding frame using budget_inv_res_table [OF inv] u(1) rw(2) by (intro res_table_insert [OF r(2)]) auto
  have "mirrored_ok d'"
    using inv tool_key_prefix [of "iv_invocation_id iv"] rf fields
    by (auto simp: budget_inv_def mirrored_ok_def frame list_all_iff)
  from budget_inv_charge [OF inv ch res this] show "budget_inv d'" .
qed

lemma admit_tool_call_charged:
  assumes adm: "admit_tool_call owner account iv now d = Inr (a, d')" and inv: "budget_inv d"
    and fresh: "get_reservation d owner (fst (tool_identity (iv_invocation_id iv))) = None"
  obtains w d1 p u d2 i r w' u' where
    "admission_window owner account now d = Inr (w, d1)" "budget_inv d1" "active_window d1 owner = Some w"
    "canonical_policy owner w d1 = Inr p" "create_or_get_tool_usage id owner (win_epoch w) (iv_capability_id iv) d1 = Inr (u, d2)"
    "budget_inv d2" "policies d2 = policies d1" "windows d2 = windows d1" "u \<in> set (tool_usage d2)"
    "tu_key u = (owner, win_epoch w, iv_capability_id iv)"
    "\<not> exceeds (per_tool_limit p (iv_capability_id iv)) (tu_used_calls u + tu_reserved_calls u + 1)"
    "\<not> exceeds (pol_max_tool_calls_total p) (win_tool_calls_used w + win_tool_calls_reserved w + 1)"
    "charged d2 d' w w' (Some (iv_capability_id iv)) (reserved_delta TOOL_CALL 1)" "budget_inv d'"
    "reservations d' = reservations d @ [r]" "policies d' = policies d1" "windows d' = replace_row win_key w' (windows d2)"
    "tool_usage d' = replace_row tu_key u' (tool_usage d2)"
    "tu_key u' = tu_key u" "tu_used_calls u' = tu_used_calls u" "tu_reserved_calls u' = tu_reserved_calls u + 1"
    "win_ident w' = win_ident w" "res_key r = (owner, fst (tool_identity (iv_invocation_id iv)))" "res_state r = RESERVED"
    "res_tool r = (owner, win_epoch w, Some (iv_capability_id iv))" "res_reserved_amount_atomic r = 1" "res_resource_kind r = TOOL_CALL"
    "a = (direct_admission owner iv r)\<lparr>ta_window_epoch := Some (win_epoch w), ta_reservation_state := RESERVED\<rparr>"
    "verify_direct_reservation r owner iv = Inr ()" "tool_intent owner (win_epoch w) iv = Inr i" "new_reservation i = Inr r"
  using adm
proof (rule admit_tool_callE)
  fix w d1 p u d2 i r d3 w' d4 u'
  assume s: "admission_window owner account now d = Inr (w, d1)" "canonical_policy owner w d1 = Inr p"
    "create_or_get_tool_usage id owner (win_epoch w) (iv_capability_id iv) d1 = Inr (u, d2)"
    "\<not> exceeds (per_tool_limit p (iv_capability_id iv)) (tu_used_calls u + tu_reserved_calls u + 1)"
    "\<not> exceeds (pol_max_tool_calls_total p) (win_tool_calls_used w + win_tool_calls_reserved w + 1)"
    and i: "tool_intent owner (win_epoch w) iv = Inr i" and cr: "create_or_get_reservation id i d2 = Inr (r, d3)"
    and ver: "verify_direct_reservation r owner iv = Inr ()"
    and mw: "mutate_window_usage owner (win_epoch w) (win_revision w) [(tool_calls_reserved, win_tool_calls_reserved w + 1)] d3 = Inr (w', d4)"
    and mt: "mutate_tool_usage owner (win_epoch w') (iv_capability_id iv) (tu_revision u) (tu_used_calls u) (tu_reserved_calls u + 1) d4 = Inr (u', d')"
    and a: "a = (direct_admission owner iv r)\<lparr>ta_window_epoch := Some (win_epoch w'), ta_reservation_state := RESERVED\<rparr>"
  note adw = admission_window_inv [OF s(1) inv]
  then have w: "w \<in> set (windows d1)" "win_owner_user_id w = owner" by (auto dest: active_window_SomeD)
  note fr = create_tool_usage_frame [OF s(3)]
  have inv2: "budget_inv d2" using adw create_or_get_tool_usage_inv [OF s(3)] by simp
  have rs: "reservations d1 = reservations d" using adw rollover_window_reservations inv by metis
  note fields = tool_intent_fields [OF i]
  from cr obtain new: "new_reservation i = Inr r" "insert_reservation r d2 = Inr d3"
  proof (cases rule: create_or_get_reservationE)
    case existing
    with fresh rs fr(3) fields show thesis by (simp add: get_reservation_def)
  qed
  note rf = new_reservation_fields [OF new(1)]
  have w2: "w \<in> set (windows d2)" using w(1) fr(1) by simp
  note ch = admit_charged [OF inv2 w2 w(2) fr(6,7) i new mw mt]
  have "win_epoch w' = win_epoch w" using ch(12) by (simp add: win_ident_def)
  with adw s a show thesis
    by (intro that [OF s(1) _ _ s(2,3) inv2 fr(2,1,6,7) s(4,5) ch(1,2) _ _ ch(5-9,12) _ _ _ _ _ _ ver i new(1)])
      (simp_all add: ch rs fr rf fields res_key_def res_tool_def)
qed

lemma verify_direct_reservation_Inr:
  assumes "verify_direct_reservation r owner iv = Inr x"
  shows "res_reservation_id r = snd (tool_identity (iv_invocation_id iv))" "res_owner_user_id r = owner"
    "res_idempotency_key r = fst (tool_identity (iv_invocation_id iv))" "res_resource_kind r = TOOL_CALL"
    "or_empty (res_capability_id r) = iv_capability_id iv" "res_reserved_amount_atomic r = 1" "iv_capability_id iv \<noteq> []"
  using assms by (auto simp: verify_direct_reservation_def dest: tool_intent_fields)

section \<open>Settlement and release keep the ledger\<close>

definition finish_delta :: "reservation_state \<Rightarrow> window_counter \<Rightarrow> int" where
  "finish_delta target c =
     settled_delta TOOL_CALL (if target = SETTLED then 1 else 0) c + reserved_delta TOOL_CALL (- 1) c"

text \<open>The counter updates of a terminal transition, before the reservation itself moves.\<close>

lemma finish_tool_callE:
  assumes "finish_tool_call a key target now r d = Inr (a', d')" "target \<in> {SETTLED, RELEASED}"
  obtains w u w' d1 u' d2 t where
    "get_window d (ta_owner_user_id a) (res_window_epoch r) = Some w"
    "get_tool_usage d (ta_owner_user_id a) (res_window_epoch r) (ta_capability_id a) = Some u"
    "0 < win_tool_calls_reserved w" "0 < tu_reserved_calls u"
    "mutate_window_usage (ta_owner_user_id a) (win_epoch w) (win_revision w)
       (if target = SETTLED
        then [(tool_calls_used, win_tool_calls_used w + 1), (tool_calls_reserved, win_tool_calls_reserved w + - 1)]
        else [(tool_calls_reserved, win_tool_calls_reserved w + - 1)]) d = Inr (w', d1)"
    "mutate_tool_usage (ta_owner_user_id a) (win_epoch w) (ta_capability_id a) (tu_revision u)
       (tu_used_calls u + (if target = SETTLED then 1 else 0)) (tu_reserved_calls u + - 1) d1 = Inr (u', d2)"
    "transition_reservation (ta_owner_user_id a) key (res_revision r) target
       (if target = SETTLED then Some 1 else None) (if target = SETTLED then Some now else None) d2 = Inr (t, d')"
    "a' = a\<lparr>ta_reservation_state := res_state t, ta_historical_bridge := False\<rparr>"
  using assms by (cases "target = SETTLED") (auto simp: finish_tool_call_def Let_def)

lemma finish_window_delta:
  assumes "w' = (set_counters (if target = SETTLED
        then [(tool_calls_used, win_tool_calls_used w + 1), (tool_calls_reserved, win_tool_calls_reserved w + - 1)]
        else [(tool_calls_reserved, win_tool_calls_reserved w + - 1)]) w)\<lparr>win_revision := v\<rparr>"
  shows "counter c w' = counter c w + finish_delta target c"
proof (cases "target = SETTLED")
  case True
  show ?thesis unfolding assms finish_delta_def using True tool_window_delta(2) [where b = 1 and a = "- 1"] by simp
next
  case False
  show ?thesis unfolding assms finish_delta_def using False tool_window_delta(1) [where a = "- 1"]
    by (simp add: settled_delta_def)
qed

lemma finish_contrib:
  assumes "res_state r = RESERVED" "res_resource_kind r = TOOL_CALL" "res_reserved_amount_atomic r = 1" "target \<in> {SETTLED, RELEASED}"
    and "settlement_fields target (if target = SETTLED then Some 1 else None) (if target = SETTLED then Some now else None) = Inr (settled, stamp)"
    and "t = r\<lparr>res_state := target, res_settled_amount_atomic := settled, res_settled_at := stamp, res_revision := v\<rparr>"
  shows "contrib c t - contrib c r = finish_delta target c"
proof (cases "target = SETTLED")
  case True
  with assms(5) have "settled = Some 1" by (auto simp: settlement_fields_def)
  with assms True show ?thesis
    by (simp add: contrib_settled contrib_reserved finish_delta_def) (simp add: reserved_delta_def)
next
  case False
  with assms show ?thesis
    by (simp add: contrib_released contrib_reserved finish_delta_def) (simp add: reserved_delta_def settled_delta_def)
qed

lemma finish_tool_call_charged:
  assumes fin: "finish_tool_call a key target now r d = Inr (a', d')" and tgt: "target \<in> {SETTLED, RELEASED}"
    and inv: "budget_inv d" and r: "get_reservation d (ta_owner_user_id a) key = Some r" "res_state r = RESERVED"
    and ver: "verify_direct_reservation r (ta_owner_user_id a) (stored_invocation a r) = Inr x"
  obtains w w' t settled stamp where "charged d d' w w' (Some (ta_capability_id a)) (finish_delta target)" "budget_inv d'"
    "res_key t = res_key r" "res_state t = target" "reservations d' = replace_row res_key t (reservations d)"
    "policies d' = policies d" "win_ident w' = win_ident w" "win_key w = (ta_owner_user_id a, res_window_epoch r)"
    "res_reservation_id t = res_reservation_id r" "receipts d' = receipts d" "accounts d' = accounts d"
    "a' = a\<lparr>ta_reservation_state := target, ta_historical_bridge := False\<rparr>"
    "res_settled_amount_atomic t = (if target = SETTLED then Some 1 else None)"
    "t = r\<lparr>res_state := target, res_settled_amount_atomic := settled, res_settled_at := stamp, res_revision := res_revision r + 1\<rparr>"
  using fin tgt
proof (rule finish_tool_callE)
  let ?owner = "ta_owner_user_id a" and ?cap = "ta_capability_id a"
  fix w w' :: window_row and u u' :: tool_usage_row and t :: reservation_row and d1 d2
  let ?vs = "if target = SETTLED
        then [(tool_calls_used, win_tool_calls_used w + 1), (tool_calls_reserved, win_tool_calls_reserved w + - 1)]
        else [(tool_calls_reserved, win_tool_calls_reserved w + - 1)]"
  assume gw: "get_window d ?owner (res_window_epoch r) = Some w" and gu: "get_tool_usage d ?owner (res_window_epoch r) ?cap = Some u"
    and mw: "mutate_window_usage ?owner (win_epoch w) (win_revision w) ?vs d = Inr (w', d1)"
    and mt: "mutate_tool_usage ?owner (win_epoch w) ?cap (tu_revision u) (tu_used_calls u + (if target = SETTLED then 1 else 0))
       (tu_reserved_calls u + - 1) d1 = Inr (u', d2)"
    and tr: "transition_reservation ?owner key (res_revision r) target (if target = SETTLED then Some 1 else None)
       (if target = SETTLED then Some now else None) d2 = Inr (t, d')"
    and a': "a' = a\<lparr>ta_reservation_state := res_state t, ta_historical_bridge := False\<rparr>"
  note v = verify_direct_reservation_Inr [OF ver] and rm = get_reservation_SomeD [OF r(1)]
  have dist: "distinct (map win_key (windows d))" "distinct (map tu_key (tool_usage d))" "distinct (map res_key (reservations d))"
    using inv by (auto simp: budget_inv_def wf_windows_def wf_tool_usage_def wf_reservations_def)
  have w: "w \<in> set (windows d)" "win_owner_user_id w = ?owner" "win_epoch w = res_window_epoch r"
    using get_window_SomeD [OF gw] by (auto simp: win_key_def)
  note mw = mutate_window_memberE [OF mw dist(1) w(1,2)]
  have u: "u \<in> set (tool_usage d)" "tu_key u = (?owner, win_epoch w, ?cap)" using get_tool_usage_SomeD [OF gu] w(3) by auto
  have tu1: "tool_usage d1 = tool_usage d" using mw(5) by simp
  note mt = mutate_tool_memberE [OF mt, unfolded tu1, OF dist(2) u]
  have d2: "d2 = d\<lparr>windows := replace_row win_key w' (windows d), tool_usage := replace_row tu_key u' (tool_usage d)\<rparr>"
    using mt(4) mw(5) by simp
  have rs2: "distinct (map res_key (reservations d2))" using d2 dist(3) by simp
  have cap: "res_capability_id r = Some ?cap" using v(5,7) by (auto simp: or_empty_def stored_invocation_def split: option.splits)
  from tr rs2 show thesis
  proof (cases rule: transition_reservationE)
    case replayed
    with r d2 show thesis by (simp add: get_reservation_def)
  next
    case (moved r0 settled stamp)
    from moved(1,2) rm d2 dist(3) have "r0 = r" by (auto dest: distinct_key_eq)
    with moved have t: "t = r\<lparr>res_state := target, res_settled_amount_atomic := settled, res_settled_at := stamp, res_revision := res_revision r + 1\<rparr>"
      and tok: "reservation_row_ok t" by auto
    then have tf: "res_key t = res_key r" "res_win t = res_win r" "res_tool t = res_tool r" "res_capability_id t = res_capability_id r"
      "res_reservation_id t = res_reservation_id r" "res_resource_kind t = res_resource_kind r" "res_state t = target"
      by (simp_all add: res_key_def res_win_def res_tool_def)
    have rwin: "res_win r = win_key w" using rm w v(2) by (simp add: res_win_def win_key_def)
    have fr: "reservations d' = replace_row res_key t (reservations d)" "windows d' = replace_row win_key w' (windows d)"
      "tool_usage d' = replace_row tu_key u' (tool_usage d)" "policies d' = policies d" "accounts d' = accounts d" "receipts d' = receipts d"
      using moved(9) d2 by simp_all
    have "ledger_shift (reservations d) (reservations d') (win_key w) (Some ?cap) (finish_delta target)"
      unfolding fr using ledger_shift_cong [OF ledger_shift_replace [OF dist(3) _ tf(1,2,4)], of "finish_delta target"] rm
        finish_contrib [OF r(2) v(4,6) tgt moved(6) t] by (simp add: rwin cap)
    moreover have "tool_row_shift d d' w (Some ?cap) (finish_delta target)"
      unfolding tool_row_shift_def option.case using u w mt fr(3)
      by (intro exI [of _ u] exI [of _ u']) (simp add: finish_delta_def reserved_delta_tool settled_delta_tool)
    ultimately have ch: "charged d d' w w' (Some ?cap) (finish_delta target)"
      using w mw(2,3) fr finish_window_delta [OF mw(1)] by (simp add: charged_def)
    have res: "res_table_ok d (reservations d')"
      unfolding fr using budget_inv_res_table [OF inv] rm tok tf by (intro res_table_replace [of _ _ r]) auto
    have "res_idempotency_key t = res_idempotency_key r" using t by simp
    then have "mirrored_ok d'"
      using inv rm by (auto simp: budget_inv_def mirrored_ok_def fr(1,6) list_all_iff dest!: in_replace_row)
    from budget_inv_charge [OF inv ch res this] have inv': "budget_inv d'" .
    have settled: "settled = (if target = SETTLED then Some 1 else None)"
      using moved(6) by (auto simp: settlement_fields_def split: if_splits)
    show thesis
      by (rule that [OF ch inv' tf(1,7) fr(1,4) mw(3) _ tf(5) fr(6,5) _ _ t])
        (use w a' tf(7) t settled in \<open>simp_all add: win_key_def\<close>)
  qed
qed

section \<open>Attempts\<close>

text \<open>
  The environment a transaction relies on: other transactions keep the invariant, and acquiring the
  write intent fails only with the two transaction errors.
\<close>

definition env_ok :: "tx_env \<Rightarrow> bool" where
  "env_ok env \<longleftrightarrow>
     (\<forall>i d. budget_inv d \<longrightarrow> budget_inv (others env i d)) \<and>
     (\<forall>i d. budget_inv d \<longrightarrow> budget_inv (lock_wait env i d)) \<and>
     (\<forall>i. write_intent env i \<in> {None, Some UserBudgetSerializationError, Some UserBudgetTransactionError})"

definition quiet_env :: tx_env where
  "quiet_env = \<lparr>others = \<lambda>_ d. d, lock_wait = \<lambda>_ d. d, write_intent = \<lambda>_. None\<rparr>"

lemma quiet_env_ok: "env_ok quiet_env"
  by (simp add: env_ok_def quiet_env_def)

text \<open>What a direct admission promises: its reservation is durable in the state it names.\<close>

definition admission_ok :: "tool_admission \<Rightarrow> db \<Rightarrow> bool" where
  "admission_ok a d \<longleftrightarrow>
     (if ta_historical_bridge a then ta_reservation_state a = SETTLED \<and> ta_idempotency_key a = None
      else ta_idempotency_key a = Some (fst (tool_identity (ta_invocation_id a))) \<and>
           (case get_reservation d (ta_owner_user_id a) (fst (tool_identity (ta_invocation_id a))) of
              None \<Rightarrow> False
            | Some r \<Rightarrow> res_state r = ta_reservation_state a \<and> res_resource_kind r = TOOL_CALL \<and>
                        res_capability_id r = Some (ta_capability_id a) \<and> res_reserved_amount_atomic r = 1 \<and>
                        Some (res_reservation_id r) = ta_reservation_id a))"

lemma direct_admission_ok:
  assumes "get_reservation d owner (fst (tool_identity (iv_invocation_id iv))) = Some r"
    and "verify_direct_reservation r owner iv = Inr x"
  shows "admission_ok (direct_admission owner iv r) d"
  using assms verify_direct_reservation_Inr [OF assms(2)]
  by (auto simp: admission_ok_def direct_admission_def or_empty_def split: option.splits)

lemma historical_bridge_admission_ok:
  assumes "historical_bridge_admission d owner iv x y z args = Inr (Some a)"
  shows "ta_historical_bridge a \<and> ta_reservation_state a = SETTLED \<and> ta_idempotency_key a = None"
proof -
  from assms obtain t e c where "none_if_empty z = Some t" "none_if_empty x = Some e" "none_if_empty y = Some c"
    by (auto simp: historical_bridge_admission_def split: option.split_asm prod.split_asm)
  with assms show ?thesis
    by (cases "get_dual_accounting_receipt d (t, ''TOOL_CALL'', c, kind_value TOOL_CALL)")
      (auto simp: historical_bridge_admission_def Let_def)
qed

lemma reserve_attemptE:
  assumes "reserve_attempt env n ident invocation_id capability_id request_fp args execution_id tool_call_id task_id
     workflow_id session_id now d = Inr (a, d')"
  obtains (replayed) owner r x iv where "iv = string_invocation invocation_id capability_id request_fp execution_id tool_call_id task_id workflow_id session_id"
      "get_reservation d' owner (fst (tool_identity invocation_id)) = Some r" "verify_direct_reservation r owner iv = Inr x"
      "a = direct_admission owner iv r" "d' = d \<or> d' = lock_wait env n d"
  | (historical) "ta_historical_bridge a" "ta_reservation_state a = SETTLED" "ta_idempotency_key a = None" "d' = d"
  | (admitted) owner account iv where "iv = string_invocation invocation_id capability_id request_fp execution_id tool_call_id task_id workflow_id session_id"
      "get_account (lock_wait env n d) owner = Some account" "get_reservation (lock_wait env n d) owner (fst (tool_identity invocation_id)) = None"
      "admit_tool_call owner account iv now (lock_wait env n d) = Inr (a, d')"
proof -
  let ?iv = "string_invocation invocation_id capability_id request_fp execution_id tool_call_id task_id workflow_id session_id"
  let ?key = "fst (tool_identity invocation_id)" and ?d = "lock_wait env n d"
  from assms obtain res where wi: "write_intent env n = None" and res: "resolve_tool_owner d ident task_id = Inr res"
    by (auto simp: reserve_attempt_def split: option.splits)
  let ?owner = "bor_owner_user_id res"
  show thesis
  proof (cases "get_reservation d ?owner ?key")
    case (Some r)
    with assms wi res show thesis by (intro replayed) (auto simp: reserve_attempt_def Let_def)
  next
    case None
    with assms wi res obtain h where h: "historical_bridge_admission d ?owner ?iv execution_id tool_call_id task_id args = Inr h"
      by (auto simp: reserve_attempt_def Let_def)
    show thesis
    proof (cases h)
      case (Some x)
      with assms wi res None h have "a = x" "d' = d" by (auto simp: reserve_attempt_def Let_def)
      with h Some historical_bridge_admission_ok show thesis by (intro historical) auto
    next
      case none: None
      with assms wi res None h obtain account where acc: "get_account ?d ?owner = Some account"
        by (auto simp: reserve_attempt_def Let_def)
      show thesis
      proof (cases "get_reservation ?d ?owner ?key")
        case (Some r)
        with assms wi res None h none acc show thesis by (intro replayed) (auto simp: reserve_attempt_def Let_def)
      next
        case n2: None
        with assms wi res None h none acc show thesis by (intro admitted) (auto simp: reserve_attempt_def Let_def)
      qed
    qed
  qed
qed

lemma string_invocation_fields [simp]:
  "iv_invocation_id (string_invocation i c f e t k w s) = i"
  "iv_capability_id (string_invocation i c f e t k w s) = c"
  "iv_request_fingerprint (string_invocation i c f e t k w s) = f"
  by (simp_all add: string_invocation_def)

lemma reserve_attempt_inv:
  assumes env: "env_ok env" and inv: "budget_inv d"
    and att: "reserve_attempt env n ident invocation_id capability_id request_fp args execution_id tool_call_id task_id
     workflow_id session_id now d = Inr (a, d')"
  shows "budget_inv d' \<and> admission_ok a d'"
  using att
proof (cases rule: reserve_attemptE)
  case (replayed owner r x iv)
  with env inv show ?thesis by (auto simp: env_ok_def intro!: direct_admission_ok)
next
  case historical
  with inv show ?thesis by (simp add: admission_ok_def)
next
  case (admitted owner account iv)
  have inv0: "budget_inv (lock_wait env n d)" using env inv by (simp add: env_ok_def)
  have "get_reservation (lock_wait env n d) owner (fst (tool_identity (iv_invocation_id iv))) = None" using admitted by simp
  from admitted(4) inv0 this show ?thesis
  proof (rule admit_tool_call_charged)
    fix w d1 p u d2 i r w' u'
    assume inv': "budget_inv d'" and rs: "reservations d' = reservations (lock_wait env n d) @ [r]"
      and r: "res_key r = (owner, fst (tool_identity (iv_invocation_id iv)))" "res_state r = RESERVED"
        "res_tool r = (owner, win_epoch w, Some (iv_capability_id iv))" "res_reserved_amount_atomic r = 1" "res_resource_kind r = TOOL_CALL"
      and a: "a = (direct_admission owner iv r)\<lparr>ta_window_epoch := Some (win_epoch w), ta_reservation_state := RESERVED\<rparr>"
    have "distinct (map res_key (reservations d'))" using inv' by (simp add: budget_inv_def wf_reservations_def)
    then have "get_reservation d' owner (fst (tool_identity (iv_invocation_id iv))) = Some r"
      using find_key [of res_key "reservations d'" r] rs r(1) by (simp add: get_reservation_def)
    with inv' r a show ?thesis by (simp add: admission_ok_def direct_admission_def res_tool_def)
  qed
qed

lemma terminal_attempt_inv:
  assumes inv: "budget_inv d" and tgt: "target \<in> {SETTLED, RELEASED}"
    and att: "terminal_attempt env n a key target now d = Inr (a', d')"
  shows "budget_inv d'" "a' = a\<lparr>ta_reservation_state := target, ta_historical_bridge := False\<rparr>"
    "\<exists>r. get_reservation d' (ta_owner_user_id a) key = Some r \<and> res_state r = target \<and>
       verify_direct_reservation r (ta_owner_user_id a) (stored_invocation a r) = Inr ()"
proof -
  let ?owner = "ta_owner_user_id a"
  from att obtain r x where r: "get_reservation d ?owner key = Some r"
    and ver: "verify_direct_reservation r ?owner (stored_invocation a r) = Inr x"
    by (auto simp: terminal_attempt_def split: option.splits)
  have "budget_inv d' \<and> a' = a\<lparr>ta_reservation_state := target, ta_historical_bridge := False\<rparr> \<and>
    (\<exists>r. get_reservation d' ?owner key = Some r \<and> res_state r = target \<and>
       verify_direct_reservation r ?owner (stored_invocation a r) = Inr ())"
  proof (cases "res_state r = target")
    case True
    with att r ver have "a' = a\<lparr>ta_reservation_state := target, ta_historical_bridge := False\<rparr>" "d' = d"
      by (auto simp: terminal_attempt_def split: option.splits)
    with inv r True ver show ?thesis by simp
  next
    case False
    with att r ver have fin: "finish_tool_call a key target now r d = Inr (a', d')" and st: "res_state r = RESERVED"
      by (auto simp: terminal_attempt_def split: option.splits)
    from fin tgt inv r st ver show ?thesis
    proof (rule finish_tool_call_charged)
      fix w w' t settled stamp
      assume t: "budget_inv d'" "res_key t = res_key r" "res_state t = target" "reservations d' = replace_row res_key t (reservations d)"
        "a' = a\<lparr>ta_reservation_state := target, ta_historical_bridge := False\<rparr>"
        "t = r\<lparr>res_state := target, res_settled_amount_atomic := settled, res_settled_at := stamp, res_revision := res_revision r + 1\<rparr>"
      have "verify_direct_reservation t ?owner (stored_invocation a t) = Inr ()"
        using ver by (simp add: t(6) verify_direct_reservation_def stored_invocation_def stored_field_def)
      moreover have "get_reservation d' ?owner key = Some t"
        using find_replace_row [of r "reservations d" res_key t "(?owner, key)"] get_reservation_SomeD [OF r] t(2,4)
        by (simp add: get_reservation_def)
      ultimately show ?thesis using t(1,3,5) by blast
    qed
  qed
  then show "budget_inv d'" "a' = a\<lparr>ta_reservation_state := target, ta_historical_bridge := False\<rparr>"
    "\<exists>r. get_reservation d' (ta_owner_user_id a) key = Some r \<and> res_state r = target \<and>
       verify_direct_reservation r (ta_owner_user_id a) (stored_invocation a r) = Inr ()" by blast+
qed

section \<open>The retry loops\<close>

lemma na_tool [no_assert]:
  "resolve_tool_owner d ident task \<noteq> Inl AssertionError" "tool_intent owner epoch iv \<noteq> Inl AssertionError"
  "verify_direct_reservation r owner iv \<noteq> Inl AssertionError" "canonical_policy owner w d \<noteq> Inl AssertionError"
  "admission_window owner account now d \<noteq> Inl AssertionError" "historical_reservation d owner cap b \<noteq> Inl AssertionError"
  by (auto simp: resolve_tool_owner_def tool_intent_def verify_direct_reservation_def canonical_policy_def
      admission_window_def historical_reservation_def bindR_eq_Inl no_assert split: option.splits)

lemma na_historical [no_assert]: "historical_bridge_admission d owner iv x y z args \<noteq> Inl AssertionError"
  by (auto simp: historical_bridge_admission_def Let_def bindR_eq_Inl no_assert split: option.splits)

lemma na_admit [no_assert]: "admit_tool_call owner account iv now d \<noteq> Inl AssertionError"
  by (auto simp: admit_tool_call_def bindR_eq_Inl no_assert)

lemma na_finish [no_assert]: "finish_tool_call a key target now r d \<noteq> Inl AssertionError"
  by (auto simp: finish_tool_call_def Let_def bindR_eq_Inl no_assert)

type_synonym reserve_args = "identity \<times> string \<times> string \<times> string \<times> (string \<times> json) list \<times> string option \<times>
  string option \<times> string option \<times> string option \<times> string option \<times> pydatetime"

abbreviation reserve_with :: "tx_env \<Rightarrow> reserve_args \<Rightarrow> nat \<Rightarrow> db \<Rightarrow> err + (tool_admission \<times> db)" where
  "reserve_with env args n \<equiv>
     (case args of (ident, iid, cap, fp, arguments, ex, tc, task, flow, sess, now) \<Rightarrow>
        reserve_attempt env n ident iid cap fp arguments ex tc task flow sess now)"

interpretation tool_reserve: retried_transaction env_ok others reserve_with budget_inv "\<lambda>_. admission_ok"
    is_retryable_error AssertionError
proof (unfold_locales, goal_cases)
  case (1 env d i)
  then show ?case by (simp add: env_ok_def)
next
  case (2 env d args i a d')
  then show ?case by (auto simp: split_beta dest: reserve_attempt_inv)
next
  case (3 env d args i)
  have "write_intent env i \<noteq> Some AssertionError" using 3(1) by (auto simp: env_ok_def dest: spec [of _ i])
  then show ?case
    by (auto simp: reserve_attempt_def Let_def bindR_eq_Inl no_assert split_beta split: option.splits)
qed

type_synonym terminal_args = "tool_admission \<times> string \<times> reservation_state \<times> pydatetime"

text \<open>Only the two terminal targets reach the loop; any other target is refused before it.\<close>

abbreviation terminal_with :: "tx_env \<Rightarrow> terminal_args \<Rightarrow> nat \<Rightarrow> db \<Rightarrow> err + (tool_admission \<times> db)" where
  "terminal_with env args n d \<equiv>
     (case args of (a, key, target, now) \<Rightarrow>
        if target \<in> {SETTLED, RELEASED} then terminal_attempt env n a key target now d else Inl ValueError)"

definition terminal_post :: "terminal_args \<Rightarrow> tool_admission \<Rightarrow> db \<Rightarrow> bool" where
  "terminal_post args a' d \<longleftrightarrow>
     (case args of (a, key, target, now) \<Rightarrow>
        a' = a\<lparr>ta_reservation_state := target, ta_historical_bridge := False\<rparr> \<and>
        (case get_reservation d (ta_owner_user_id a) key of
           None \<Rightarrow> False
         | Some r \<Rightarrow> res_state r = target \<and>
                     verify_direct_reservation r (ta_owner_user_id a) (stored_invocation a r) = Inr ()))"

interpretation tool_terminal: retried_transaction env_ok others terminal_with budget_inv terminal_post
    is_retryable_error AssertionError
proof (unfold_locales, goal_cases)
  case (1 env d i)
  then show ?case by (simp add: env_ok_def)
next
  case (2 env d args i a' d')
  obtain a key target now where args: "args = (a, key, target, now)" by (cases args)
  from 2(3) args have att: "terminal_attempt env i a key target now d = Inr (a', d')" and tgt: "target \<in> {SETTLED, RELEASED}"
    by (auto split: if_splits)
  from terminal_attempt_inv [OF 2(2) tgt att] show ?case by (auto simp: terminal_post_def args)
next
  case (3 env d args i)
  have "write_intent env i \<noteq> Some AssertionError" using 3(1) by (auto simp: env_ok_def dest: spec [of _ i])
  then show ?case
    by (auto simp: terminal_attempt_def bindR_eq_Inl no_assert split_beta split: option.splits)
qed

end
