(* ===== verification/Sample_Run.thy ===== *)
theory Sample_Run
  imports Tool_Quota
begin

text \<open>
  One run of the tool quota on a concrete database: a user whose policy allows two tool calls per
  window, one per capability, reserves a call in a window that is opened on the way, and settles it.
  The digests stay symbolic. The conditional theorems of the later theories are applied to this run.
\<close>

section \<open>The database\<close>

definition ex_policy :: policy_row where
  "ex_policy =
     \<lparr>pol_policy_id = ''p1'', pol_owner_user_id = ''u1'', pol_policy_version = ''v1'', pol_policy_fingerprint = ''f1'',
      pol_window_duration_seconds = 3600, pol_max_compute_atomic = None, pol_max_inference_calls = Some 10,
      pol_max_input_tokens = None, pol_max_output_tokens = None, pol_max_total_tokens = Some 1000,
      pol_max_tool_calls_total = Some 2, pol_default_per_tool_limit = Some 1, pol_tool_limits_json = [],
      pol_max_cost_usd_atomic = None, pol_revision = 0\<rparr>"

definition ex_db :: db where
  "ex_db =
     \<lparr>users = [''u1''], organizations = [], applications = [], api_keys = [], tasks = [], task_budget_next_generation = 1, task_budgets = [],
      task_budget_reservations = [], executions = [], tool_calls = [], iterations = [], policies = [ex_policy],
      windows = [],
      accounts = [\<lparr>acc_owner_user_id = ''u1'', acc_revision = 0, acc_next_policy_id = Some ''p1'',
                   acc_active_window_epoch = None, acc_next_window_epoch = 1\<rparr>],
      tool_usage = [], reservations = [], bindings = [], receipts = []\<rparr>"

definition ex_identity :: identity where
  "ex_identity = \<lparr>id_user_id = Some ''u1'', id_organization_id = None, id_application_id = None, id_api_key_id = None,
                  id_auth_type = jwt\<rparr>"

definition ex_now :: pydatetime where
  "ex_now = PyDT 1000 (Some 0)"

definition ex_settings :: tool_quota_settings where
  "ex_settings = \<lparr>tqs_enabled = True, tqs_max_conflict_retries = 3\<rparr>"

lemma ex_db_inv: "budget_inv ex_db"
  by (simp add: ex_db_def ex_policy_def budget_inv_defs policy_row_ok_def opt_pos64_def USER_BUDGET_INT64_MAX_def active_owners_def
     account_row_ok_def account_refs_ok_def)

lemmas ex_eval =
  ex_settings_def quiet_env_def ex_identity_def ex_db_def ex_policy_def ex_now_def
  resolve_tool_owner_def resolve_budget_owner_def none_if_empty_def resolution_def
  get_reservation_def get_account_def get_policy_def get_active_window_def active_windows_def
  normalize_authoritative_utc_def add_seconds_def DATETIME_MAX_def USER_BUDGET_INT64_MAX_def
  insert_window_def window_row_ok_def new_window_def instant_def record_utc_def all_counters_def nat64_def
  exact_policy_def win_key_def active_owners_def advance_account_def update_accounts_def update_windows_def

definition ex_window :: window_row where
  "ex_window = new_window ''u1'' 1 ex_policy ex_now (PyDT 3600001000 (Some 0))"

definition ex_open :: db where
  "ex_open = ex_db\<lparr>windows := [ex_window],
     accounts := [\<lparr>acc_owner_user_id = ''u1'', acc_revision = 1, acc_next_policy_id = Some ''p1'',
                   acc_active_window_epoch = Some 1, acc_next_window_epoch = 2\<rparr>]\<rparr>"

lemma ex_rollover: "rollover_window ''u1'' 0 ex_now ex_db = Inr (ex_window, ex_open)"
  by (simp add: rollover_window_def open_window_def Let_def ex_eval ex_window_def ex_open_def account_row_ok_def account_refs_ok_def upd_where_def)


definition ex_invocation :: invocation where
  "ex_invocation = string_invocation ''i1'' ''cap'' ''rf'' None None None None None"

definition ex_key :: string where "ex_key = fst (tool_identity ''i1'')"

definition ex_attribution :: "(string \<times> json) list" where
  "ex_attribution = stored_attribution ''i1'' ''cap'' ''rf'' JNull JNull JNull JNull JNull"

definition ex_fingerprint :: string where
  "ex_fingerprint = canonical_sha256
     [(''resource_kind'', JStr ''TOOL_CALL''), (''reserved_amount_atomic'', JInt 1), (''capability_id'', JStr ''cap''),
      (''attribution'', JObj ex_attribution)]"

definition ex_reservation :: reservation_row where
  "ex_reservation =
     \<lparr>res_reservation_id = snd (tool_identity ''i1''), res_owner_user_id = ''u1'', res_window_epoch = 1,
      res_idempotency_key = ex_key, res_resource_kind = TOOL_CALL, res_capability_id = Some ''cap'',
      res_reserved_amount_atomic = 1, res_settled_amount_atomic = None, res_state = RESERVED,
      res_attribution_json = ex_attribution,
      res_payload_fingerprint = ex_fingerprint, res_revision = 0, res_settled_at = None\<rparr>"

definition ex_reserved :: db where
  "ex_reserved = ex_open\<lparr>
     windows := [ex_window\<lparr>win_tool_calls_reserved := 1, win_revision := 1\<rparr>],
     tool_usage := [\<lparr>tu_owner_user_id = ''u1'', tu_window_epoch = 1, tu_capability_id = ''cap'',
                     tu_used_calls = 0, tu_reserved_calls = 1, tu_revision = 1\<rparr>],
     reservations := [ex_reservation]\<rparr>"

definition ex_admission :: tool_admission where
  "ex_admission =
     \<lparr>ta_owner_user_id = ''u1'', ta_invocation_id = ''i1'', ta_capability_id = ''cap'', ta_request_fingerprint = ''rf'',
      ta_idempotency_key = Some ex_key, ta_reservation_id = Some (snd (tool_identity ''i1'')), ta_window_epoch = Some 1,
      ta_reservation_state = RESERVED, ta_historical_bridge = False\<rparr>"

lemma py_len_tool_identity: "py_len (fst (tool_identity i)) = 72" "py_len (snd (tool_identity i)) = 70"
  by (simp_all add: tool_identity_def tool_digest_def py_len_simps)

definition ex_intent :: intent where
  "ex_intent =
     \<lparr>in_reservation_id = snd (tool_identity ''i1''), in_owner_user_id = ''u1'', in_window_epoch = 1,
      in_idempotency_key = ex_key, in_resource_kind = TOOL_CALL, in_capability_id = Some ''cap'',
      in_reserved_amount_atomic = 1, in_attribution = tool_attribution ex_invocation\<rparr>"

lemma ex_tool_intent: "tool_intent ''u1'' 1 ex_invocation = Inr ex_intent"
  by (simp add: tool_intent_def ex_invocation_def string_invocation_def make_intent_def bounded_str_def py_len_tool_identity
      positive_int64_def USER_BUDGET_INT64_MAX_def capability_scope_ok_def ex_key_def py_len_simps
      ex_intent_def)

lemma ex_canonical: "canonical_attribution ex_intent = Inr ex_attribution"
proof -
  have "canonicalize_json (VDict (tool_attribution ex_invocation)) = Inr (JObj ex_attribution)"
    by (subst tool_attribution_canonical [where e = JNull and t = JNull and k = JNull and w = JNull and s = JNull])
      (simp_all add: ex_invocation_def string_invocation_def opt_str_def ex_attribution_def)
  moreover have "in_attribution ex_intent = tool_attribution ex_invocation" by (simp add: ex_intent_def)
  ultimately show ?thesis by (simp only: canonical_attribution_def bindR_simps json.case)
qed

lemma ex_payload: "payload_fingerprint ex_intent = Inr ex_fingerprint"
  by (simp add: payload_fingerprint_def ex_canonical ex_fingerprint_def) (simp add: ex_intent_def json_opt_str_def)

lemma ex_new_reservation: "new_reservation ex_intent = Inr ex_reservation"
  by (simp add: new_reservation_def ex_canonical ex_payload) (simp add: ex_intent_def ex_reservation_def)


section \<open>Reserving\<close>

lemma ex_reservation_fields:
  "res_reservation_id ex_reservation = snd (tool_identity ''i1'')" "res_owner_user_id ex_reservation = ''u1''"
  "res_window_epoch ex_reservation = 1" "res_idempotency_key ex_reservation = ex_key"
  "res_resource_kind ex_reservation = TOOL_CALL" "res_capability_id ex_reservation = Some ''cap''"
  "res_reserved_amount_atomic ex_reservation = 1" "res_settled_amount_atomic ex_reservation = None"
  "res_state ex_reservation = RESERVED" "res_payload_fingerprint ex_reservation = ex_fingerprint"
  "res_revision ex_reservation = 0" "res_settled_at ex_reservation = None" "res_key ex_reservation = (''u1'', ex_key)"
  by (simp_all add: ex_reservation_def res_key_def)

lemma ex_verify: "verify_direct_reservation ex_reservation ''u1'' ex_invocation = Inr ()"
  by (simp add: verify_direct_reservation_def ex_reservation_fields ex_tool_intent ex_payload or_empty_def)
    (simp add: ex_invocation_def ex_key_def)

definition ex_usage :: db where
  "ex_usage = ex_open\<lparr>tool_usage := [new_tool_usage ''u1'' 1 ''cap'']\<rparr>"

lemma ex_admission_window: "admission_window ''u1'' (hd (accounts ex_db)) ex_now ex_db = Inr (ex_window, ex_open)"
proof -
  have "get_active_window ex_db ''u1'' = Inr None" by (simp add: ex_eval)
  moreover have "acc_revision (hd (accounts ex_db)) = 0" by (simp add: ex_db_def)
  ultimately show ?thesis by (simp add: admission_window_def ex_rollover)
qed

lemma ex_policy_canonical: "canonical_policy ''u1'' ex_window ex_open = Inr ex_policy"
  by (simp add: canonical_policy_def ex_open_def ex_window_def ex_eval is_recognized_shadow_policy_def starts_with_def)

lemma ex_tool_usage: "create_or_get_tool_usage id ''u1'' (win_epoch ex_window) ''cap'' ex_open = Inr (new_tool_usage ''u1'' 1 ''cap'', ex_usage)"
  by (simp add: create_or_get_tool_usage_def create_or_get_def get_tool_usage_def ex_open_def ex_eval ex_window_def
      insert_tool_usage_def new_tool_usage_def tool_usage_row_ok_def ex_usage_def)


definition ex_inserted :: db where
  "ex_inserted = ex_usage\<lparr>reservations := [ex_reservation]\<rparr>"

lemma ex_create: "create_or_get_reservation id ex_intent ex_usage = Inr (ex_reservation, ex_inserted)"
proof -
  have "get_reservation ex_usage (in_owner_user_id ex_intent) (in_idempotency_key ex_intent) = None"
    by (simp add: get_reservation_def ex_usage_def ex_open_def ex_db_def)
  moreover have "insert_reservation ex_reservation ex_usage = Inr ex_inserted"
    by (simp add: insert_reservation_def ex_usage_def ex_open_def ex_db_def ex_inserted_def ex_window_def ex_reservation_fields
        reservation_row_ok_def USER_BUDGET_INT64_MAX_def)
  ultimately show ?thesis by (simp add: create_or_get_reservation_def create_or_get_def ex_new_reservation)
qed

lemma ex_mutate_window:
  "mutate_window_usage ''u1'' 1 0 [(tool_calls_reserved, 1)] ex_inserted =
     Inr (ex_window\<lparr>win_tool_calls_reserved := 1, win_revision := 1\<rparr>,
          ex_inserted\<lparr>windows := [ex_window\<lparr>win_tool_calls_reserved := 1, win_revision := 1\<rparr>]\<rparr>)"
  by (simp add: mutate_window_usage_def get_window_def ex_inserted_def ex_usage_def ex_open_def ex_window_def ex_eval Let_def
      require_atomic_counter_def monotonic_used_fields_def set_counters_def upd_where_def)

lemma ex_mutate_tool:
  "mutate_tool_usage ''u1'' 1 ''cap'' 0 0 1
     (ex_inserted\<lparr>windows := [ex_window\<lparr>win_tool_calls_reserved := 1, win_revision := 1\<rparr>]\<rparr>) =
     Inr (hd (tool_usage ex_reserved), ex_reserved)"
  by (simp add: mutate_tool_usage_def get_tool_usage_def ex_inserted_def ex_usage_def ex_reserved_def Let_def require_atomic_counter_def
      USER_BUDGET_INT64_MAX_def new_tool_usage_def tu_key_def update_tool_usage_def tool_usage_row_ok_def nat64_def upd_where_def)

lemma ex_admit:
  "admit_tool_call ''u1'' (hd (accounts ex_db)) ex_invocation ex_now ex_db = Inr (ex_admission, ex_reserved)"
proof -
  have lim: "\<not> exceeds (per_tool_limit ex_policy ''cap'') 1" "\<not> exceeds (pol_max_tool_calls_total ex_policy) 1"
    by (simp_all add: ex_policy_def per_tool_limit_def dict_get_def exceeds_def)
  have iv: "iv_capability_id ex_invocation = ''cap''" "iv_invocation_id ex_invocation = ''i1''" "iv_request_fingerprint ex_invocation = ''rf''"
    by (simp_all add: ex_invocation_def)
  have w: "win_epoch ex_window = 1" "win_tool_calls_used ex_window = 0" "win_tool_calls_reserved ex_window = 0" "win_revision ex_window = 0"
    by (simp_all add: ex_window_def new_window_def)
  have u: "tu_used_calls (new_tool_usage ''u1'' 1 ''cap'') = 0" "tu_reserved_calls (new_tool_usage ''u1'' 1 ''cap'') = 0"
    "tu_revision (new_tool_usage ''u1'' 1 ''cap'') = 0"
    by (simp_all add: new_tool_usage_def)
  note steps = ex_admission_window ex_policy_canonical ex_tool_usage [unfolded w] ex_tool_intent ex_create ex_verify ex_mutate_window ex_mutate_tool
  show ?thesis
    by (simp add: admit_tool_call_def steps iv w u lim direct_admission_def ex_admission_def ex_reservation_fields ex_key_def)
qed

lemma ex_reserve:
  "reserve_tool_call ex_settings quiet_env ex_identity ''i1'' ''cap'' ''rf'' [] None None None None None ex_now ex_db =
     (Inr (Some ex_admission), ex_reserved)"
proof -
  let ?d = "ex_db"
  have owner: "\<exists>res. resolve_tool_owner ?d ex_identity None = Inr res \<and> bor_owner_user_id res = ''u1''"
    by (simp add: ex_eval)
  then obtain res where res: "resolve_tool_owner ?d ex_identity None = Inr res" "bor_owner_user_id res = ''u1''" by blast
  have acc: "get_account ?d ''u1'' = Some (hd (accounts ?d))" "acc_next_policy_id (hd (accounts ?d)) = Some ''p1''"
    "get_reservation ?d ''u1'' (fst (tool_identity ''i1'')) = None"
    by (simp_all add: get_account_def get_reservation_def ex_db_def)
  have "reserve_attempt quiet_env 0 ex_identity ''i1'' ''cap'' ''rf'' [] None None None None None ex_now ?d =
      Inr (ex_admission, ex_reserved)"
    using ex_admit
    by (simp add: reserve_attempt_def res acc Let_def quiet_env_def historical_bridge_admission_def none_if_empty_def ex_invocation_def)
  then show ?thesis
    by (simp add: reserve_tool_call_def ex_settings_def) (simp add: numeral_eq_Suc quiet_env_def)
qed

end
