(* ===== verification/Quota_Limits.thy ===== *)
theory Quota_Limits
  imports Sample_Run
begin

text \<open>
  The limits a policy sets on calls are never exceeded. \<open>quota_ok\<close> says that no window and no
  capability has more used and reserved tool calls, and no window more inference calls, than the
  policy governing the window allows. A charge keeps it when the new sums are within the limits,
  which admission checks before it writes; settlement moves a call from reserved to used and
  release drops it.
\<close>

section \<open>The quota invariant\<close>

definition over_quota :: "int option \<Rightarrow> int \<Rightarrow> bool" where
  "over_quota limit n \<longleftrightarrow> 0 < n \<and> exceeds limit n"

definition window_within :: "(policy_row \<Rightarrow> int option) \<Rightarrow> policy_row list \<Rightarrow> window_row \<Rightarrow> int \<Rightarrow> bool" where
  "window_within lim ps w n \<longleftrightarrow> list_all (\<lambda>p. exact_policy w p \<longrightarrow> \<not> over_quota (lim p) n) ps"

definition tool_within :: "policy_row list \<Rightarrow> window_row \<Rightarrow> string \<Rightarrow> int \<Rightarrow> bool" where
  "tool_within ps w cap n \<longleftrightarrow>
     list_all (\<lambda>p. exact_policy w p \<longrightarrow> \<not> over_quota (per_tool_limit p cap) n) ps"

definition quota_ok :: "db \<Rightarrow> bool" where
  "quota_ok d \<longleftrightarrow>
     list_all (\<lambda>w. window_within pol_max_tool_calls_total (policies d) w (win_tool_calls_used w + win_tool_calls_reserved w) \<and>
                   window_within pol_max_inference_calls (policies d) w (win_inference_used w + win_inference_reserved w)) (windows d) \<and>
     list_all (\<lambda>u. list_all (\<lambda>w. win_key w = tu_win u \<longrightarrow>
       tool_within (policies d) w (tu_capability_id u) (tu_used_calls u + tu_reserved_calls u)) (windows d)) (tool_usage d)"

lemma over_quota_mono: "n' \<le> n \<Longrightarrow> over_quota l n' \<Longrightarrow> over_quota l n"
  by (auto simp: over_quota_def exceeds_def split: option.splits)

lemma within_mono:
  "n' \<le> n \<Longrightarrow> window_within lim ps w n \<Longrightarrow> window_within lim ps w n'"
  "n' \<le> n \<Longrightarrow> tool_within ps w cap n \<Longrightarrow> tool_within ps w cap n'"
  by (auto simp: window_within_def tool_within_def list_all_iff dest: over_quota_mono)

lemma within_zero [simp]: "window_within lim ps w 0" "tool_within ps w cap 0"
  by (simp_all add: window_within_def tool_within_def over_quota_def list_all_iff)

lemma within_ident:
  "exact_policy w = exact_policy w' \<Longrightarrow> window_within lim ps w = window_within lim ps w'"
  "exact_policy w = exact_policy w' \<Longrightarrow> tool_within ps w = tool_within ps w'"
  by (simp_all add: window_within_def tool_within_def fun_eq_iff)

lemma quota_ok_window:
  "quota_ok d \<Longrightarrow> w \<in> set (windows d) \<Longrightarrow>
   window_within pol_max_tool_calls_total (policies d) w (win_tool_calls_used w + win_tool_calls_reserved w) \<and>
   window_within pol_max_inference_calls (policies d) w (win_inference_used w + win_inference_reserved w)"
  by (simp add: quota_ok_def list_all_iff)

lemma quota_ok_tool:
  "quota_ok d \<Longrightarrow> u \<in> set (tool_usage d) \<Longrightarrow> w \<in> set (windows d) \<Longrightarrow> win_key w = tu_win u \<Longrightarrow>
   tool_within (policies d) w (tu_capability_id u) (tu_used_calls u + tu_reserved_calls u)"
  by (simp add: quota_ok_def list_all_iff)

section \<open>Charges\<close>

lemma charged_old_window:
  assumes "charged d d' w w' cap \<delta>" "x \<in> set (windows d')"
  obtains y where "y \<in> set (windows d)" "win_key x = win_key y" "exact_policy x = exact_policy y"
    "x = w' \<and> y = w \<or> x = y"
proof -
  have w: "w \<in> set (windows d)" "win_ident w' = win_ident w" using assms(1) by (auto simp: charged_def)
  from assms consider "x = w'" | "x \<in> set (windows d)" by (auto simp: charged_def dest: in_replace_row)
  then show thesis
  proof cases
    case 1
    with w show thesis by (intro that [of w]) (auto dest: win_ident_key exact_policy_ident)
  qed (auto intro: that)
qed

lemma charged_tool_row:
  assumes "charged d d' w w' cap \<delta>" "x \<in> set (tool_usage d')"
  obtains (same) "x \<in> set (tool_usage d)"
  | (shifted) u where "u \<in> set (tool_usage d)" "tu_key x = tu_key u" "cap = Some (tu_capability_id u)" "tu_win u = win_key w"
      "tu_used_calls x + tu_reserved_calls x = tu_used_calls u + tu_reserved_calls u + (\<delta> tool_calls_used + \<delta> tool_calls_reserved)"
proof (cases cap)
  case None
  with assms show thesis by (intro same) (simp add: charged_def tool_row_shift_def)
next
  case (Some c)
  with assms(1) obtain u u' where u: "u \<in> set (tool_usage d)" "tu_key u = (win_owner_user_id w, win_epoch w, c)"
    "tu_key u' = tu_key u" "tu_used_calls u' = tu_used_calls u + \<delta> tool_calls_used"
    "tu_reserved_calls u' = tu_reserved_calls u + \<delta> tool_calls_reserved"
    "tool_usage d' = replace_row tu_key u' (tool_usage d)"
    by (auto simp: charged_def tool_row_shift_def)
  with assms(2) consider "x = u'" | "x \<in> set (tool_usage d)" by (auto dest: in_replace_row)
  then show thesis
  proof cases
    case 1
    with u Some show thesis by (intro shifted [of u]) (auto simp: tu_key_def tu_win_def win_key_def)
  qed (rule same)
qed

lemma charged_quota:
  assumes ch: "charged d d' w w' cap \<delta>" and ok: "quota_ok d" and keys: "distinct (map win_key (windows d))"
    and win: "window_within pol_max_tool_calls_total (policies d) w
      (win_tool_calls_used w + win_tool_calls_reserved w + (\<delta> tool_calls_used + \<delta> tool_calls_reserved))"
    and inf: "window_within pol_max_inference_calls (policies d) w
      (win_inference_used w + win_inference_reserved w + (\<delta> inference_used + \<delta> inference_reserved))"
    and tool: "\<And>u. u \<in> set (tool_usage d) \<Longrightarrow> tu_win u = win_key w \<Longrightarrow> cap = Some (tu_capability_id u) \<Longrightarrow>
      tool_within (policies d) w (tu_capability_id u)
        (tu_used_calls u + tu_reserved_calls u + (\<delta> tool_calls_used + \<delta> tool_calls_reserved))"
  shows "quota_ok d'"
proof -
  have w: "w \<in> set (windows d)" "policies d' = policies d" "counter c w' = counter c w + \<delta> c" for c
    using ch by (auto simp: charged_def)
  have sum': "win_tool_calls_used w' + win_tool_calls_reserved w' =
      win_tool_calls_used w + win_tool_calls_reserved w + (\<delta> tool_calls_used + \<delta> tool_calls_reserved)"
      "win_inference_used w' + win_inference_reserved w' =
      win_inference_used w + win_inference_reserved w + (\<delta> inference_used + \<delta> inference_reserved)"
    using w(3) [of tool_calls_used] w(3) [of tool_calls_reserved] w(3) [of inference_used] w(3) [of inference_reserved] by simp_all
  have "window_within pol_max_tool_calls_total (policies d) x (win_tool_calls_used x + win_tool_calls_reserved x) \<and>
      window_within pol_max_inference_calls (policies d) x (win_inference_used x + win_inference_reserved x)"
    if x: "x \<in> set (windows d')" for x
    using ch x
  proof (rule charged_old_window)
    fix y assume y: "y \<in> set (windows d)" "exact_policy x = exact_policy y" "x = w' \<and> y = w \<or> x = y"
    with within_ident(1) [OF y(2)] win inf quota_ok_window [OF ok y(1)] show ?thesis by (auto simp: sum')
  qed
  moreover have "tool_within (policies d) x (tu_capability_id t) (tu_used_calls t + tu_reserved_calls t)"
    if x: "x \<in> set (windows d')" and t: "t \<in> set (tool_usage d')" and k: "win_key x = tu_win t" for x t
    using ch x
  proof (rule charged_old_window)
    fix y assume y: "y \<in> set (windows d)" "win_key x = win_key y" "exact_policy x = exact_policy y"
    note same_pol = within_ident(2) [OF y(3)]
    from ch t show ?thesis
    proof (cases rule: charged_tool_row)
      case same
      with quota_ok_tool [OF ok _ y(1)] y(2) k same_pol show ?thesis by simp
    next
      case (shifted u)
      then have u: "tu_capability_id t = tu_capability_id u" "tu_win t = tu_win u" by (auto simp: tu_key_def tu_win_def)
      with shifted y k w(1) keys have "y = w" by (auto dest: distinct_key_eq)
      with tool [OF shifted(1,4,3)] shifted(5) u same_pol show ?thesis by simp
    qed
  qed
  ultimately show ?thesis by (simp add: quota_ok_def w(2) list_all_iff)
qed

lemma charged_quota_decreasing:
  assumes "charged d d' w w' cap \<delta>" "quota_ok d" "distinct (map win_key (windows d))"
    and "\<delta> tool_calls_used + \<delta> tool_calls_reserved \<le> 0" "\<delta> inference_used + \<delta> inference_reserved \<le> 0"
  shows "quota_ok d'"
proof (rule charged_quota [OF assms(1-3)])
  have "w \<in> set (windows d)" using assms(1) by (simp add: charged_def)
  note old = quota_ok_window [OF assms(2) this]
  show "window_within pol_max_tool_calls_total (policies d) w
      (win_tool_calls_used w + win_tool_calls_reserved w + (\<delta> tool_calls_used + \<delta> tool_calls_reserved))"
    by (rule within_mono(1) [OF _ old [THEN conjunct1]]) (use assms(4) in simp)
  show "window_within pol_max_inference_calls (policies d) w
      (win_inference_used w + win_inference_reserved w + (\<delta> inference_used + \<delta> inference_reserved))"
    by (rule within_mono(1) [OF _ old [THEN conjunct2]]) (use assms(5) in simp)
next
  fix u assume "u \<in> set (tool_usage d)" "tu_win u = win_key w"
  moreover have "w \<in> set (windows d)" using assms(1) by (simp add: charged_def)
  ultimately show "tool_within (policies d) w (tu_capability_id u)
      (tu_used_calls u + tu_reserved_calls u + (\<delta> tool_calls_used + \<delta> tool_calls_reserved))"
    using within_mono(2) [OF _ quota_ok_tool [OF assms(2)]] assms(4) by simp
qed


section \<open>New rows\<close>

lemma rollover_quota:
  assumes "rollover_window owner v now d = Inr (w, d')" "budget_inv d" "quota_ok d"
  shows "quota_ok d'"
  using assms(1,2)
proof (cases rule: rollover_windowE)
  case live
  with assms(3) show ?thesis by simp
next
  case (opened n account)
  from opened(3) assms(2) refl opened(2) show ?thesis
  proof (rule open_windowE)
    fix p expires d1 a'
    let ?nw = "new_window owner (acc_next_window_epoch account) p n expires"
    assume cl: "closed_of owner (windows d) (windows d1)" and d1: "d1 = d\<lparr>windows := windows d1\<rparr>"
      and ins: "insert_window ?nw d1 = Inr (d\<lparr>windows := windows d1 @ [?nw]\<rparr>)"
      and d': "d' = d\<lparr>windows := windows d1 @ [?nw], accounts := replace_row acc_owner_user_id a' (accounts d)\<rparr>"
    have tables: "windows d' = windows d1 @ [?nw]" "policies d' = policies d" "tool_usage d' = tool_usage d"
      using d' by simp_all
    have keys: "win_key ` set (windows d1) = win_key ` set (windows d)"
      using closed_of_keys [OF cl] by (metis list.set_map)
    have "win_key ?nw \<notin> win_key ` set (windows d1)" using ins by (auto simp: insert_window_def split: if_splits)
    moreover have "tu_win t \<in> win_key ` set (windows d)" if "t \<in> set (tool_usage d)" for t
      using assms(2) that by (simp add: budget_inv_def wf_tool_usage_def list_all_iff)
    ultimately have fresh: "(owner, acc_next_window_epoch account) \<noteq> tu_win t" if "t \<in> set (tool_usage d)" for t
      using that keys by (metis new_window_fields(4))
    have old: "window_within pol_max_tool_calls_total (policies d) x (win_tool_calls_used x + win_tool_calls_reserved x) \<and>
        window_within pol_max_inference_calls (policies d) x (win_inference_used x + win_inference_reserved x) \<and>
        (\<forall>t \<in> set (tool_usage d). win_key x = tu_win t \<longrightarrow>
           tool_within (policies d) x (tu_capability_id t) (tu_used_calls t + tu_reserved_calls t))"
      if x: "x \<in> set (windows d1)" for x
      using cl x
    proof (rule closed_of_member)
      fix y assume y: "y \<in> set (windows d)" "win_key x = win_key y" "exact_policy x = exact_policy y" "\<forall>c. counter c x = counter c y"
      have "win_tool_calls_used x = win_tool_calls_used y" "win_tool_calls_reserved x = win_tool_calls_reserved y"
        "win_inference_used x = win_inference_used y" "win_inference_reserved x = win_inference_reserved y"
        using y(4) [rule_format, of tool_calls_used] y(4) [rule_format, of tool_calls_reserved]
          y(4) [rule_format, of inference_used] y(4) [rule_format, of inference_reserved] by simp_all
      with within_ident [OF y(3)] quota_ok_window [OF assms(3) y(1)] quota_ok_tool [OF assms(3) _ y(1)] y(2) show ?thesis
        by simp
    qed
    have "win_tool_calls_used ?nw = 0" "win_tool_calls_reserved ?nw = 0" "win_inference_used ?nw = 0" "win_inference_reserved ?nw = 0"
      by (simp_all add: new_window_def)
    with old fresh show ?thesis by (auto simp: quota_ok_def tables list_all_iff)
  qed
qed

lemma create_tool_usage_quota:
  assumes "create_or_get_tool_usage id owner epoch cap d = Inr (u, d')" "quota_ok d"
  shows "quota_ok d'"
  using assms(1)
proof (cases rule: create_or_get_tool_usageE)
  case existing
  with assms(2) show ?thesis by simp
next
  case inserted
  then have "d' = d\<lparr>tool_usage := tool_usage d @ [u]\<rparr>" "tu_used_calls u + tu_reserved_calls u = 0"
    by (auto simp: insert_tool_usage_def new_tool_usage_def split: if_splits)
  with assms(2) show ?thesis by (simp add: quota_ok_def list_all_iff)
qed

lemma insert_policy_quota:
  assumes "insert_policy p d = Inr d'" "budget_inv d" "quota_ok d"
  shows "quota_ok d'"
proof -
  from assms(1) have d': "d' = d\<lparr>policies := policies d @ [p]\<rparr>" and fresh: "pol_policy_id p \<notin> pol_policy_id ` set (policies d)"
    by (auto simp: insert_policy_def split: if_splits)
  have "\<not> exact_policy w p" if "w \<in> set (windows d)" for w
    using assms(2) that fresh
    by (force simp: budget_inv_def wf_windows_def list_all_iff list_ex_iff exact_policy_def)
  with assms(3) d' show ?thesis
    by (auto simp: quota_ok_def list_all_iff window_within_def tool_within_def)
qed

text \<open>Rows of other tables do not matter.\<close>

lemma quota_ok_cong:
  "policies d' = policies d \<Longrightarrow> windows d' = windows d \<Longrightarrow> tool_usage d' = tool_usage d \<Longrightarrow> quota_ok d' = quota_ok d"
  by (simp add: quota_ok_def)

section \<open>Admission and terminal transitions\<close>

lemma policy_unique:
  assumes "budget_inv d" "w \<in> set (windows d)" "canonical_policy owner w d = Inr p" "q \<in> set (policies d)" "exact_policy w q"
  shows "q = p"
proof -
  from assms(3) have "get_policy d owner (win_governing_policy_id w) = Some p" by (auto simp: canonical_policy_def)
  then have "p \<in> set (policies d)" "pol_policy_id p = pol_policy_id q"
    using assms(5) by (auto simp: get_policy_def exact_policy_def dest: find_SomeD)
  with assms(1,4) show ?thesis by (auto simp: budget_inv_def wf_policies_def dest: distinct_key_eq)
qed

lemma admit_quota:
  assumes adm: "admit_tool_call owner account iv now d = Inr (a, d')" and inv: "budget_inv d" and ok: "quota_ok d"
    and fresh: "get_reservation d owner (fst (tool_identity (iv_invocation_id iv))) = None"
  shows "quota_ok d'"
  using adm inv fresh
proof (rule admit_tool_call_charged)
  let ?cap = "iv_capability_id iv"
  fix w d1 p u d2 i r w' u'
  assume aw: "admission_window owner account now d = Inr (w, d1)" and inv1: "budget_inv d1" and act: "active_window d1 owner = Some w"
    and p: "canonical_policy owner w d1 = Inr p" and cu: "create_or_get_tool_usage id owner (win_epoch w) ?cap d1 = Inr (u, d2)"
    and inv2: "budget_inv d2" and same: "policies d2 = policies d1" "windows d2 = windows d1"
    and u: "u \<in> set (tool_usage d2)" "tu_key u = (owner, win_epoch w, ?cap)"
    and per: "\<not> exceeds (per_tool_limit p ?cap) (tu_used_calls u + tu_reserved_calls u + 1)"
    and tot: "\<not> exceeds (pol_max_tool_calls_total p) (win_tool_calls_used w + win_tool_calls_reserved w + 1)"
    and ch: "charged d2 d' w w' (Some ?cap) (reserved_delta TOOL_CALL 1)"
  have "quota_ok d1" using admission_window_inv [OF aw inv] ok inv by (auto intro: rollover_quota)
  then have ok2: "quota_ok d2" using cu by (rule create_tool_usage_quota [rotated])
  have w: "w \<in> set (windows d1)" "win_owner_user_id w = owner" using active_window_SomeD [OF act] by auto
  note pol = policy_unique [OF inv1 w(1) p]
  have keys: "distinct (map win_key (windows d2))" "distinct (map tu_key (tool_usage d2))"
    using inv2 by (auto simp: budget_inv_def wf_windows_def wf_tool_usage_def)
  have one: "reserved_delta TOOL_CALL 1 tool_calls_used + reserved_delta TOOL_CALL 1 tool_calls_reserved = 1"
    and zero: "reserved_delta TOOL_CALL 1 inference_used + reserved_delta TOOL_CALL 1 inference_reserved = 0"
    by (simp_all add: reserved_delta_def counts_reserved_def)
  show ?thesis
  proof (rule charged_quota [OF ch ok2 keys(1)], unfold one zero)
    show "window_within pol_max_tool_calls_total (policies d2) w (win_tool_calls_used w + win_tool_calls_reserved w + 1)"
      using tot pol by (auto simp: window_within_def over_quota_def list_all_iff same)
    show "window_within pol_max_inference_calls (policies d2) w (win_inference_used w + win_inference_reserved w + 0)"
      using quota_ok_window [OF ok2, of w] w(1) same by simp
    fix t assume t: "t \<in> set (tool_usage d2)" "tu_win t = win_key w" "Some ?cap = Some (tu_capability_id t)"
    with u w(2) keys(2) have "t = u" by (auto simp: tu_key_def tu_win_def win_key_def dest: distinct_key_eq)
    with per pol t(3) show "tool_within (policies d2) w (tu_capability_id t) (tu_used_calls t + tu_reserved_calls t + 1)"
      by (auto simp: tool_within_def over_quota_def list_all_iff same)
  qed
qed

lemma finish_quota:
  assumes "finish_tool_call a key target now r d = Inr (a', d')" "target \<in> {SETTLED, RELEASED}" "budget_inv d" "quota_ok d"
    and "get_reservation d (ta_owner_user_id a) key = Some r" "res_state r = RESERVED"
    and "verify_direct_reservation r (ta_owner_user_id a) (stored_invocation a r) = Inr x"
  shows "quota_ok d'"
  using assms(1-3,5-7)
proof (rule finish_tool_call_charged)
  fix w w' t settled stamp assume ch: "charged d d' w w' (Some (ta_capability_id a)) (finish_delta target)"
  have "finish_delta target tool_calls_used + finish_delta target tool_calls_reserved \<le> 0"
    "finish_delta target inference_used + finish_delta target inference_reserved \<le> 0"
    by (simp_all add: finish_delta_def settled_delta_def reserved_delta_def counts_reserved_def)
  with ch assms(3,4) show ?thesis
    by (intro charged_quota_decreasing [OF ch]) (auto simp: budget_inv_def wf_windows_def)
qed


section \<open>The retried operations\<close>

definition quota_inv :: "db \<Rightarrow> bool" where
  "quota_inv d \<longleftrightarrow> budget_inv d \<and> quota_ok d"

definition quota_env_ok :: "tx_env \<Rightarrow> bool" where
  "quota_env_ok env \<longleftrightarrow>
     env_ok env \<and> (\<forall>i d. quota_inv d \<longrightarrow> quota_inv (others env i d)) \<and>
     (\<forall>i d. quota_inv d \<longrightarrow> quota_inv (lock_wait env i d))"

lemma quiet_quota_env_ok: "quota_env_ok quiet_env"
  by (simp add: quota_env_ok_def quiet_env_ok) (simp add: quiet_env_def)

lemma reserve_attempt_quota:
  assumes env: "quota_env_ok env" and inv: "quota_inv d"
    and att: "reserve_attempt env n ident iid cap fp args ex tc task flow sess now d = Inr (a, d')"
  shows "quota_inv d' \<and> admission_ok a d'"
proof -
  have inv0: "quota_inv (lock_wait env n d)" using env inv by (simp add: quota_env_ok_def)
  from att have "quota_ok d'"
  proof (cases rule: reserve_attemptE)
    case (admitted owner account iv)
    with inv0 show ?thesis by (intro admit_quota [OF admitted(4)]) (auto simp: quota_inv_def)
  qed (use inv inv0 in \<open>auto simp: quota_inv_def\<close>)
  with reserve_attempt_inv [OF _ _ att] env inv show ?thesis by (simp add: quota_inv_def quota_env_ok_def)
qed

lemma terminal_attempt_quota:
  assumes inv: "quota_inv d" and tgt: "target \<in> {SETTLED, RELEASED}"
    and att: "terminal_attempt env n a key target now d = Inr (a', d')"
  shows "quota_inv d'"
proof -
  let ?owner = "ta_owner_user_id a"
  from att obtain r x where r: "get_reservation d ?owner key = Some r"
    and ver: "verify_direct_reservation r ?owner (stored_invocation a r) = Inr x"
    by (auto simp: terminal_attempt_def split: option.splits)
  have "quota_ok d'"
  proof (cases "res_state r = target")
    case True
    with att r ver inv show ?thesis by (auto simp: terminal_attempt_def quota_inv_def split: option.splits)
  next
    case False
    with att r ver have "finish_tool_call a key target now r d = Inr (a', d')" "res_state r = RESERVED"
      by (auto simp: terminal_attempt_def split: option.splits)
    moreover have "budget_inv d" "quota_ok d" using inv by (simp_all add: quota_inv_def)
    ultimately show ?thesis using tgt r ver by (blast intro: finish_quota)
  qed
  moreover have "budget_inv d" using inv by (simp add: quota_inv_def)
  note terminal_attempt_inv(1) [OF this tgt att]
  ultimately show ?thesis unfolding quota_inv_def by blast
qed

interpretation quota_reserve: retried_transaction quota_env_ok others reserve_with quota_inv "\<lambda>_. admission_ok"
    is_retryable_error AssertionError
proof (unfold_locales, goal_cases)
  case (1 env d i)
  then show ?case by (simp add: quota_env_ok_def)
next
  case (2 env d args i a d')
  then show ?case by (auto simp: split_beta dest: reserve_attempt_quota)
next
  case (3 env d args i)
  then show ?case
    using tool_reserve.attempt_reachable [where env = env and s = d and arg = args and i = i] by (simp add: quota_env_ok_def quota_inv_def)
qed

interpretation quota_terminal: retried_transaction quota_env_ok others terminal_with quota_inv terminal_post
    is_retryable_error AssertionError
proof (unfold_locales, goal_cases)
  case (1 env d i)
  then show ?case by (simp add: quota_env_ok_def)
next
  case (2 env d args i a' d')
  have "quota_inv d'"
    using 2(2,3) by (cases args) (auto split: if_splits dest!: terminal_attempt_quota [rotated 2])
  moreover have "terminal_post args a' d'"
    using 2 tool_terminal.attempt_inv [where env = env and s = d and arg = args and i = i and a = a' and s' = d'] by (simp add: quota_env_ok_def quota_inv_def)
  ultimately show ?case by simp
next
  case (3 env d args i)
  then show ?case
    using tool_terminal.attempt_reachable [where env = env and s = d and arg = args and i = i] by (simp add: quota_env_ok_def quota_inv_def)
qed

section \<open>Properties\<close>

text \<open>
  C1. Admission is sound under concurrency: whatever other transactions commit before an attempt
  or while it waits for the account lock, the stored counters stay equal to the sums of the
  reservations, no quota is exceeded, the retry loop never falls through, and an admission that is
  returned is backed by a durable reservation of one call in the state it reports.
\<close>

theorem reserve_tool_call_sound:
  assumes "reserve_tool_call s env ident iid cap fp args ex tc task flow sess now d = (res, d')"
    and "quota_env_ok env" "budget_inv d" "quota_ok d"
  shows "budget_inv d' \<and> quota_ok d' \<and> res \<noteq> Inl AssertionError \<and>
    (case res of Inr (Some a) \<Rightarrow> admission_ok a d' | _ \<Rightarrow> True)"
proof (cases "tqs_enabled s \<and> iid \<noteq> [] \<and> cap \<noteq> [] \<and> fp \<noteq> []")
  case False
  with assms show ?thesis by (auto simp: reserve_tool_call_def split: if_splits)
next
  case True
  let ?args = "(ident, iid, cap, fp, args, ex, tc, task, flow, sess, now)"
  let ?n = "nat (max 1 (tqs_max_conflict_retries s))"
  let ?loop = "retry_loop is_retryable_error AssertionError (others env) (reserve_with env ?args) 0 ?n d"
  have eq: "(res, d') = map_prod (map_sum id Some) id ?loop"
    using True assms(1) by (simp add: reserve_tool_call_def)
  have inv: "quota_inv d" using assms(3,4) by (simp add: quota_inv_def)
  have "0 < ?n" by simp
  note reach = quota_reserve.loop_reachable [OF assms(2) inv this, where arg = ?args and i = 0]
  obtain r d1 where loop: "?loop = (r, d1)" by (cases ?loop)
  from quota_reserve.loop_inv [OF assms(2) inv, where arg = ?args and i = 0 and n = ?n] loop eq have "quota_inv d'" by simp
  moreover have "admission_ok a d'" if "res = Inr (Some a)" for a
  proof -
    from that eq loop have "?loop = (Inr a, d')" by (cases r) auto
    with quota_reserve.loop_result [OF assms(2) inv, where arg = ?args and i = 0 and n = ?n] show ?thesis by simp
  qed
  moreover have "res \<noteq> Inl AssertionError" using reach eq loop by (cases r) auto
  ultimately show ?thesis by (auto simp: quota_inv_def split: sum.splits option.splits)
qed


lemma ex_db_quota: "quota_ok ex_db"
  by (simp add: ex_db_def quota_ok_def)

theorem reserve_tool_call_sound_witness:
  "budget_inv ex_reserved \<and> quota_ok ex_reserved \<and> admission_ok ex_admission ex_reserved"
  using reserve_tool_call_sound [OF ex_reserve quiet_quota_env_ok ex_db_inv ex_db_quota] by simp

end
