(* ===== verification/Budget_Progress.thy ===== *)
theory Budget_Progress
  imports Budget_Invariant
begin

text \<open>
  When the compare-and-swap statements of the repository succeed. On a database that satisfies the
  invariant, a row that was just read is found again at its revision, so a mutation is refused only
  for a counter outside the BIGINT range or a used counter that would shrink, and a settlement only
  for a naive timestamp.
\<close>

section \<open>What a pending reservation guarantees\<close>

lemma budget_inv_keys:
  assumes "budget_inv d"
  shows "distinct (map win_key (windows d))" "distinct (map tu_key (tool_usage d))" "distinct (map res_key (reservations d))"
    "distinct (map acc_owner_user_id (accounts d))" "distinct (map pol_policy_id (policies d))"
  using assms by (auto simp: budget_inv_defs)

lemma budget_inv_rows:
  assumes "budget_inv d"
  shows "w \<in> set (windows d) \<Longrightarrow> window_row_ok w" "u \<in> set (tool_usage d) \<Longrightarrow> tool_usage_row_ok u"
    "r \<in> set (reservations d) \<Longrightarrow> reservation_row_ok r" "p \<in> set (policies d) \<Longrightarrow> policy_row_ok p"
  using assms by (auto simp: budget_inv_defs list_all_iff)

lemma counter_nat64: "budget_inv d \<Longrightarrow> w \<in> set (windows d) \<Longrightarrow> nat64 (counter c w)"
  using budget_inv_rows(1) [of d w] by (simp add: window_row_ok_def)

lemma ledger_member_le:
  assumes "list_all reservation_row_ok rs" "r \<in> set rs"
  shows "contrib c r \<le> ledger c rs (res_win r)" "contrib c r \<le> tool_ledger c rs (res_tool r)"
  using assms unfolding ledger_def tool_ledger_def
  by (auto intro!: sum_where_member_le contrib_nonneg simp: list_all_iff)

lemma reserved_counter_pos:
  assumes "budget_inv d" "r \<in> set (reservations d)" "w \<in> set (windows d)" "win_key w = res_win r"
    and "res_state r = RESERVED" "counter_kind c = res_resource_kind r" "counts_reserved c"
  shows "res_reserved_amount_atomic r \<le> counter c w"
proof -
  have "contrib c r = res_reserved_amount_atomic r" using assms(5-7) by (simp add: contrib_def)
  moreover have "counter c w = ledger c (reservations d) (res_win r)"
    using assms(1,3,4) by (simp add: budget_inv_def counters_ok_def list_all_iff)
  ultimately show ?thesis
    using ledger_member_le(1) [of "reservations d" r c] assms(1,2) by (simp add: budget_inv_def wf_reservations_def)
qed

lemma reserved_tool_pos:
  assumes "budget_inv d" "r \<in> set (reservations d)" "u \<in> set (tool_usage d)" "tu_tool u = res_tool r"
    and "res_state r = RESERVED" "res_resource_kind r = TOOL_CALL"
  shows "res_reserved_amount_atomic r \<le> tu_reserved_calls u"
proof -
  have "contrib tool_calls_reserved r = res_reserved_amount_atomic r"
    using assms(5,6) by (simp add: contrib_def counts_reserved_def)
  moreover have "tu_reserved_calls u = tool_ledger tool_calls_reserved (reservations d) (res_tool r)"
    using assms(1,3,4) by (simp add: budget_inv_def tool_counters_ok_def list_all_iff)
  ultimately show ?thesis
    using ledger_member_le(2) [of "reservations d" r tool_calls_reserved] assms(1,2)
    by (simp add: budget_inv_def wf_reservations_def)
qed

lemma reservation_window:
  assumes "budget_inv d" "r \<in> set (reservations d)"
  obtains w where "w \<in> set (windows d)" "win_key w = res_win r" "get_window d (res_owner_user_id r) (res_window_epoch r) = Some w"
proof -
  from assms obtain w where w: "w \<in> set (windows d)" "win_key w = res_win r"
    by (fastforce simp: budget_inv_def wf_reservations_def list_all_iff)
  moreover have "distinct (map win_key (windows d))" using assms(1) by (simp add: budget_inv_def wf_windows_def)
  ultimately have "get_window d (res_owner_user_id r) (res_window_epoch r) = Some w"
    using find_key [of win_key "windows d" w] by (simp add: get_window_def res_win_def)
  with w show thesis by (rule that)
qed

lemma reservation_tool_usage:
  assumes "budget_inv d" "r \<in> set (reservations d)" "res_resource_kind r = TOOL_CALL" "res_capability_id r = Some cap"
  obtains u where "u \<in> set (tool_usage d)" "tu_tool u = res_tool r"
    "get_tool_usage d (res_owner_user_id r) (res_window_epoch r) cap = Some u"
proof -
  from assms obtain u where u: "u \<in> set (tool_usage d)" "tu_tool u = res_tool r"
    by (fastforce simp: budget_inv_def tool_rows_exist_def list_all_iff)
  then have "tu_key u = (res_owner_user_id r, res_window_epoch r, cap)"
    using assms(4) by (simp add: tu_tool_def tu_key_def res_tool_def)
  moreover have "distinct (map tu_key (tool_usage d))" using assms(1) by (simp add: budget_inv_def wf_tool_usage_def)
  ultimately have "get_tool_usage d (res_owner_user_id r) (res_window_epoch r) cap = Some u"
    using find_key [of tu_key "tool_usage d" u] u(1) by (simp add: get_tool_usage_def)
  with u show thesis by (rule that)
qed

section \<open>Statements that succeed\<close>

lemma active_owners_upd:
  assumes "\<And>w. win_state (f w) = win_state w" "\<And>w. win_owner_user_id (f w) = win_owner_user_id w"
  shows "active_owners (upd_where P f ws) = active_owners ws"
  by (induction ws) (auto simp: active_owners_def upd_where_def assms)

lemma mutate_window_usageI:
  assumes "budget_inv d" "w \<in> set (windows d)" "vs \<noteq> []" "distinct (map fst vs)"
    and "\<And>c v. (c, v) \<in> set vs \<Longrightarrow> 0 \<le> v \<and> v \<le> USER_BUDGET_INT64_MAX \<and> (c \<in> set monotonic_used_fields \<longrightarrow> counter c w \<le> v)"
  shows "\<exists>w' d'. mutate_window_usage (win_owner_user_id w) (win_epoch w) (win_revision w) vs d = Inr (w', d')"
proof -
  let ?hit = "\<lambda>x. win_key x = (win_owner_user_id w, win_epoch w) \<and> win_revision x = win_revision w"
  let ?f = "\<lambda>x. (set_counters vs x)\<lparr>win_revision := win_revision w + 1\<rparr>"
  have keys: "distinct (map win_key (windows d))" and act: "distinct (active_owners (windows d))"
    and ok: "window_row_ok w" using assms(1,2) by (auto simp: budget_inv_def wf_windows_def list_all_iff)
  have only: "x = w" if "x \<in> set (windows d)" "?hit x" for x
    using that keys assms(2) by (auto simp: win_key_def dest: distinct_key_eq)
  have get: "get_window d (win_owner_user_id w) (win_epoch w) = Some w"
    using find_key [OF keys assms(2)] by (simp add: get_window_def win_key_def)
  have vals: "mapR (\<lambda>cv. require_atomic_counter (snd cv)) vs = Inr (map snd vs)"
    using assms(5) by (intro mapR_all_Inr) (force simp: require_atomic_counter_def)
  have "nat64 (counter c (?f w))" for c
    using ok assms(5) by (auto simp: counter_set_counters [OF assms(4)] window_row_ok_def nat64_def split: option.split dest: map_of_SomeD)
  with ok have "window_row_ok (?f w)" by (simp add: window_row_ok_def)
  with only have "\<forall>x \<in> set (windows d). ?hit x \<longrightarrow> window_row_ok (?f x)" by blast
  moreover have "distinct (active_owners (upd_where ?hit ?f (windows d)))"
    using act by (subst active_owners_upd) simp_all
  ultimately have upd: "update_windows ?hit ?f d = Inr (d\<lparr>windows := upd_where ?hit ?f (windows d)\<rparr>)"
    by (simp add: update_windows_Inr)
  have "List.find ?hit (windows d) \<noteq> None" using assms(2) by (auto simp: find_None_iff win_key_def)
  then obtain x where "List.find ?hit (windows d) = Some x" by blast
  with get vals upd assms(3,5) show ?thesis
    by (auto simp: mutate_window_usage_def Let_def list_all_iff)
qed

lemma mutate_tool_usageI:
  assumes keys: "distinct (map tu_key (tool_usage d))" and "u \<in> set (tool_usage d)" and ok: "tool_usage_row_ok u"
    and "tu_used_calls u \<le> used" "used \<le> USER_BUDGET_INT64_MAX" "0 \<le> reserved" "reserved \<le> USER_BUDGET_INT64_MAX"
  shows "\<exists>u' d'. mutate_tool_usage (tu_owner_user_id u) (tu_window_epoch u) (tu_capability_id u) (tu_revision u) used reserved d = Inr (u', d')"
proof -
  let ?hit = "\<lambda>x. tu_key x = (tu_owner_user_id u, tu_window_epoch u, tu_capability_id u) \<and> tu_revision x = tu_revision u"
  let ?f = "\<lambda>x. x\<lparr>tu_used_calls := used, tu_reserved_calls := reserved, tu_revision := tu_revision u + 1\<rparr>"
  have only: "x = u" if "x \<in> set (tool_usage d)" "?hit x" for x
    using that keys assms(2) by (auto simp: tu_key_def dest: distinct_key_eq)
  have get: "get_tool_usage d (tu_owner_user_id u) (tu_window_epoch u) (tu_capability_id u) = Some u"
    using find_key [OF keys assms(2)] by (simp add: get_tool_usage_def tu_key_def)
  have "tool_usage_row_ok (?f u)" using ok assms(4-7) by (simp add: tool_usage_row_ok_def nat64_def)
  with only have "\<forall>x \<in> set (tool_usage d). ?hit x \<longrightarrow> tool_usage_row_ok (?f x)" by blast
  then have upd: "update_tool_usage ?hit ?f d = Inr (d\<lparr>tool_usage := upd_where ?hit ?f (tool_usage d)\<rparr>)"
    by (simp add: update_tool_usage_Inr)
  have "List.find ?hit (tool_usage d) \<noteq> None" using assms(2) by (auto simp: find_None_iff tu_key_def)
  then obtain x where "List.find ?hit (tool_usage d) = Some x" by blast
  with get upd assms(4-7) ok show ?thesis
    by (auto simp: mutate_tool_usage_def Let_def require_atomic_counter_def tool_usage_row_ok_def nat64_def)
qed

lemma transition_reservationI:
  assumes "distinct (map res_key (reservations d))" "r \<in> set (reservations d)" "reservation_row_ok r" "res_state r = RESERVED"
    and "target \<noteq> RESERVED" "settlement_fields target amount at = Inr (settled, stamp)"
  shows "\<exists>t d'. transition_reservation (res_owner_user_id r) (res_idempotency_key r) (res_revision r) target amount at d = Inr (t, d')"
proof -
  let ?hit = "\<lambda>x. res_key x = (res_owner_user_id r, res_idempotency_key r) \<and> res_revision x = res_revision r \<and> res_state x = RESERVED"
  let ?f = "\<lambda>x. x\<lparr>res_state := target, res_settled_amount_atomic := settled, res_settled_at := stamp, res_revision := res_revision r + 1\<rparr>"
  have only: "x = r" if "x \<in> set (reservations d)" "?hit x" for x
    using that assms(1,2) by (auto simp: res_key_def dest: distinct_key_eq)
  have get: "get_reservation d (res_owner_user_id r) (res_idempotency_key r) = Some r"
    using find_key [OF assms(1,2)] by (simp add: get_reservation_def res_key_def)
  have "reservation_row_ok (?f r)"
    using assms(3-6) by (auto simp: reservation_row_ok_def settlement_fields_def require_atomic_counter_def nat64_def
        split: if_splits option.splits)
  with only have "\<forall>x \<in> set (reservations d). ?hit x \<longrightarrow> reservation_row_ok (?f x)" by blast
  then have upd: "update_reservations ?hit ?f d = Inr (d\<lparr>reservations := upd_where ?hit ?f (reservations d)\<rparr>)"
    by (simp add: update_reservations_Inr)
  have "List.find ?hit (reservations d) \<noteq> None" using assms(2,4) by (auto simp: find_None_iff res_key_def)
  then obtain x where "List.find ?hit (reservations d) = Some x" by blast
  with get upd assms(4-6) show ?thesis by (auto simp: transition_reservation_def Let_def)
qed

end
