(* ===== verification/Tool_Lifecycle.thy ===== *)
theory Tool_Lifecycle
  imports Quota_Limits Budget_Progress
begin

text \<open>
  The life of one logical tool call: reserving it again returns the same admission and charges
  nothing, a call that was admitted can be settled, and a call reaches one terminal state only.
  These theorems describe one caller; what other callers do meanwhile is covered by the invariant
  theorems of \<open>Quota_Limits\<close>.
\<close>

section \<open>Loops without interference\<close>

lemma retry_loop_quiet:
  assumes "0 < n" "\<And>i. attempt i d = att"
  shows "retry_loop retryable unreachable (\<lambda>_ d. d) attempt i n d =
    (case att of Inr (a, d') \<Rightarrow> (Inr a, d') | Inl e \<Rightarrow> (Inl e, d))"
  using assms(1)
proof (induction n arbitrary: i)
  case 0
  then show ?case by simp
next
  case (Suc n)
  then show ?case by (cases n) (auto simp: assms(2) Let_def split: sum.splits prod.splits)
qed

lemma quiet_env_simps:
  "others quiet_env = (\<lambda>_ d. d)" "lock_wait quiet_env n d = d" "write_intent quiet_env n = None"
  by (simp_all add: quiet_env_def)

lemma reserve_quiet:
  assumes "tqs_enabled s" "iid \<noteq> []" "cap \<noteq> []" "fp \<noteq> []"
  shows "reserve_tool_call s quiet_env ident iid cap fp args ex tc task flow sess now d =
    (case reserve_attempt quiet_env 0 ident iid cap fp args ex tc task flow sess now d of
       Inr (a, d') \<Rightarrow> (Inr (Some a), d') | Inl e \<Rightarrow> (Inl e, d))"
proof -
  have "reserve_attempt quiet_env i ident iid cap fp args ex tc task flow sess now d =
      reserve_attempt quiet_env 0 ident iid cap fp args ex tc task flow sess now d" for i
    by (simp add: reserve_attempt_def quiet_env_simps Let_def cong: option.case_cong)
  from retry_loop_quiet [where attempt = "\<lambda>n. reserve_attempt quiet_env n ident iid cap fp args ex tc task flow sess now"
      and d = d, OF _ this, of "nat (max 1 (tqs_max_conflict_retries s))"]
  show ?thesis using assms by (simp add: reserve_tool_call_def quiet_env_simps(1) split: sum.splits prod.splits)
qed

lemma terminal_quiet:
  assumes "\<not> ta_historical_bridge a" "ta_idempotency_key a = Some key" "target \<in> {SETTLED, RELEASED}"
  shows "terminal_transition s quiet_env (Some a) target now d =
    (case terminal_attempt quiet_env 0 a key target now d of
       Inr (a', d') \<Rightarrow> (Inr (Some a'), d') | Inl e \<Rightarrow> (Inl e, d))"
proof -
  have "terminal_attempt quiet_env i a key target now d = terminal_attempt quiet_env 0 a key target now d" for i
    by (simp add: terminal_attempt_def quiet_env_def)
  from retry_loop_quiet [where attempt = "\<lambda>n. terminal_attempt quiet_env n a key target now" and d = d, OF _ this,
      of "nat (max 1 (tqs_max_conflict_retries s))"]
  show ?thesis using assms by (simp add: terminal_transition_def quiet_env_simps(1) split: sum.splits prod.splits)
qed


section \<open>What admission leaves alone\<close>

definition same_principals :: "db \<Rightarrow> db \<Rightarrow> bool" where
  "same_principals d d' \<longleftrightarrow>
     users d' = users d \<and> api_keys d' = api_keys d \<and> applications d' = applications d \<and>
     organizations d' = organizations d \<and> bindings d' = bindings d"

lemma same_principals_refl: "same_principals d d"
  by (simp add: same_principals_def)

lemma same_principals_trans: "same_principals d d1 \<Longrightarrow> same_principals d1 d2 \<Longrightarrow> same_principals d d2"
  by (simp add: same_principals_def)

lemma resolve_tool_owner_same: "same_principals d d' \<Longrightarrow> resolve_tool_owner d' ident task = resolve_tool_owner d ident task"
  by (simp add: same_principals_def resolve_tool_owner_def resolve_budget_owner_def get_task_binding_def
      cong: option.case_cong if_cong)

lemma open_window_principals: "open_window owner v now a active d = Inr (w, d') \<Longrightarrow> same_principals d d'"
  by (auto simp: open_window_def Let_def close_window_def advance_account_def insert_window_def update_windows_Inr
      update_accounts_Inr same_principals_def split: option.splits if_splits)

lemma rollover_principals:
  "rollover_window owner v now d = Inr (w, d') \<Longrightarrow> same_principals d d'"
  by (auto simp: rollover_window_def same_principals_refl split: option.splits if_splits dest: open_window_principals)

lemma admission_window_principals:
  "admission_window owner account now d = Inr (w, d') \<Longrightarrow> same_principals d d'"
  by (auto simp: admission_window_def same_principals_refl split: option.splits if_splits dest: rollover_principals)

lemma admit_principals:
  assumes "admit_tool_call owner account iv now d = Inr (a, d')"
  shows "same_principals d d'"
  using assms
proof (rule admit_tool_callE)
  fix w d1 p u d2 i r d3 w' d4 u'
  assume w: "admission_window owner account now d = Inr (w, d1)"
    and u: "create_or_get_tool_usage id owner (win_epoch w) (iv_capability_id iv) d1 = Inr (u, d2)"
    and r: "create_or_get_reservation id i d2 = Inr (r, d3)"
    and mw: "mutate_window_usage owner (win_epoch w) (win_revision w) [(tool_calls_reserved, win_tool_calls_reserved w + 1)] d3 = Inr (w', d4)"
    and mt: "mutate_tool_usage owner (win_epoch w') (iv_capability_id iv) (tu_revision u) (tu_used_calls u) (tu_reserved_calls u + 1) d4 = Inr (u', d')"
  have "same_principals d1 d2"
    using u by (cases rule: create_or_get_tool_usageE) (auto simp: same_principals_def insert_tool_usage_def split: if_splits)
  moreover have "same_principals d2 d3"
    using r by (cases rule: create_or_get_reservationE) (auto simp: same_principals_def insert_reservation_Inr)
  moreover have "same_principals d3 d4" using mw by (auto simp: mutate_window_usage_def Let_def update_windows_Inr same_principals_def)
  moreover have "same_principals d4 d'" using mt by (auto simp: mutate_tool_usage_def Let_def update_tool_usage_Inr same_principals_def)
  ultimately show ?thesis using admission_window_principals [OF w] by (meson same_principals_trans)
qed


section \<open>Replaying an admission\<close>

lemma find_appended_fresh:
  assumes "reservations d' = reservations d @ [r]" "get_reservation d owner key = None" "res_key r = (owner, key)"
  shows "get_reservation d' owner key = Some r"
  using assms by (simp add: get_reservation_def find_append)

text \<open>A verified reservation under the key of the invocation is what a replay returns.\<close>

lemma reserve_attempt_replay:
  assumes "resolve_tool_owner d ident task = Inr res" "get_reservation d (bor_owner_user_id res) (fst (tool_identity iid)) = Some r"
    and "iv = string_invocation iid cap fp ex tc task flow sess" "verify_direct_reservation r (bor_owner_user_id res) iv = Inr x"
  shows "reserve_attempt quiet_env n ident iid cap fp args ex tc task flow sess now d = Inr (direct_admission (bor_owner_user_id res) iv r, d)"
  using assms by (simp add: reserve_attempt_def quiet_env_simps Let_def)

lemma reserve_attempt_quietE:
  assumes "reserve_attempt quiet_env n ident iid cap fp args ex tc task flow sess now d = Inr (a, d')"
  obtains (unchanged) "d' = d" "\<And>t. reserve_attempt quiet_env n ident iid cap fp args ex tc task flow sess t d = Inr (a, d)"
  | (admitted) res account iv where "resolve_tool_owner d ident task = Inr res"
      "iv = string_invocation iid cap fp ex tc task flow sess"
      "get_reservation d (bor_owner_user_id res) (fst (tool_identity iid)) = None"
      "admit_tool_call (bor_owner_user_id res) account iv now d = Inr (a, d')"
proof -
  let ?iv = "string_invocation iid cap fp ex tc task flow sess"
  from assms obtain res where res: "resolve_tool_owner d ident task = Inr res"
    by (auto simp: reserve_attempt_def quiet_env_simps)
  let ?owner = "bor_owner_user_id res"
  show thesis
  proof (cases "get_reservation d ?owner (fst (tool_identity iid))")
    case (Some r)
    with assms res show thesis by (intro unchanged) (auto simp: reserve_attempt_def quiet_env_simps Let_def)
  next
    case None
    with assms res obtain h where h: "historical_bridge_admission d ?owner ?iv ex tc task args = Inr h"
      by (auto simp: reserve_attempt_def quiet_env_simps Let_def)
    show thesis
    proof (cases h)
      case (Some x)
      with assms res None h show thesis by (intro unchanged) (auto simp: reserve_attempt_def quiet_env_simps Let_def)
    next
      case none: None
      with assms res None h obtain account where "admit_tool_call ?owner account ?iv now d = Inr (a, d')"
        by (auto simp: reserve_attempt_def quiet_env_simps Let_def)
      then show thesis by (rule admitted [OF res refl None])
    qed
  qed
qed

lemma direct_admission_fresh:
  assumes "res_window_epoch r = e" "res_state r = RESERVED"
  shows "(direct_admission owner iv r)\<lparr>ta_window_epoch := Some e, ta_reservation_state := RESERVED\<rparr> = direct_admission owner iv r"
  using assms by (simp add: direct_admission_def)

text \<open>
  C2. Admission is idempotent: repeating a successful reservation of a logical invocation with the
  same arguments, at any later time, returns the same admission and leaves the database as it is,
  so an invocation is charged once however often the client retries.
\<close>

theorem reserve_tool_call_idempotent:
  assumes "reserve_tool_call s quiet_env ident iid cap fp args ex tc task flow sess now d = (Inr (Some a), d')" "budget_inv d"
  shows "reserve_tool_call s quiet_env ident iid cap fp args ex tc task flow sess now' d' = (Inr (Some a), d')"
proof -
  from assms(1) have ok: "tqs_enabled s" "iid \<noteq> []" "cap \<noteq> []" "fp \<noteq> []"
    by (auto simp: reserve_tool_call_def split: if_splits)
  note quiet = reserve_quiet [OF ok]
  from assms(1) have "reserve_attempt quiet_env 0 ident iid cap fp args ex tc task flow sess now d = Inr (a, d')"
    by (auto simp: quiet split: sum.splits prod.splits)
  then have "reserve_attempt quiet_env 0 ident iid cap fp args ex tc task flow sess now' d' = Inr (a, d')"
  proof (cases rule: reserve_attempt_quietE)
    case unchanged
    then show ?thesis by simp
  next
    case (admitted res account iv)
    let ?owner = "bor_owner_user_id res"
    have fresh: "get_reservation d ?owner (fst (tool_identity (iv_invocation_id iv))) = None" using admitted(2,3) by simp
    from admitted(4) assms(2) fresh show ?thesis
    proof (rule admit_tool_call_charged)
      fix w d1 p u d2 i r w' u'
      assume rs: "reservations d' = reservations d @ [r]" and key: "res_key r = (?owner, fst (tool_identity (iv_invocation_id iv)))"
        and st: "res_state r = RESERVED" "res_tool r = (?owner, win_epoch w, Some (iv_capability_id iv))"
        and a: "a = (direct_admission ?owner iv r)\<lparr>ta_window_epoch := Some (win_epoch w), ta_reservation_state := RESERVED\<rparr>"
        and ver: "verify_direct_reservation r ?owner iv = Inr ()"
      have "resolve_tool_owner d' ident task = Inr res"
        using resolve_tool_owner_same [OF admit_principals [OF admitted(4)]] admitted(1) by simp
      moreover have "get_reservation d' ?owner (fst (tool_identity iid)) = Some r"
        using find_appended_fresh [OF rs fresh key] admitted(2) by simp
      moreover have "a = direct_admission ?owner iv r"
        using a st direct_admission_fresh [of r "win_epoch w"] by (simp add: res_tool_def)
      ultimately show ?thesis using reserve_attempt_replay [OF _ _ admitted(2) ver] by simp
    qed
  qed
  then show ?thesis by (simp add: quiet)
qed

theorem reserve_tool_call_idempotent_witness:
  "reserve_tool_call ex_settings quiet_env ex_identity ''i1'' ''cap'' ''rf'' [] None None None None None (PyDT 5000 (Some 0)) ex_reserved =
     (Inr (Some ex_admission), ex_reserved)"
  using reserve_tool_call_idempotent [OF ex_reserve ex_db_inv] by simp


section \<open>Settling what was admitted\<close>

lemma stored_attribution_lookup:
  "dict_get (stored_attribution i c f e t k w s) ''execution_id'' = Some e"
  "dict_get (stored_attribution i c f e t k w s) ''tool_call_id'' = Some t"
  "dict_get (stored_attribution i c f e t k w s) ''task_id'' = Some k"
  "dict_get (stored_attribution i c f e t k w s) ''workflow_id'' = Some w"
  "dict_get (stored_attribution i c f e t k w s) ''session_id'' = Some s"
  by (simp_all add: stored_attribution_def dict_get_def)

lemma canonical_stored: "canonicalize_json (pyval_of_json (json_opt_str m)) = Inr (json_opt_str m)"
  by (cases m) (simp_all add: json_opt_str_def)

lemma canonical_attribution_dict:
  "canonicalize_json (VDict (in_attribution i)) = Inr (JObj kvs) \<Longrightarrow> canonical_attribution i = Inr kvs"
  unfolding canonical_attribution_def by (simp only: bindR_simps json.case)

text \<open>
  The attribution survives the round trip through the JSON column: a reservation verifies against
  the invocation read back from its own row.
\<close>

lemma verify_stored_invocation:
  assumes iv: "iv = string_invocation iid cap fp ex tc task flow sess" and i: "tool_intent owner e iv = Inr i"
    and r: "new_reservation i = Inr r"
    and a: "ta_invocation_id a = iid" "ta_capability_id a = cap" "ta_request_fingerprint a = fp"
  shows "verify_direct_reservation r owner (stored_invocation a r) = Inr ()"
proof -
  let ?attr = "stored_attribution iid cap fp (json_opt_str ex) (json_opt_str tc) (json_opt_str task) (json_opt_str flow) (json_opt_str sess)"
  let ?si = "stored_invocation a r"
  note fields = tool_intent_fields [OF i] and rf = new_reservation_fields [OF r]
  have at: "in_attribution i = tool_attribution iv" using i by (auto simp: tool_intent_def dest: make_intent_fields)
  have "canonicalize_json (VDict (tool_attribution iv)) = Inr (JObj ?attr)"
    by (subst tool_attribution_canonical) (simp_all add: iv string_invocation_def canonical_opt_str)
  then have ca: "canonical_attribution i = Inr ?attr" by (simp only: canonical_attribution_dict at)
  with r obtain pf where pf: "payload_fingerprint i = Inr pf" and row: "res_attribution_json r = ?attr" "res_payload_fingerprint r = pf"
    by (auto simp: new_reservation_def)
  have si: "iv_invocation_id ?si = iid" "iv_capability_id ?si = cap" "iv_request_fingerprint ?si = fp"
    "iv_execution_id ?si = pyval_of_json (json_opt_str ex)" "iv_tool_call_id ?si = pyval_of_json (json_opt_str tc)"
    "iv_task_id ?si = pyval_of_json (json_opt_str task)" "iv_workflow_id ?si = pyval_of_json (json_opt_str flow)"
    "iv_session_id ?si = pyval_of_json (json_opt_str sess)"
    by (simp_all add: stored_invocation_def stored_field_def a row stored_attribution_lookup)
  have iv': "iv_invocation_id iv = iid" "iv_capability_id iv = cap" "iv_request_fingerprint iv = fp" by (simp_all add: iv)
  define j where "j = i\<lparr>in_attribution := tool_attribution ?si\<rparr>"
  have j: "tool_intent owner e ?si = Inr j"
    using i by (simp add: tool_intent_def si iv' make_intent_def j_def) (auto simp: iv')
  have "canonicalize_json (VDict (tool_attribution ?si)) = Inr (JObj ?attr)"
    by (subst tool_attribution_canonical) (simp_all add: si canonical_stored)
  moreover have "in_attribution j = tool_attribution ?si" by (simp add: j_def)
  ultimately have "canonical_attribution j = Inr ?attr" by (simp only: canonical_attribution_dict)
  then have "payload_fingerprint j = Inr pf" using pf ca by (simp add: payload_fingerprint_def j_def)
  moreover have "res_window_epoch r = e" using rf fields by simp
  ultimately show ?thesis
    using fields rf j row(2) by (simp add: verify_direct_reservation_def si iv' or_empty_def)
qed


text \<open>Room for one more used call in every counter, so that no BIGINT overflows.\<close>

definition headroom :: "db \<Rightarrow> bool" where
  "headroom d \<longleftrightarrow>
     list_all (\<lambda>w. win_tool_calls_used w < USER_BUDGET_INT64_MAX) (windows d) \<and>
     list_all (\<lambda>u. tu_used_calls u < USER_BUDGET_INT64_MAX) (tool_usage d)"

lemma finish_tool_call_rows:
  assumes inv: "budget_inv d" and r: "get_reservation d (ta_owner_user_id a) key = Some r" "res_state r = RESERVED"
    and ver: "verify_direct_reservation r (ta_owner_user_id a) (stored_invocation a r) = Inr x"
  obtains w u where "w \<in> set (windows d)" "win_owner_user_id w = ta_owner_user_id a" "win_epoch w = res_window_epoch r"
    "get_window d (ta_owner_user_id a) (res_window_epoch r) = Some w"
    "u \<in> set (tool_usage d)" "tu_key u = (ta_owner_user_id a, win_epoch w, ta_capability_id a)"
    "get_tool_usage d (ta_owner_user_id a) (res_window_epoch r) (ta_capability_id a) = Some u"
    "0 < win_tool_calls_reserved w" "0 < tu_reserved_calls u"
proof -
  let ?owner = "ta_owner_user_id a" and ?cap = "ta_capability_id a"
  note v = verify_direct_reservation_Inr [OF ver]
  have mem: "r \<in> set (reservations d)" and key: "?owner = res_owner_user_id r"
    using get_reservation_SomeD [OF r(1)] by (auto simp: res_key_def)
  have cap: "res_capability_id r = Some ?cap" using v(5,7) by (auto simp: or_empty_def stored_invocation_def split: option.splits)
  obtain w where w: "w \<in> set (windows d)" "win_key w = res_win r" "get_window d ?owner (res_window_epoch r) = Some w"
    using reservation_window [OF inv mem] key by metis
  obtain u where u: "u \<in> set (tool_usage d)" "tu_tool u = res_tool r" "get_tool_usage d ?owner (res_window_epoch r) ?cap = Some u"
    using reservation_tool_usage [OF inv mem v(4) cap] key by metis
  have "0 < win_tool_calls_reserved w" "0 < tu_reserved_calls u"
    using reserved_counter_pos [OF inv mem w(1,2) r(2), of tool_calls_reserved] reserved_tool_pos [OF inv mem u(1,2) r(2) v(4)] v(4,6)
    by (auto simp: counts_reserved_def)
  with w u key cap show thesis
    by (intro that [of w u]) (auto simp: win_key_def res_win_def tu_key_def tu_tool_def res_tool_def)
qed

lemma settlement_fields_finish:
  assumes "target \<in> {SETTLED, RELEASED}" "utcoffset now \<noteq> None"
  obtains settled stamp where
    "settlement_fields target (if target = SETTLED then Some 1 else None) (if target = SETTLED then Some now else None) = Inr (settled, stamp)"
  using assms by (auto simp: settlement_fields_def require_atomic_counter_def USER_BUDGET_INT64_MAX_def normalize_authoritative_utc_def)

lemma finish_tool_call_progress:
  assumes inv: "budget_inv d" and r: "get_reservation d (ta_owner_user_id a) key = Some r" "res_state r = RESERVED"
    and ver: "verify_direct_reservation r (ta_owner_user_id a) (stored_invocation a r) = Inr x"
    and tgt: "target \<in> {SETTLED, RELEASED}" and room: "headroom d" and aware: "utcoffset now \<noteq> None"
  shows "\<exists>a' d'. finish_tool_call a key target now r d = Inr (a', d')"
  using inv r ver
proof (rule finish_tool_call_rows)
  let ?owner = "ta_owner_user_id a" and ?cap = "ta_capability_id a"
  fix w u
  assume w: "w \<in> set (windows d)" "win_owner_user_id w = ?owner" "win_epoch w = res_window_epoch r"
    "get_window d ?owner (res_window_epoch r) = Some w"
    and u: "u \<in> set (tool_usage d)" "tu_key u = (?owner, win_epoch w, ?cap)" "get_tool_usage d ?owner (res_window_epoch r) ?cap = Some u"
    and pos: "0 < win_tool_calls_reserved w" "0 < tu_reserved_calls u"
  note keys = budget_inv_keys [OF inv] and uok = budget_inv_rows(2) [OF inv u(1)]
  have mem: "r \<in> set (reservations d)" "key = res_idempotency_key r" "?owner = res_owner_user_id r"
    using get_reservation_SomeD [OF r(1)] by (auto simp: res_key_def)
  have lt: "win_tool_calls_used w < USER_BUDGET_INT64_MAX" "tu_used_calls u < USER_BUDGET_INT64_MAX"
    using room w(1) u(1) by (auto simp: headroom_def list_all_iff)
  have ok: "nat64 (win_tool_calls_used w)" "nat64 (win_tool_calls_reserved w)"
    using counter_nat64 [OF inv w(1), of tool_calls_used] counter_nat64 [OF inv w(1), of tool_calls_reserved] by simp_all
  let ?vs = "if target = SETTLED
     then [(tool_calls_used, win_tool_calls_used w + 1), (tool_calls_reserved, win_tool_calls_reserved w - 1)]
     else [(tool_calls_reserved, win_tool_calls_reserved w - 1)]"
  have "\<exists>w' d1. mutate_window_usage (win_owner_user_id w) (win_epoch w) (win_revision w) ?vs d = Inr (w', d1)"
    by (rule mutate_window_usageI [OF inv w(1)])
      (use ok pos lt in \<open>auto simp: nat64_def monotonic_used_fields_def split: if_splits\<close>)
  then obtain w' d1 where mw: "mutate_window_usage ?owner (win_epoch w) (win_revision w) ?vs d = Inr (w', d1)" using w by auto
  note d1 = mutate_window_memberE(5) [OF mw keys(1) w(1,2)]
  let ?used = "tu_used_calls u + (if target = SETTLED then 1 else 0)"
  have "\<exists>u' d2. mutate_tool_usage (tu_owner_user_id u) (tu_window_epoch u) (tu_capability_id u) (tu_revision u) ?used
      (tu_reserved_calls u - 1) d1 = Inr (u', d2)"
    by (rule mutate_tool_usageI) (use keys pos lt u(1) d1 uok in \<open>auto simp: tool_usage_row_ok_def nat64_def\<close>)
  then obtain u' d2 where mt: "mutate_tool_usage ?owner (win_epoch w) ?cap (tu_revision u) ?used (tu_reserved_calls u - 1) d1 = Inr (u', d2)"
    using u(2) by (auto simp: tu_key_def)
  have "tool_usage d1 = tool_usage d" using d1 by simp
  note d2 = mutate_tool_memberE(4) [OF mt, unfolded this, OF keys(2) u(1,2)]
  have rs2: "reservations d2 = reservations d" using d2 d1 by simp
  obtain settled stamp where "settlement_fields target (if target = SETTLED then Some 1 else None) (if target = SETTLED then Some now else None) = Inr (settled, stamp)"
    by (rule settlement_fields_finish [OF tgt aware])
  from transition_reservationI [of d2, unfolded rs2, OF keys(3) mem(1) budget_inv_rows(3) [OF inv mem(1)] r(2) _ this] tgt
  obtain t d' where "transition_reservation ?owner key (res_revision r) target (if target = SETTLED then Some 1 else None)
      (if target = SETTLED then Some now else None) d2 = Inr (t, d')"
    using mem(2,3) by auto
  then show ?thesis
    using w(4) u(3) pos mw mt by (cases "target = SETTLED") (auto simp: finish_tool_call_def Let_def)
qed


lemma charged_window:
  assumes "charged d d' w w' cap \<delta>"
  shows "w \<in> set (windows d)" "w' \<in> set (windows d')" "win_key w' = win_key w" "counter c w' = counter c w + \<delta> c"
proof -
  show w: "w \<in> set (windows d)" and k: "win_key w' = win_key w" and "counter c w' = counter c w + \<delta> c"
    using assms by (auto simp: charged_def dest: win_ident_key)
  have "windows d' = replace_row win_key w' (windows d)" using assms by (simp add: charged_def)
  with w k show "w' \<in> set (windows d')" by (auto intro: replaced_in_row)
qed

text \<open>What a new admission leaves behind.\<close>

lemma reserve_newE:
  assumes res: "reserve_tool_call s quiet_env ident iid cap fp args ex tc task flow sess now d = (Inr (Some a), d')" and inv: "budget_inv d"
    and new: "\<not> ta_historical_bridge a" "get_reservation d (ta_owner_user_id a) (fst (tool_identity iid)) = None"
  obtains r where "budget_inv d'" "get_reservation d' (ta_owner_user_id a) (fst (tool_identity iid)) = Some r" "res_state r = RESERVED"
    "verify_direct_reservation r (ta_owner_user_id a) (stored_invocation a r) = Inr ()"
    "ta_idempotency_key a = Some (fst (tool_identity iid))" "ta_window_epoch a = Some (res_window_epoch r)"
proof -
  from res have ok: "tqs_enabled s" "iid \<noteq> []" "cap \<noteq> []" "fp \<noteq> []"
    by (auto simp: reserve_tool_call_def split: if_splits)
  from res have att: "reserve_attempt quiet_env 0 ident iid cap fp args ex tc task flow sess now d = Inr (a, d')"
    by (auto simp: reserve_quiet [OF ok] split: sum.splits prod.splits)
  then show thesis
  proof (cases rule: reserve_attemptE)
    case (replayed owner r x iv)
    with new show thesis by (auto simp: quiet_env_simps direct_admission_def)
  next
    case historical
    with new show thesis by simp
  next
    case (admitted owner account iv)
    then have fresh: "get_reservation d owner (fst (tool_identity (iv_invocation_id iv))) = None" by (simp add: quiet_env_simps)
    have "admit_tool_call owner account iv now d = Inr (a, d')" using admitted(4) by (simp add: quiet_env_simps)
    from this inv fresh show thesis
    proof (rule admit_tool_call_charged)
      fix w d1 p u d2 i r w' u'
      assume inv': "budget_inv d'" and rs: "reservations d' = reservations d @ [r]"
        and key: "res_key r = (owner, fst (tool_identity (iv_invocation_id iv)))"
        and st: "res_state r = RESERVED" "res_tool r = (owner, win_epoch w, Some (iv_capability_id iv))"
        and a: "a = (direct_admission owner iv r)\<lparr>ta_window_epoch := Some (win_epoch w), ta_reservation_state := RESERVED\<rparr>"
        and i: "tool_intent owner (win_epoch w) iv = Inr i" and r: "new_reservation i = Inr r"
      have af: "ta_owner_user_id a = owner" "ta_invocation_id a = iid" "ta_capability_id a = cap" "ta_request_fingerprint a = fp"
        "ta_idempotency_key a = Some (fst (tool_identity iid))" "ta_window_epoch a = Some (res_window_epoch r)"
        using a admitted(1) st(2) by (simp_all add: direct_admission_def res_tool_def)
      from verify_stored_invocation [OF admitted(1) i r af(2-4)] find_appended_fresh [OF rs fresh key] inv' st(1) af admitted(1)
      show thesis by (intro that [of r]) simp_all
    qed
  qed
qed

lemma terminal_progress:
  assumes inv: "budget_inv d" and r: "get_reservation d (ta_owner_user_id a) key = Some r" "res_state r = RESERVED"
    and ver: "verify_direct_reservation r (ta_owner_user_id a) (stored_invocation a r) = Inr ()"
    and new: "\<not> ta_historical_bridge a" "ta_idempotency_key a = Some key"
    and tgt: "target \<in> {SETTLED, RELEASED}" and room: "headroom d" "utcoffset now \<noteq> None"
  obtains d' w w' where
    "terminal_transition s quiet_env (Some a) target now d = (Inr (Some (a\<lparr>ta_reservation_state := target\<rparr>)), d')" "budget_inv d'"
    "charged d d' w w' (Some (ta_capability_id a)) (finish_delta target)" "win_key w = (ta_owner_user_id a, res_window_epoch r)"
proof -
  obtain a' d' where fin: "finish_tool_call a key target now r d = Inr (a', d')"
    using finish_tool_call_progress [OF inv r ver tgt room] by blast
  have "target \<noteq> RESERVED" using tgt by auto
  with r ver fin have "terminal_attempt quiet_env 0 a key target now d = Inr (a', d')"
    by (simp add: terminal_attempt_def quiet_env_simps)
  then have tt: "terminal_transition s quiet_env (Some a) target now d = (Inr (Some a'), d')"
    using terminal_quiet [OF new tgt] by simp
  from fin tgt inv r ver show thesis
  proof (rule finish_tool_call_charged)
    fix w w' t settled stamp
    assume ch: "charged d d' w w' (Some (ta_capability_id a)) (finish_delta target)" and inv': "budget_inv d'"
      and k: "win_key w = (ta_owner_user_id a, res_window_epoch r)"
      and a': "a' = a\<lparr>ta_reservation_state := target, ta_historical_bridge := False\<rparr>"
    have "a' = a\<lparr>ta_reservation_state := target\<rparr>" unfolding a' using new(1) by (cases a) simp
    with tt have "terminal_transition s quiet_env (Some a) target now d = (Inr (Some (a\<lparr>ta_reservation_state := target\<rparr>)), d')"
      by (simp only:)
    then show thesis using inv' ch k by (rule that)
  qed
qed

lemma ex_reserved_room: "headroom ex_reserved"
  by (simp add: headroom_def ex_reserved_def ex_window_def new_window_def USER_BUDGET_INT64_MAX_def)

lemma ex_admission_new:
  "\<not> ta_historical_bridge ex_admission" "get_reservation ex_db (ta_owner_user_id ex_admission) (fst (tool_identity ''i1'')) = None"
  by (simp_all add: ex_admission_def get_reservation_def ex_db_def)

lemma ex_settle:
  "budget_inv ex_reserved \<and>
   (\<exists>d. terminal_transition ex_settings quiet_env (Some ex_admission) SETTLED (PyDT 2000 (Some 0)) ex_reserved =
      (Inr (Some (ex_admission\<lparr>ta_reservation_state := SETTLED\<rparr>)), d))"
  using ex_reserve ex_db_inv ex_admission_new
proof (rule reserve_newE)
  fix r
  assume r: "budget_inv ex_reserved" "get_reservation ex_reserved (ta_owner_user_id ex_admission) (fst (tool_identity ''i1'')) = Some r"
    "res_state r = RESERVED" "verify_direct_reservation r (ta_owner_user_id ex_admission) (stored_invocation ex_admission r) = Inr ()"
    and key: "ta_idempotency_key ex_admission = Some (fst (tool_identity ''i1''))"
  have "SETTLED \<in> {SETTLED, RELEASED}" "utcoffset (PyDT 2000 (Some 0)) \<noteq> None" by simp_all
  from terminal_progress [OF r ex_admission_new(1) key this(1) ex_reserved_room this(2)] r(1) show ?thesis by blast
qed

text \<open>
  C4. A call that was newly admitted can always be finished: settling it, or releasing it, succeeds
  and moves exactly one call of the window out of the reserved counter, into the used counter when
  it is settled, unless a BIGINT counter is full or the clock is not timezone-aware.
\<close>

theorem admitted_call_finishes:
  assumes res: "reserve_tool_call s quiet_env ident iid cap fp args ex tc task flow sess now d = (Inr (Some a), d')" and inv: "budget_inv d"
    and new: "\<not> ta_historical_bridge a" "get_reservation d (ta_owner_user_id a) (fst (tool_identity iid)) = None"
    and tgt: "target \<in> {SETTLED, RELEASED}" and room: "headroom d'" "utcoffset later \<noteq> None"
  shows "\<exists>d'' w w'. terminal_transition s' quiet_env (Some a) target later d' = (Inr (Some (a\<lparr>ta_reservation_state := target\<rparr>)), d'') \<and>
    budget_inv d'' \<and> w \<in> set (windows d') \<and> w' \<in> set (windows d'') \<and> win_key w' = win_key w \<and>
    Some (win_epoch w) = ta_window_epoch a \<and> win_owner_user_id w = ta_owner_user_id a \<and>
    win_tool_calls_reserved w' = win_tool_calls_reserved w - 1 \<and>
    win_tool_calls_used w' = win_tool_calls_used w + (if target = SETTLED then 1 else 0)"
  using res inv new
proof (rule reserve_newE)
  fix r
  assume r: "budget_inv d'" "get_reservation d' (ta_owner_user_id a) (fst (tool_identity iid)) = Some r" "res_state r = RESERVED"
    "verify_direct_reservation r (ta_owner_user_id a) (stored_invocation a r) = Inr ()"
    and key: "ta_idempotency_key a = Some (fst (tool_identity iid))" and ep: "ta_window_epoch a = Some (res_window_epoch r)"
  from r new(1) key tgt room show ?thesis
  proof (rule terminal_progress [where s = s'])
    fix d'' w w'
    assume tt: "terminal_transition s' quiet_env (Some a) target later d' = (Inr (Some (a\<lparr>ta_reservation_state := target\<rparr>)), d'')" "budget_inv d''"
      and ch: "charged d' d'' w w' (Some (ta_capability_id a)) (finish_delta target)" and k: "win_key w = (ta_owner_user_id a, res_window_epoch r)"
    note w = charged_window [OF ch]
    from tt w(1-3) w(4) [of tool_calls_used] w(4) [of tool_calls_reserved] k ep show ?thesis
      by (intro exI [of _ d''] exI [of _ w] exI [of _ w'])
        (auto simp: finish_delta_def settled_delta_tool reserved_delta_tool win_key_def)
  qed
qed

theorem admitted_call_finishes_witness:
  "\<exists>d'' w w'. terminal_transition ex_settings quiet_env (Some ex_admission) SETTLED (PyDT 2000 (Some 0)) ex_reserved =
      (Inr (Some (ex_admission\<lparr>ta_reservation_state := SETTLED\<rparr>)), d'') \<and>
    budget_inv d'' \<and> w \<in> set (windows ex_reserved) \<and> w' \<in> set (windows d'') \<and> win_key w' = win_key w \<and>
    Some (win_epoch w) = ta_window_epoch ex_admission \<and> win_owner_user_id w = ta_owner_user_id ex_admission \<and>
    win_tool_calls_reserved w' = win_tool_calls_reserved w - 1 \<and> win_tool_calls_used w' = win_tool_calls_used w + 1"
proof -
  have "SETTLED \<in> {SETTLED, RELEASED}" "utcoffset (PyDT 2000 (Some 0)) \<noteq> None" by simp_all
  from admitted_call_finishes [OF ex_reserve ex_db_inv ex_admission_new this(1) ex_reserved_room this(2), of ex_settings]
  show ?thesis unfolding if_P [OF refl] .
qed

text \<open>
  C6. A call reaches one terminal state only: after a successful settlement or release, under any
  interference, repeating it returns the same admission, and asking for the other terminal state is
  a conflict; neither changes the database.
\<close>

theorem terminal_state_is_final:
  assumes "terminal_transition s env (Some a) target now d = (Inr (Some a'), d')" "env_ok env" "budget_inv d"
    and "\<not> ta_historical_bridge a" "(target, other) \<in> {(SETTLED, RELEASED), (RELEASED, SETTLED)}"
  shows "terminal_transition s' quiet_env (Some a) target now' d' = (Inr (Some a'), d') \<and>
    terminal_transition s' quiet_env (Some a) other now' d' = (Inl UserToolQuotaConflictError, d')"
proof -
  have tgt: "target \<in> {SETTLED, RELEASED}" "other \<in> {SETTLED, RELEASED}" "target \<noteq> other" using assms(5) by auto
  from assms(1,4) obtain key where key: "ta_idempotency_key a = Some key" by (auto simp: terminal_transition_def split: option.splits)
  let ?args = "(a, key, target, now)" and ?n = "nat (max 1 (tqs_max_conflict_retries s))"
  let ?loop = "retry_loop is_retryable_error AssertionError (others env) (terminal_with env ?args) 0 ?n d"
  have "(Inr (Some a'), d') = map_prod (map_sum id Some) id ?loop"
    using assms(1,4) key tgt(1) by (elim insertE emptyE) (simp_all add: terminal_transition_def)
  then have "?loop = (Inr a', d')" by (cases ?loop; cases "fst ?loop") auto
  then have "terminal_post ?args a' d'" using tool_terminal.loop_result [OF assms(2,3), where arg = ?args] by blast
  then obtain r where a': "a' = a\<lparr>ta_reservation_state := target, ta_historical_bridge := False\<rparr>"
    and r: "get_reservation d' (ta_owner_user_id a) key = Some r" "res_state r = target"
    and ver: "verify_direct_reservation r (ta_owner_user_id a) (stored_invocation a r) = Inr ()"
    by (auto simp: terminal_post_def split: option.splits)
  have "terminal_attempt quiet_env 0 a key target now' d' = Inr (a', d')"
    unfolding a' using r ver by (simp add: terminal_attempt_def quiet_env_simps)
  moreover have "terminal_attempt quiet_env 0 a key other now' d' = Inl UserToolQuotaConflictError"
    using r ver tgt by (auto simp: terminal_attempt_def quiet_env_simps)
  ultimately show ?thesis using terminal_quiet [OF assms(4) key] tgt by simp
qed


theorem terminal_state_is_final_witness:
  "\<exists>d'. terminal_transition ex_settings quiet_env (Some ex_admission) SETTLED (PyDT 2000 (Some 0)) ex_reserved =
      (Inr (Some (ex_admission\<lparr>ta_reservation_state := SETTLED\<rparr>)), d') \<and>
    terminal_transition ex_settings quiet_env (Some ex_admission) RELEASED (PyDT 3000 (Some 0)) d' = (Inl UserToolQuotaConflictError, d')"
proof -
  let ?a = "ex_admission\<lparr>ta_reservation_state := SETTLED\<rparr>"
  obtain d' where d': "terminal_transition ex_settings quiet_env (Some ex_admission) SETTLED (PyDT 2000 (Some 0)) ex_reserved = (Inr (Some ?a), d')"
    using ex_settle by blast
  have "(SETTLED, RELEASED) \<in> {(SETTLED, RELEASED), (RELEASED, SETTLED)}" by simp
  from terminal_state_is_final [OF d' quiet_env_ok conjunct1 [OF ex_settle] ex_admission_new(1) this, where now' = "PyDT 3000 (Some 0)" and s' = ex_settings] d'
  show ?thesis by blast
qed

end
