(* ===== verification/Sample_Mirror.thy ===== *)
theory Sample_Mirror
  imports Dual_Accounting
begin

text \<open>
  One run of dual accounting on a concrete database: a committed inference call of a bound task is
  mirrored for a user who has no policy, account or window yet, so that the shadow policy, the
  account and the first window are created on the way. The digests stay symbolic, and the rows
  of the task budget tables and the fingerprint of the task's reservation are parameters. The conditional
  theorems of \<open>Dual_Accounting\<close> are applied to this run.
\<close>

section \<open>The database\<close>

definition mx_settings :: dual_accounting_settings where
  "mx_settings = \<lparr>das_enabled = True, das_policy_version = ''ubq2-shadow-v1'', das_window_duration_seconds = 3600\<rparr>"

definition mx_binding_row :: binding_row where
  "mx_binding_row =
     \<lparr>bnd_task_id = ''t1'', bnd_owner_user_id = ''u1'', bnd_enrollment_version = UBQ2_ENROLLMENT_VERSION,
      bnd_source_auth_type = ''jwt'', bnd_source_api_key_id = None, bnd_source_application_id = None,
      bnd_source_organization_id = None, bnd_resolution_fingerprint = ''rf''\<rparr>"

definition mx_binding :: task_binding_snapshot where
  "mx_binding = binding_snapshot mx_binding_row"

definition mx_db :: "task_budget_row list \<Rightarrow> task_budget_reservation_row list \<Rightarrow> db" where
  "mx_db bs rs =
     \<lparr>users = [''u1''], organizations = [], applications = [], api_keys = [], tasks = [\<lparr>tsk_id = ''t1'', tsk_status = ''RUNNING''\<rparr>],
      task_budget_next_generation = 2, task_budgets = bs,
      task_budget_reservations = rs, executions = [], tool_calls = [], iterations = [], policies = [],
      windows = [], accounts = [], tool_usage = [], reservations = [], bindings = [mx_binding_row], receipts = []\<rparr>"

definition mx_now :: pydatetime where
  "mx_now = PyDT 1000 (Some 0)"

definition mx_policy_id :: string where
  "mx_policy_id = shadow_policy_id ''u1'' ''ubq2-shadow-v1'' 3600"

definition mx_policy :: policy where
  "mx_policy =
     \<lparr>policy_id = mx_policy_id, owner_user_id = ''u1'', policy_version = ''ubq2-shadow-v1'',
      window_duration_seconds = 3600, max_compute_units = None, max_inference_calls = None, max_input_tokens = None,
      max_output_tokens = None, max_total_tokens = None, max_tool_calls_total = None,
      default_per_tool_limit = None, tool_limits = [], max_cost_usd = None\<rparr>"

definition mx_fingerprint :: string where
  "mx_fingerprint = (case policy_fingerprint mx_policy of Inr fp \<Rightarrow> fp | Inl _ \<Rightarrow> [])"

definition mx_row :: policy_row where
  "mx_row =
     \<lparr>pol_policy_id = mx_policy_id, pol_owner_user_id = ''u1'', pol_policy_version = ''ubq2-shadow-v1'',
      pol_policy_fingerprint = mx_fingerprint, pol_window_duration_seconds = 3600, pol_max_compute_atomic = None,
      pol_max_inference_calls = None, pol_max_input_tokens = None, pol_max_output_tokens = None,
      pol_max_total_tokens = None, pol_max_tool_calls_total = None, pol_default_per_tool_limit = None,
      pol_tool_limits_json = [], pol_max_cost_usd_atomic = None, pol_revision = 0\<rparr>"

lemma mx_db_inv: "budget_inv (mx_db bs rs)"
  by (simp add: mx_db_def budget_inv_defs active_owners_def)

section \<open>The shadow policy and account\<close>

lemma py_len_take_le: "py_len (take n s) \<le> py_len s"
  by (metis append_take_drop_id le_add1 py_len_append)

lemma mx_shadow_policy: "shadow_policy mx_settings ''u1'' = Inr mx_policy"
proof -
  have "py_len (take 48 (canonical_sha256 p)) \<le> 243" for p
    using py_len_take_le [of 48 "canonical_sha256 p"] by simp
  then show ?thesis
    by (simp add: shadow_policy_def mx_settings_def unbounded_policy_def make_policy_def unwrapped_def
        normalize_optional_decimal_limit_def validate_tool_limits_def pydantic_wrap_def bounded_str_def shadow_policy_id_def
        py_len_simps positive_int64_def USER_BUDGET_INT64_MAX_def opt_positive_int64_def mx_policy_def mx_policy_id_def)
qed

lemma mx_policy_fingerprint: "policy_fingerprint mx_policy = Inr mx_fingerprint"
  unfolding mx_fingerprint_def
  by (simp add: policy_fingerprint_def canonical_semantics_def mx_policy_def canonical_decimal_string_def)

lemma mx_durable: "durable_values mx_policy = Inr mx_row"
  by (simp add: durable_values_def mx_policy_fingerprint) (simp add: mx_policy_def atomic_limit_def mx_row_def)

definition mx_account :: account_row where
  "mx_account = \<lparr>acc_owner_user_id = ''u1'', acc_revision = 1, acc_next_policy_id = Some mx_policy_id,
                 acc_active_window_epoch = None, acc_next_window_epoch = 1\<rparr>"

definition mx_accounted :: "task_budget_row list \<Rightarrow> task_budget_reservation_row list \<Rightarrow> db" where
  "mx_accounted bs rs = (mx_db bs rs)\<lparr>policies := [mx_row], accounts := [mx_account]\<rparr>"

lemmas mx_eval =
  mx_accounted_def mx_account_def mx_db_def mx_row_def create_or_get_def get_account_def
  get_policy_def get_policy_by_version_def get_active_window_def active_windows_def
  normalize_authoritative_utc_def add_seconds_def DATETIME_MAX_def USER_BUDGET_INT64_MAX_def
  insert_window_def window_row_ok_def new_window_def instant_def record_utc_def all_counters_def nat64_def
  exact_policy_def win_key_def active_owners_def advance_account_def update_accounts_def update_windows_def
  account_row_ok_def account_refs_ok_def upd_where_def

lemma mx_policy_created: "create_or_get_immutable_policy id mx_policy (mx_db bs rs) = Inr (mx_row, (mx_db bs rs)\<lparr>policies := [mx_row]\<rparr>)"
  by (simp add: create_or_get_immutable_policy_def mx_durable policy_identity_def insert_policy_def policy_row_ok_def
      opt_pos64_def mx_eval)

lemma mx_account_created:
  "create_or_get_account id ''u1'' ((mx_db bs rs)\<lparr>policies := [mx_row]\<rparr>) =
     Inr (new_account ''u1'', (mx_db bs rs)\<lparr>policies := [mx_row], accounts := [new_account ''u1'']\<rparr>)"
  by (simp add: create_or_get_account_def insert_account_def new_account_def mx_eval)

lemma mx_ensure_account: "ensure_shadow_account mx_settings (\<lambda>_. id) ''u1'' (mx_db bs rs) = Inr (mx_account, (mx_accounted bs rs))"
  by (simp add: ensure_shadow_account_def mx_shadow_policy mx_policy_created mx_account_created)
    (simp add: select_shadow_policy_def select_next_policy_def require_shadow_window_def new_account_def Let_def mx_eval)

section \<open>The window\<close>

definition mx_window :: window_row where
  "mx_window = new_window ''u1'' 1 mx_row mx_now (PyDT 3600001000 (Some 0))"

definition mx_open :: "task_budget_row list \<Rightarrow> task_budget_reservation_row list \<Rightarrow> db" where
  "mx_open bs rs = (mx_accounted bs rs)\<lparr>windows := [mx_window],
     accounts := [mx_account\<lparr>acc_revision := 2, acc_active_window_epoch := Some 1, acc_next_window_epoch := 2\<rparr>]\<rparr>"

lemma mx_window_opened: "ensure_active_shadow_window mx_settings (\<lambda>_. id) ''u1'' mx_now (mx_db bs rs) = Inr (mx_window, (mx_open bs rs))"
proof -
  have "get_active_window (mx_accounted bs rs) ''u1'' = Inr None" "acc_revision mx_account = 1" by (simp_all add: mx_eval)
  moreover have "rollover_window ''u1'' 1 mx_now (mx_accounted bs rs) = Inr (mx_window, (mx_open bs rs))"
    by (simp add: rollover_window_def open_window_def Let_def mx_now_def mx_open_def mx_window_def mx_eval)
  ultimately show ?thesis by (simp add: ensure_active_shadow_window_def mx_ensure_account)
qed

section \<open>The mirrored charge\<close>

definition mx_dim :: mirror_dimension where
  "mx_dim = \<lparr>md_resource_kind = ''INFERENCE_CALL'', md_amount_atomic = 1, md_capability_id = None\<rparr>"

definition mx_digest :: string where
  "mx_digest = mirror_digest ''u1'' ''t1'' ''INFERENCE'' ''k1'' ''INFERENCE_CALL''"

definition mx_attribution :: "(string \<times> json) list" where
  "mx_attribution =
     [(''resource_kind'', JStr ''INFERENCE_CALL''), (''task_budget_kind'', JStr ''INFERENCE''),
      (''task_budget_reservation_key'', JStr ''k1''), (''task_id'', JStr ''t1''),
      (''version'', JStr UBQ2_IDEMPOTENCY_VERSION)]"

definition mx_payload :: string where
  "mx_payload = canonical_sha256
     [(''resource_kind'', JStr ''INFERENCE_CALL''), (''reserved_amount_atomic'', JInt 1), (''capability_id'', JNull),
      (''attribution'', JObj mx_attribution)]"

definition mx_intent :: intent where
  "mx_intent =
     \<lparr>in_reservation_id = ''ubq2r:'' @ mx_digest, in_owner_user_id = ''u1'', in_window_epoch = 1,
      in_idempotency_key = ''ubq2:v1:'' @ mx_digest, in_resource_kind = INFERENCE_CALL, in_capability_id = None,
      in_reserved_amount_atomic = 1,
      in_attribution = [(KStr ''version'', VStr UBQ2_IDEMPOTENCY_VERSION), (KStr ''task_id'', VStr ''t1''),
        (KStr ''task_budget_kind'', VStr ''INFERENCE''), (KStr ''task_budget_reservation_key'', VStr ''k1''),
        (KStr ''resource_kind'', VStr ''INFERENCE_CALL'')]\<rparr>"

definition mx_reservation :: reservation_row where
  "mx_reservation =
     \<lparr>res_reservation_id = ''ubq2r:'' @ mx_digest, res_owner_user_id = ''u1'', res_window_epoch = 1,
      res_idempotency_key = ''ubq2:v1:'' @ mx_digest, res_resource_kind = INFERENCE_CALL, res_capability_id = None,
      res_reserved_amount_atomic = 1, res_settled_amount_atomic = None, res_state = RESERVED,
      res_attribution_json = mx_attribution, res_payload_fingerprint = mx_payload, res_revision = 0, res_settled_at = None\<rparr>"

definition mx_settled :: reservation_row where
  "mx_settled = mx_reservation\<lparr>res_state := SETTLED, res_settled_amount_atomic := Some 1, res_settled_at := Some mx_now,
     res_revision := 1\<rparr>"

definition mx_charged :: window_row where
  "mx_charged = mx_window\<lparr>win_inference_used := 1, win_revision := 1\<rparr>"

definition mx_receipt :: "string \<Rightarrow> receipt_row" where
  "mx_receipt fp = charged_receipt mx_binding ''INFERENCE'' ''k1'' fp INFERENCE_CALL mx_dim 1 mx_settled"

definition mx_done :: "task_budget_row list \<Rightarrow> task_budget_reservation_row list \<Rightarrow> string \<Rightarrow> db" where
  "mx_done bs rs fp = (mx_open bs rs)\<lparr>windows := [mx_charged], reservations := [mx_settled], receipts := [(mx_receipt fp)]\<rparr>"

lemma mx_binding_fields: "tbs_task_id mx_binding = ''t1''" "tbs_owner_user_id mx_binding = ''u1''"
  by (simp_all add: mx_binding_def binding_snapshot_def mx_binding_row_def)

lemma mx_mirror_intent: "mirror_intent mx_binding ''INFERENCE'' ''k1'' 1 INFERENCE_CALL mx_dim = Inr mx_intent"
  by (simp add: mirror_intent_def Let_def mx_binding_fields make_intent_def bounded_str_def py_len_simps mx_dim_def
      mirror_digest_def mx_digest_def positive_int64_def USER_BUDGET_INT64_MAX_def capability_scope_ok_def mx_intent_def)

lemma mx_canonical: "canonical_attribution mx_intent = Inr mx_attribution"
  by (simp add: canonical_attribution_def mx_intent_def mx_attribution_def)

lemma mx_new_reservation: "new_reservation mx_intent = Inr mx_reservation"
  by (simp add: new_reservation_def mx_canonical payload_fingerprint_def)
    (simp add: mx_intent_def mx_reservation_def mx_payload_def json_opt_str_def)

lemma mx_reserved: "create_or_get_reservation id mx_intent (mx_open bs rs) = Inr (mx_reservation, (mx_open bs rs)\<lparr>reservations := [mx_reservation]\<rparr>)"
proof -
  have "get_reservation (mx_open bs rs) (in_owner_user_id mx_intent) (in_idempotency_key mx_intent) = None"
    by (simp add: get_reservation_def mx_open_def mx_eval)
  moreover have "insert_reservation mx_reservation (mx_open bs rs) = Inr ((mx_open bs rs)\<lparr>reservations := [mx_reservation]\<rparr>)"
    by (simp add: insert_reservation_def mx_open_def mx_eval mx_reservation_def mx_window_def reservation_row_ok_def)
  ultimately show ?thesis by (simp add: create_or_get_reservation_def create_or_get_def mx_new_reservation)
qed

lemma mx_counted:
  "mutate_window_usage ''u1'' 1 0 [(inference_used, 1)] ((mx_open bs rs)\<lparr>reservations := [mx_reservation]\<rparr>) =
     Inr (mx_charged, (mx_open bs rs)\<lparr>reservations := [mx_reservation], windows := [mx_charged]\<rparr>)"
  by (simp add: mutate_window_usage_def get_window_def mx_open_def mx_charged_def mx_window_def mx_eval mx_now_def Let_def
      require_atomic_counter_def monotonic_used_fields_def set_counters_def)

lemma mx_transition:
  "transition_reservation ''u1'' (''ubq2:v1:'' @ mx_digest) 0 SETTLED (Some 1) (Some mx_now)
     ((mx_open bs rs)\<lparr>reservations := [mx_reservation], windows := [mx_charged]\<rparr>) =
     Inr (mx_settled, (mx_open bs rs)\<lparr>reservations := [mx_settled], windows := [mx_charged]\<rparr>)"
  by (simp add: transition_reservation_def get_reservation_def settlement_fields_def require_atomic_counter_def
      normalize_authoritative_utc_def mx_now_def mx_settled_def mx_reservation_def update_reservations_def
      reservation_row_ok_def nat64_def USER_BUDGET_INT64_MAX_def Let_def upd_where_def res_key_def)

lemma mx_receipted:
  "create_or_get_dual_accounting_receipt id (mx_receipt fp) ((mx_open bs rs)\<lparr>reservations := [mx_settled], windows := [mx_charged]\<rparr>) =
     Inr ((mx_receipt fp), (mx_done bs rs fp))"
  by (simp add: create_or_get_dual_accounting_receipt_def create_or_get_def get_dual_accounting_receipt_def insert_receipt_def
      receipt_row_ok_def mx_receipt_def charged_receipt_def mx_binding_def binding_snapshot_def mx_binding_row_def mx_dim_def
      mx_settled_def mx_reservation_def bridged_def mx_done_def mx_open_def mx_accounted_def mx_db_def nat64_def
      USER_BUDGET_INT64_MAX_def)

lemma mx_mirror_one:
  "mirror_one mx_binding ''INFERENCE'' ''k1'' fp mx_now mx_dim mx_window (mx_open bs rs) = Inr ((mx_receipt fp), mx_charged, (mx_done bs rs fp))"
proof -
  have w: "win_epoch mx_window = 1" "win_revision mx_window = 0" "win_inference_used mx_window = 0" "win_epoch mx_charged = 1"
    by (simp_all add: mx_window_def mx_charged_def new_window_def)
  have dim: "kind_of_value (md_resource_kind mx_dim) = Inr INFERENCE_CALL" "md_amount_atomic mx_dim = 1" "md_capability_id mx_dim = None"
    by (simp_all add: mx_dim_def kind_of_value_def all_kinds_def)
  have i: "in_idempotency_key mx_intent = ''ubq2:v1:'' @ mx_digest" "res_revision mx_reservation = 0"
    by (simp_all add: mx_intent_def mx_reservation_def)
  note steps = mx_mirror_intent mx_reserved mx_counted mx_transition [simplified] mx_receipted [unfolded mx_receipt_def]
  show ?thesis
    by (simp add: mirror_one_def w dim i mx_binding_fields none_if_empty_def mirror_counter_def steps Let_def)
      (simp add: mx_receipt_def)
qed

lemma mx_mirror:
  "mirror_resource mx_settings (\<lambda>_. id) mx_binding ''INFERENCE'' ''k1'' fp inference_dimensions mx_now (mx_db bs rs) =
     Inr ([(mx_receipt fp)], (mx_done bs rs fp))"
proof -
  have dims: "inference_dimensions = [mx_dim]" by (simp add: inference_dimensions_def mx_dim_def)
  have kind: "md_resource_kind mx_dim \<noteq> ''NO_CHARGE''" by (simp add: mx_dim_def)
  have "existing_receipts (mx_db bs rs) mx_binding ''INFERENCE'' ''k1'' fp [mx_dim] = Inr [None]"
    by (simp add: get_dual_accounting_receipt_def mx_db_def)
  then show ?thesis
    unfolding dims mirror_resource_def by (simp add: kind mx_binding_fields mx_window_opened mx_mirror_one del: existing_receipts.simps)
qed

section \<open>Applying the theorems\<close>

theorem mirror_charges_exactly_witness:
  "mirror_resource mx_settings (\<lambda>_. id) mx_binding ''INFERENCE'' ''k1'' ''sf'' inference_dimensions mx_now (mx_db [] []) =
     Inr ([(mx_receipt ''sf'')], (mx_done [] [] ''sf'')) \<and> budget_inv (mx_done [] [] ''sf'') \<and> counter inference_used mx_charged = 1"
proof -
  have "race_ok (tbs_task_id mx_binding) (\<lambda>_. id)" using race_ok_id by (simp add: id_def)
  from mirror_charges_exactly [OF mx_mirror mx_db_inv inference_dimensions_ok this] mx_mirror
  show ?thesis by (simp add: mx_charged_def)
qed

theorem mirror_replay_witness:
  "mirror_resource mx_settings (\<lambda>_. id) mx_binding ''INFERENCE'' ''k1'' ''sf'' inference_dimensions mx_now (mx_db [] []) =
     Inr ([(mx_receipt ''sf'')], (mx_done [] [] ''sf'')) \<and>
   mirror_resource mx_settings (\<lambda>_. id) mx_binding ''INFERENCE'' ''k1'' ''sf'' inference_dimensions (PyDT 5000 (Some 0)) (mx_done [] [] ''sf'') =
     Inr ([(mx_receipt ''sf'')], (mx_done [] [] ''sf''))"
proof -
  have "race_ok (tbs_task_id mx_binding) (\<lambda>_. id)" using race_ok_id by (simp add: id_def)
  from mirror_replay [OF mx_mirror mx_db_inv inference_dimensions_ok this] mx_mirror show ?thesis by simp
qed

theorem resolve_budget_owner_sound_witness:
  "let ident = \<lparr>id_user_id = None, id_organization_id = Some ''o1'', id_application_id = Some ''a1'',
                id_api_key_id = Some ''k1'', id_auth_type = api_key\<rparr>;
       d = (mx_db [] [])\<lparr>organizations := [\<lparr>org_id = ''o1'', org_owner_id = ''u1''\<rparr>],
                 applications := [\<lparr>app_id = ''a1'', app_organization_id = ''o1''\<rparr>],
                 api_keys := [\<lparr>key_id = ''k1'', key_application_id = ''a1'', key_status = ''active''\<rparr>]\<rparr>
   in \<exists>res. resolve_budget_owner d ident = Inr res \<and> bor_owner_user_id res = ''u1''"
proof -
  let ?ident = "\<lparr>id_user_id = None, id_organization_id = Some ''o1'', id_application_id = Some ''a1'',
                 id_api_key_id = Some ''k1'', id_auth_type = api_key\<rparr>"
  let ?d = "(mx_db [] [])\<lparr>organizations := [\<lparr>org_id = ''o1'', org_owner_id = ''u1''\<rparr>],
                  applications := [\<lparr>app_id = ''a1'', app_organization_id = ''o1''\<rparr>],
                  api_keys := [\<lparr>key_id = ''k1'', key_application_id = ''a1'', key_status = ''active''\<rparr>]\<rparr>"
  have "\<exists>res. resolve_budget_owner ?d ?ident = Inr res"
    by (simp add: resolve_budget_owner_def none_if_empty_def or_empty_def mx_db_def)
  then obtain res where res: "resolve_budget_owner ?d ?ident = Inr res" ..
  from resolve_budget_owner_sound [OF res] have "bor_owner_user_id res = ''u1''"
    by (simp add: none_if_empty_def mx_db_def)
  with res show ?thesis by (simp add: Let_def)
qed

theorem shadow_policy_recognized_witness:
  "shadow_policy mx_settings ''u1'' = Inr mx_policy \<and> durable_values mx_policy = Inr mx_row \<and>
   is_recognized_shadow_policy mx_row = Inr True"
  using shadow_policy_recognized [OF mx_shadow_policy mx_durable] mx_shadow_policy mx_durable
  by (simp add: mx_settings_def starts_with_def)

end
