(* ===== verification/Inference_Quota.thy ===== *)
theory Inference_Quota
  imports Tool_Quota
begin

text \<open>
  The renewable inference quota (\<open>src/se/src/application/user_inference_quota.py\<close>): the canonical
  fingerprint of a logical request, its conservative token estimate, admission of the request as
  one reservation per governed resource, replay, and settlement with the provider's usage. An
  attempt is one transaction in the environment \<open>tx_env\<close> of \<open>Tool_Quota\<close>. An attempt that
  finds the reservation of a concurrent winner rolls back and continues with the next one; its
  result is then \<open>None\<close>.
\<close>

section \<open>Types\<close>

definition UBQ4_RESERVATION_VERSION :: string where
  "UBQ4_RESERVATION_VERSION = ''ubq4-v1''"

definition UBQ4_FINGERPRINT_VERSION :: string where
  "UBQ4_FINGERPRINT_VERSION = ''ubq4-logical-fingerprint-v1''"

definition UBQ4_SKILL_ID_VERSION :: string where
  "UBQ4_SKILL_ID_VERSION = ''ubq4-skill-inf-v1''"

record inference_quota_settings =
  iqs_enabled :: bool
  iqs_max_conflict_retries :: int
  iqs_estimator_policy_version :: string
  iqs_usage_normalization_version :: string
  iqs_default_output_token_reservation :: "int option"

record inference_context =
  ic_budget_identity :: identity
  ic_logical_request_id :: string
  ic_logical_request_fingerprint :: "string option"
  ic_source_surface :: string
  ic_owner_user_id :: "string option"
  ic_session_id :: "string option"
  ic_task_id :: "string option"
  ic_execution_id :: "string option"
  ic_workflow_id :: "string option"
  ic_iteration :: "int option"
  ic_agent_iteration_id :: "string option"
  ic_outer_request_id :: "string option"
  ic_capability_invocation_id :: "string option"
  ic_estimator_policy_identity :: string
  ic_usage_normalization_identity :: string

record inference_estimate =
  est_input_tokens :: int
  est_output_tokens :: int
  est_total_tokens :: int
  est_compute_units :: "pydec option"
  est_cost_usd :: "pydec option"

record normalized_usage =
  nu_input_tokens :: "int option"
  nu_output_tokens :: "int option"
  nu_total_tokens :: "int option"
  nu_compute_units :: "pydec option"
  nu_cost_usd :: "pydec option"
  nu_normalization_identity :: string
  nu_provider :: "string option"
  nu_model :: "string option"

record inference_admission =
  ia_owner_user_id :: string
  ia_logical_request_id :: string
  ia_logical_request_fingerprint :: string
  ia_window_epoch :: int
  ia_reservation_keys :: "(string \<times> string) list"
  ia_replayed :: bool
  ia_inference_reservation_state :: reservation_state

section \<open>Canonical request fingerprints\<close>

function (sequential) canonicalize :: "pyval \<Rightarrow> err + json" where
  "canonicalize VNone = Inr JNull"
| "canonicalize (VStr s) = Inr (JStr s)"
| "canonicalize (VInt i) = Inr (JInt i)"
| "canonicalize (VBool b) = Inr (JBool b)"
| "canonicalize (VDec d) = bindR (canonical_decimal_string (Some d)) (\<lambda>m. Inr (json_opt_str m))"
| "canonicalize (VFloat s) = Inl UserInferenceQuotaContextError"
| "canonicalize (VDict kvs) =
     bindR (mapR (\<lambda>kv. bindR (canonicalize (snd kv)) (\<lambda>j. Inr (key_str (fst kv), j)))
              (sort_key (key_str \<circ> fst) kvs)) (\<lambda>items. Inr (JObj (dict_of_items items)))"
| "canonicalize (VList xs) = bindR (mapR canonicalize xs) (\<lambda>js. Inr (JArr js))"
| "canonicalize (VModel v) = canonicalize v"
| "canonicalize VOther = Inl TypeError"
  by pat_completeness auto

termination canonicalize
  by (relation "measure size") (auto simp: size_dict_value less_Suc_eq_le size_list_estimation')

definition request_fingerprint :: "(pykey \<times> pyval) list \<Rightarrow> err + string" where
  "request_fingerprint payload =
     bindR (canonicalize (VDict payload)) (\<lambda>j. Inr (sha256_hexdigest (dumps False j)))"

definition derive_skill_inference_request_id :: "string \<Rightarrow> int \<Rightarrow> err + string" where
  "derive_skill_inference_request_id invocation_id ordinal =
     bindR (requireR (invocation_id \<noteq> []) ValueError) (\<lambda>_.
     bindR (requireR (0 < ordinal) ValueError) (\<lambda>_.
     bindR (request_fingerprint
              [(KStr ''capability_invocation_id'', VStr invocation_id), (KStr ''inference_ordinal'', VInt ordinal),
               (KStr ''contract_version'', VStr UBQ4_SKILL_ID_VERSION)]) (\<lambda>digest.
     Inr (''skillinf:v1:'' @ digest))))"

definition semantic_config_keys :: "string list" where
  "semantic_config_keys =
     [''frequency_penalty'', ''max_tokens'', ''presence_penalty'', ''response_format'', ''seed'', ''stop'',
      ''temperature'', ''top_p'']"

definition transport_config_keys :: "string list" where
  "transport_config_keys = [''stream'', ''agent_activity_stream'']"

definition as_mapping :: "pyval \<Rightarrow> err + (string \<times> pyval) list" where
  "as_mapping v =
     (case v of
        VNone \<Rightarrow> Inr []
      | _ \<Rightarrow>
          (case (case v of VModel dump \<Rightarrow> dump | _ \<Rightarrow> v) of
             VDict kvs \<Rightarrow>
               bindR (requireR (list_all (is_str_key \<circ> fst) kvs) UserInferenceQuotaContextError) (\<lambda>_.
               Inr (map (map_prod key_str id) kvs))
           | _ \<Rightarrow> Inl UserInferenceQuotaContextError))"

definition body_get :: "(string \<times> pyval) list \<Rightarrow> string \<Rightarrow> pyval" where
  "body_get body k = (case dict_get body k of None \<Rightarrow> VNone | Some v \<Rightarrow> v)"

definition body_or :: "(string \<times> pyval) list \<Rightarrow> string \<Rightarrow> pyval \<Rightarrow> pyval" where
  "body_or body k dflt = (let v = body_get body k in if truthy v then v else dflt)"

definition semantic_config :: "(string \<times> pyval) list \<Rightarrow> err + (string \<times> pyval) list" where
  "semantic_config body =
     bindR (as_mapping (body_get body ''config'')) (\<lambda>config.
     bindR (requireR (list_all (\<lambda>k. k \<in> set semantic_config_keys \<or> k \<in> set transport_config_keys) (map fst config))
              UserInferenceQuotaContextError) (\<lambda>_.
     Inr (List.map_filter (\<lambda>k. map_option (Pair k) (dict_get config k)) semantic_config_keys)))"

definition estimator_identity :: "inference_quota_settings \<Rightarrow> err + string" where
  "estimator_identity s =
     bindR (request_fingerprint
              [(KStr ''version'', VStr (iqs_estimator_policy_version s)),
               (KStr ''default_output_token_reservation'', opt_int (iqs_default_output_token_reservation s)),
               (KStr ''compute_cost_estimator_authority'', VStr ''provider-model-normalizer-required'')]) (\<lambda>fp.
     Inr (''ubq4-estimator:'' @ iqs_estimator_policy_version s @ '':'' @ fp))"

definition normalization_identity :: "inference_quota_settings \<Rightarrow> err + string" where
  "normalization_identity s =
     bindR (request_fingerprint
              [(KStr ''version'', VStr (iqs_usage_normalization_version s)),
               (KStr ''compute_cost_normalization_authority'', VStr ''provider-model-normalizer-required'')]) (\<lambda>fp.
     Inr (''ubq4-usage:'' @ iqs_usage_normalization_version s @ '':'' @ fp))"

text \<open>An argument that is not an \<open>Identity\<close> is \<open>None\<close> here.\<close>

definition build_context :: "inference_quota_settings \<Rightarrow> identity option \<Rightarrow> string \<Rightarrow> string \<Rightarrow> string option \<Rightarrow>
    string option \<Rightarrow> string option \<Rightarrow> string option \<Rightarrow> string option \<Rightarrow> string option \<Rightarrow> int option \<Rightarrow>
    string option \<Rightarrow> string option \<Rightarrow> string option \<Rightarrow> err + inference_context option" where
  "build_context s ident request_id surface request_fp owner session task execution workflow iteration
     agent_iteration outer_request capability_invocation =
     (if \<not> iqs_enabled s then Inr None
      else
      bindR (ofOption UserInferenceQuotaContextError ident) (\<lambda>ident.
      bindR (requireR (request_id \<noteq> [] \<and> surface \<noteq> []) UserInferenceQuotaContextError) (\<lambda>_.
      bindR (estimator_identity s) (\<lambda>estimator.
      bindR (normalization_identity s) (\<lambda>normalization.
      Inr (Some \<lparr>ic_budget_identity = ident, ic_logical_request_id = request_id,
                 ic_logical_request_fingerprint = request_fp, ic_source_surface = surface,
                 ic_owner_user_id = owner, ic_session_id = session, ic_task_id = task,
                 ic_execution_id = execution, ic_workflow_id = workflow, ic_iteration = iteration,
                 ic_agent_iteration_id = agent_iteration, ic_outer_request_id = outer_request,
                 ic_capability_invocation_id = capability_invocation,
                 ic_estimator_policy_identity = estimator,
                 ic_usage_normalization_identity = normalization\<rparr>))))))"

text \<open>The outer request of a Skill is attribution only: its invocation id is the lineage.\<close>

definition lineage_outer_request :: "inference_context \<Rightarrow> string option" where
  "lineage_outer_request c =
     (if ic_source_surface c = ''SKILL'' \<and> ic_capability_invocation_id c \<noteq> None then None
      else ic_outer_request_id c)"

definition logical_payload :: "(string \<times> pyval) list \<Rightarrow> inference_context \<Rightarrow> bool \<Rightarrow> (string \<times> pyval) list \<Rightarrow>
    (pykey \<times> pyval) list" where
  "logical_payload body c streaming config =
     [(KStr ''fingerprint_version'', VStr UBQ4_FINGERPRINT_VERSION),
      (KStr ''semantic_model_id'', body_or body ''model'' (VStr [])),
      (KStr ''normalized_messages'', body_or body ''messages'' (VList [])),
      (KStr ''normalized_tool_definitions'', body_or body ''tools'' (VList [])),
      (KStr ''normalized_semantic_config'', VDict (map (map_prod KStr id) config)),
      (KStr ''source_surface'', VStr (ic_source_surface c)),
      (KStr ''stable_lineage'', VDict
        [(KStr ''session_id'', opt_str (ic_session_id c)), (KStr ''task_id'', opt_str (ic_task_id c)),
         (KStr ''execution_id'', opt_str (ic_execution_id c)), (KStr ''workflow_id'', opt_str (ic_workflow_id c)),
         (KStr ''iteration'', opt_int (ic_iteration c)),
         (KStr ''agent_iteration_id'', opt_str (ic_agent_iteration_id c)),
         (KStr ''outer_request_id'', opt_str (lineage_outer_request c)),
         (KStr ''capability_invocation_id'', opt_str (ic_capability_invocation_id c))]),
      (KStr ''estimator_policy_identity'', VStr (ic_estimator_policy_identity c)),
      (KStr ''usage_normalization_identity'', VStr (ic_usage_normalization_identity c)),
      (KStr ''streaming_mode'', VBool streaming)]"

definition logical_fingerprint :: "inference_quota_settings \<Rightarrow> (string \<times> pyval) list \<Rightarrow> inference_context \<Rightarrow> bool \<Rightarrow> err + string" where
  "logical_fingerprint s body c streaming =
     bindR (estimator_identity s) (\<lambda>estimator.
     bindR (normalization_identity s) (\<lambda>normalization.
     bindR (requireR (ic_estimator_policy_identity c = estimator \<and> ic_usage_normalization_identity c = normalization)
              UserInferenceQuotaContextError) (\<lambda>_.
     bindR (semantic_config body) (\<lambda>config.
     bindR (request_fingerprint (logical_payload body c streaming config)) (\<lambda>fp.
     bindR (requireR (case ic_logical_request_fingerprint c of None \<Rightarrow> True | Some supplied \<Rightarrow> supplied = fp)
              UserInferenceQuotaConflictError) (\<lambda>_.
     Inr fp))))))"

section \<open>Estimates and amounts\<close>

definition output_bound :: "inference_quota_settings \<Rightarrow> pyval \<Rightarrow> err + int" where
  "output_bound s max_tokens =
     (case max_tokens of
        VNone \<Rightarrow> ofOption UserInferenceEstimateUnavailableError (iqs_default_output_token_reservation s)
      | VInt i \<Rightarrow> (if 0 < i then Inr i else Inl UserInferenceEstimateUnavailableError)
      | _ \<Rightarrow> Inl UserInferenceEstimateUnavailableError)"

definition estimate :: "inference_quota_settings \<Rightarrow> (string \<times> pyval) list \<Rightarrow> err + inference_estimate" where
  "estimate s body =
     bindR (canonicalize (VDict [(KStr ''messages'', body_or body ''messages'' (VList [])),
                                 (KStr ''tools'', body_or body ''tools'' (VList []))])) (\<lambda>j.
     let input_tokens = max 1 (int (length (dumps False j))) in
     bindR (semantic_config body) (\<lambda>config.
     bindR (output_bound s (body_get config ''max_tokens'')) (\<lambda>output_tokens.
     Inr \<lparr>est_input_tokens = input_tokens, est_output_tokens = output_tokens,
          est_total_tokens = input_tokens + output_tokens, est_compute_units = None, est_cost_usd = None\<rparr>)))"

definition estimated_amount :: "bool \<Rightarrow> resource_kind \<Rightarrow> pydec option \<Rightarrow> err + (resource_kind \<times> int) list" where
  "estimated_amount included kind m =
     (if \<not> included then Inr []
      else bindR (ofOption UserInferenceEstimateUnavailableError m) (\<lambda>v.
           bindR (decimal_to_atomic True (VDec v)) (\<lambda>a. Inr [(kind, a)])))"

definition amounts :: "inference_estimate \<Rightarrow> bool \<Rightarrow> bool \<Rightarrow> err + (resource_kind \<times> int) list" where
  "amounts e include_compute include_cost =
     bindR (estimated_amount include_compute COMPUTE_UNIT (est_compute_units e)) (\<lambda>compute.
     bindR (estimated_amount include_cost COST_USD (est_cost_usd e)) (\<lambda>cost.
     Inr ([(INFERENCE_CALL, 1), (INPUT_TOKEN, est_input_tokens e), (OUTPUT_TOKEN, est_output_tokens e),
           (TOTAL_TOKEN, est_total_tokens e)] @ compute @ cost)))"

definition amount_of :: "resource_kind \<Rightarrow> (resource_kind \<times> int) list \<Rightarrow> int" where
  "amount_of kind kas = (case map_of kas kind of None \<Rightarrow> 0 | Some a \<Rightarrow> a)"

section \<open>Reservations of a request\<close>

definition inference_digest :: "string \<Rightarrow> resource_kind \<Rightarrow> string" where
  "inference_digest request_id kind =
     canonical_sha256
       [(''version'', JStr UBQ4_RESERVATION_VERSION), (''logical_request_id'', JStr request_id),
        (''resource_kind'', JStr (kind_value kind))]"

definition reservation_identity :: "string \<Rightarrow> resource_kind \<Rightarrow> string \<times> string" where
  "reservation_identity request_id kind =
     (''ubq4:v1:'' @ inference_digest request_id kind, ''ubq4r:'' @ inference_digest request_id kind)"

definition inference_attribution :: "inference_context \<Rightarrow> string \<Rightarrow> resource_kind \<Rightarrow> (pykey \<times> pyval) list" where
  "inference_attribution c fp kind =
     [(KStr ''version'', VStr UBQ4_RESERVATION_VERSION),
      (KStr ''logical_request_id'', VStr (ic_logical_request_id c)),
      (KStr ''logical_request_fingerprint'', VStr fp),
      (KStr ''resource_kind'', VStr (kind_value kind)),
      (KStr ''source_surface'', VStr (ic_source_surface c)),
      (KStr ''session_id'', opt_str (ic_session_id c)),
      (KStr ''task_id'', opt_str (ic_task_id c)),
      (KStr ''execution_id'', opt_str (ic_execution_id c)),
      (KStr ''workflow_id'', opt_str (ic_workflow_id c)),
      (KStr ''iteration'', opt_int (ic_iteration c)),
      (KStr ''agent_iteration_id'', opt_str (ic_agent_iteration_id c)),
      (KStr ''outer_request_id'', opt_str (lineage_outer_request c)),
      (KStr ''capability_invocation_id'', opt_str (ic_capability_invocation_id c)),
      (KStr ''estimator_policy_identity'', VStr (ic_estimator_policy_identity c)),
      (KStr ''usage_normalization_identity'', VStr (ic_usage_normalization_identity c))]"

definition inference_intent :: "string \<Rightarrow> int \<Rightarrow> inference_context \<Rightarrow> string \<Rightarrow> resource_kind \<Rightarrow> int \<Rightarrow> err + intent" where
  "inference_intent owner epoch c fp kind amount =
     make_intent (snd (reservation_identity (ic_logical_request_id c) kind)) owner epoch
       (fst (reservation_identity (ic_logical_request_id c) kind)) kind None amount (inference_attribution c fp kind)"

definition verify_row :: "reservation_row \<Rightarrow> intent \<Rightarrow> err + unit" where
  "verify_row row i =
     bindR (requireR (res_reservation_id row = in_reservation_id i \<and> res_owner_user_id row = in_owner_user_id i \<and>
                      res_window_epoch row = in_window_epoch i \<and> res_idempotency_key row = in_idempotency_key i \<and>
                      res_resource_kind row = in_resource_kind i \<and>
                      res_reserved_amount_atomic row = in_reserved_amount_atomic i) UserInferenceQuotaConflictError) (\<lambda>_.
     bindR (payload_fingerprint i) (\<lambda>fp.
     requireR (res_payload_fingerprint row = fp) UserInferenceQuotaConflictError))"

section \<open>Charges made by dual accounting before the quota was enabled\<close>

definition task_budget_inference_fingerprint :: "string \<Rightarrow> string" where
  "task_budget_inference_fingerprint request_id =
     sha256_hexdigest (dumps True (JObj
       [(''kind'', JStr ''INFERENCE''), (''reservation_key'', JStr request_id), (''payload'', JObj [])]))"

definition get_iteration :: "db \<Rightarrow> string \<Rightarrow> iteration_row option" where
  "get_iteration d iteration_id = List.find (\<lambda>i. it_id i = iteration_id) (iterations d)"

definition exact_lineage :: "db \<Rightarrow> string \<Rightarrow> inference_context \<Rightarrow> string \<Rightarrow> receipt_row \<Rightarrow> err + bool" where
  "exact_lineage d owner c task bridge =
     (let request_id = ic_logical_request_id c;
          expected = task_budget_inference_fingerprint request_id;
          source = Option.bind (get_task_budget d task) (\<lambda>b.
            get_task_budget_reservation d task ''INFERENCE'' request_id (tb_incarnation_generation b));
          mirrored = Option.bind (rcp_ubq_idempotency_key bridge) (get_reservation d owner);
          iteration = Option.bind (ic_agent_iteration_id c) (get_iteration d)
      in case (get_task_binding d task, source, mirrored) of
           (Some binding, Some src, Some m) \<Rightarrow>
             if bnd_owner_user_id binding = owner \<and> tbr_payload_fingerprint src = expected \<and>
                rcp_source_payload_fingerprint bridge = expected \<and> rcp_owner_user_id bridge = owner \<and>
                rcp_amount_atomic bridge = 1 \<and> res_reservation_id m = py_str (rcp_ubq_reservation_id bridge)
             then bindR (ofOption TypeError (rcp_window_epoch bridge)) (\<lambda>epoch.
                  Inr (res_window_epoch m = epoch \<and> res_resource_kind m = INFERENCE_CALL \<and>
                       res_payload_fingerprint m = py_str (rcp_ubq_payload_fingerprint bridge) \<and>
                       res_state m = SETTLED \<and> res_settled_amount_atomic m = Some 1 \<and>
                       ic_execution_id c \<noteq> None \<and>
                       (case iteration of
                          None \<Rightarrow> False
                        | Some it \<Rightarrow> Some (it_execution_id it) = ic_execution_id c \<and>
                                     py_str (it_inference_request_id it) = request_id)))
             else Inr False
         | _ \<Rightarrow> Inr False)"

text \<open>Both outcomes of the lineage check refuse the request; only the message differs.\<close>

definition require_no_historical_inference :: "db \<Rightarrow> string \<Rightarrow> inference_context \<Rightarrow> err + unit" where
  "require_no_historical_inference d owner c =
     (case ic_task_id c of
        None \<Rightarrow> Inr ()
      | Some task \<Rightarrow>
          (case get_dual_accounting_receipt d (task, ''INFERENCE'', ic_logical_request_id c, kind_value INFERENCE_CALL) of
             None \<Rightarrow> Inr ()
           | Some bridge \<Rightarrow>
               bindR (exact_lineage d owner c task bridge) (\<lambda>_. Inl UserInferenceQuotaConflictError)))"

definition resolve_inference_owner :: "db \<Rightarrow> inference_context \<Rightarrow> err + string" where
  "resolve_inference_owner d c =
     bindR (resolve_budget_owner d (ic_budget_identity c)) (\<lambda>res.
     bindR (requireR (case ic_owner_user_id c of None \<Rightarrow> True | Some u \<Rightarrow> u = bor_owner_user_id res)
              UserInferenceQuotaContextError) (\<lambda>_.
     bindR (requireR (case ic_task_id c of None \<Rightarrow> True
              | Some t \<Rightarrow> (case get_task_binding d t of None \<Rightarrow> True
                          | Some b \<Rightarrow> bnd_owner_user_id b = bor_owner_user_id res)) UserBudgetBindingDriftError) (\<lambda>_.
     Inr (bor_owner_user_id res))))"

section \<open>Embeddings\<close>

definition governed_finite :: "policy_row \<Rightarrow> bool" where
  "governed_finite p \<longleftrightarrow>
     pol_max_compute_atomic p \<noteq> None \<or> pol_max_inference_calls p \<noteq> None \<or> pol_max_input_tokens p \<noteq> None \<or>
     pol_max_output_tokens p \<noteq> None \<or> pol_max_total_tokens p \<noteq> None \<or> pol_max_cost_usd_atomic p \<noteq> None"

definition embedding_policy :: "db \<Rightarrow> string \<Rightarrow> pydatetime \<Rightarrow> err + policy_row" where
  "embedding_policy d owner now =
     bindR (get_active_window d owner) (\<lambda>active.
     bindR (case active of None \<Rightarrow> Inr None
            | Some w \<Rightarrow> bindR (dt_less now (record_utc (win_expires_at w))) (\<lambda>live. Inr (if live then Some w else None)))
       (\<lambda>window.
     case window of
       Some w \<Rightarrow>
         bindR (ofOption UserBudgetPolicyAuthorityConflictError (get_policy d owner (win_governing_policy_id w))) (\<lambda>p.
         bindR (requireR (pol_policy_fingerprint p = win_governing_policy_fingerprint w)
                  UserBudgetPolicyAuthorityConflictError) (\<lambda>_. Inr p))
     | None \<Rightarrow>
         bindR (ofOption UserBudgetPolicyAuthorityConflictError (get_account d owner)) (\<lambda>account.
         bindR (ofOption UserBudgetPolicyAuthorityConflictError (acc_next_policy_id account)) (\<lambda>pid.
         ofOption UserBudgetPolicyAuthorityConflictError (get_policy d owner pid)))))"

definition require_embedding_allowed :: "inference_quota_settings \<Rightarrow> identity option \<Rightarrow> pydatetime \<Rightarrow> db \<Rightarrow> err + unit" where
  "require_embedding_allowed s ident now d =
     (if \<not> iqs_enabled s then Inr ()
      else
      bindR (ofOption UserInferenceQuotaContextError ident) (\<lambda>ident.
      bindR (resolve_budget_owner d ident) (\<lambda>res.
      bindR (embedding_policy d (bor_owner_user_id res) now) (\<lambda>p.
      requireR (\<not> governed_finite p) UserBudgetUnsupportedGovernedOperationError))))"

section \<open>Admission\<close>

text \<open>Creating the reservations of a request, in the order of the amounts.\<close>

fun reserve_amounts :: "string \<Rightarrow> int \<Rightarrow> inference_context \<Rightarrow> string \<Rightarrow> (resource_kind \<times> int) list \<Rightarrow> db \<Rightarrow>
    err + ((string \<times> string) list \<times> db)" where
  "reserve_amounts owner epoch c fp [] d = Inr ([], d)"
| "reserve_amounts owner epoch c fp ((kind, amount) # kas) d =
     bindR (inference_intent owner epoch c fp kind amount) (\<lambda>i.
     bindR (create_or_get_reservation id i d) (\<lambda>(row, d).
     bindR (verify_row row i) (\<lambda>_.
     bindR (reserve_amounts owner epoch c fp kas d) (\<lambda>(keys, d).
     Inr ((kind_value kind, in_idempotency_key i) # keys, d)))))"

text \<open>A replay finds every reservation of the request and compares it with the canonical one.\<close>

fun replay_amounts :: "string \<Rightarrow> int \<Rightarrow> inference_context \<Rightarrow> string \<Rightarrow> (resource_kind \<times> int) list \<Rightarrow> db \<Rightarrow>
    err + (string \<times> string) list" where
  "replay_amounts owner epoch c fp [] d = Inr []"
| "replay_amounts owner epoch c fp ((kind, amount) # kas) d =
     (let key = fst (reservation_identity (ic_logical_request_id c) kind) in
      bindR (ofOption UserInferenceQuotaConflictError (get_reservation d owner key)) (\<lambda>row.
      bindR (inference_intent owner epoch c fp kind amount) (\<lambda>i.
      bindR (verify_row row i) (\<lambda>_.
      bindR (replay_amounts owner epoch c fp kas d) (\<lambda>keys.
      Inr ((kind_value kind, key) # keys))))))"

definition same_request :: "reservation_row \<Rightarrow> string \<Rightarrow> string \<Rightarrow> bool" where
  "same_request row request_id fp \<longleftrightarrow>
     dict_get (res_attribution_json row) ''logical_request_fingerprint'' = Some (JStr fp) \<and>
     dict_get (res_attribution_json row) ''logical_request_id'' = Some (JStr request_id)"

definition policy_amounts :: "inference_estimate \<Rightarrow> policy_row \<Rightarrow> err + (resource_kind \<times> int) list" where
  "policy_amounts e p = amounts e (pol_max_compute_atomic p \<noteq> None) (pol_max_cost_usd_atomic p \<noteq> None)"

definition replay_inference :: "string \<Rightarrow> inference_context \<Rightarrow> string \<Rightarrow> inference_estimate \<Rightarrow> reservation_row \<Rightarrow> db \<Rightarrow>
    err + inference_admission" where
  "replay_inference owner c fp e existing d =
     bindR (requireR (same_request existing (ic_logical_request_id c) fp) UserInferenceQuotaConflictError) (\<lambda>_.
     bindR (ofOption UserInferenceQuotaConflictError (get_window d owner (res_window_epoch existing))) (\<lambda>w.
     bindR (ofOption UserBudgetPolicyAuthorityConflictError (get_policy d owner (win_governing_policy_id w))) (\<lambda>p.
     bindR (policy_amounts e p) (\<lambda>kas.
     bindR (replay_amounts owner (res_window_epoch existing) c fp kas d) (\<lambda>keys.
     Inr \<lparr>ia_owner_user_id = owner, ia_logical_request_id = ic_logical_request_id c,
          ia_logical_request_fingerprint = fp, ia_window_epoch = res_window_epoch existing,
          ia_reservation_keys = keys, ia_replayed = True,
          ia_inference_reservation_state = res_state existing\<rparr>)))))"

definition check_limits :: "policy_row \<Rightarrow> window_row \<Rightarrow> inference_estimate \<Rightarrow> int \<Rightarrow> int \<Rightarrow> int \<Rightarrow> int \<Rightarrow> err + unit" where
  "check_limits p w e pending_input pending_output compute cost =
     bindR (requireR (\<not> exceeds (pol_max_inference_calls p) (win_inference_used w + win_inference_reserved w + 1))
              UserInferenceQuotaExceededError) (\<lambda>_.
     bindR (requireR (\<not> exceeds (pol_max_input_tokens p) (win_input_tokens_used w + pending_input + est_input_tokens e))
              UserTokenQuotaExceededError) (\<lambda>_.
     bindR (requireR (\<not> exceeds (pol_max_output_tokens p) (win_output_tokens_used w + pending_output + est_output_tokens e))
              UserTokenQuotaExceededError) (\<lambda>_.
     bindR (requireR (\<not> exceeds (pol_max_total_tokens p) (win_total_tokens_used w + win_tokens_reserved w + est_total_tokens e))
              UserTokenQuotaExceededError) (\<lambda>_.
     bindR (requireR (\<not> exceeds (pol_max_compute_atomic p) (win_compute_used_atomic w + win_compute_reserved_atomic w + compute))
              UserComputeQuotaExceededError) (\<lambda>_.
     requireR (\<not> exceeds (pol_max_cost_usd_atomic p) (win_cost_used_atomic w + win_cost_reserved_atomic w + cost))
       UserCostQuotaExceededError)))))"

definition reserved_targets :: "window_row \<Rightarrow> inference_estimate \<Rightarrow> int \<Rightarrow> int \<Rightarrow> (window_counter \<times> int) list" where
  "reserved_targets w e compute cost =
     [(inference_reserved, win_inference_reserved w + 1), (tokens_reserved, win_tokens_reserved w + est_total_tokens e)] @
     (if compute \<noteq> 0 then [(compute_reserved_atomic, win_compute_reserved_atomic w + compute)] else []) @
     (if cost \<noteq> 0 then [(cost_reserved_atomic, win_cost_reserved_atomic w + cost)] else [])"

definition admit_inference :: "string \<Rightarrow> account_row \<Rightarrow> inference_context \<Rightarrow> string \<Rightarrow> inference_estimate \<Rightarrow> pydatetime \<Rightarrow>
    db \<Rightarrow> err + (inference_admission \<times> db)" where
  "admit_inference owner account c fp e now d =
     bindR (admission_window owner account now d) (\<lambda>(w, d).
     bindR (canonical_policy owner w d) (\<lambda>p.
     bindR (policy_amounts e p) (\<lambda>kas.
     bindR (sum_pending_reservation_amount d owner (win_epoch w) INPUT_TOKEN) (\<lambda>pending_input.
     bindR (sum_pending_reservation_amount d owner (win_epoch w) OUTPUT_TOKEN) (\<lambda>pending_output.
     bindR (check_limits p w e pending_input pending_output (amount_of COMPUTE_UNIT kas) (amount_of COST_USD kas)) (\<lambda>_.
     bindR (reserve_amounts owner (win_epoch w) c fp kas d) (\<lambda>(keys, d).
     bindR (mutate_window_usage owner (win_epoch w) (win_revision w)
              (reserved_targets w e (amount_of COMPUTE_UNIT kas) (amount_of COST_USD kas)) d) (\<lambda>(_, d).
     Inr (\<lparr>ia_owner_user_id = owner, ia_logical_request_id = ic_logical_request_id c,
           ia_logical_request_fingerprint = fp, ia_window_epoch = win_epoch w,
           ia_reservation_keys = keys, ia_replayed = False,
           ia_inference_reservation_state = RESERVED\<rparr>, d)))))))))"

text \<open>
  One attempt. \<open>None\<close> is the explicit rollback and \<open>continue\<close> after a concurrent winner was
  found while waiting for the account: the transaction leaves what the others committed.
\<close>

definition inference_attempt :: "tx_env \<Rightarrow> nat \<Rightarrow> inference_context \<Rightarrow> string \<Rightarrow> inference_estimate \<Rightarrow> pydatetime \<Rightarrow>
    db \<Rightarrow> err + (inference_admission option \<times> db)" where
  "inference_attempt env n c fp e now d =
     (case write_intent env n of
        Some x \<Rightarrow> Inl x
      | None \<Rightarrow>
          bindR (resolve_inference_owner d c) (\<lambda>owner.
          let inf_key = fst (reservation_identity (ic_logical_request_id c) INFERENCE_CALL) in
          case get_reservation d owner inf_key of
            Some existing \<Rightarrow> bindR (replay_inference owner c fp e existing d) (\<lambda>a. Inr (Some a, d))
          | None \<Rightarrow>
              bindR (require_no_historical_inference d owner c) (\<lambda>_.
              let d = lock_wait env n d in
              bindR (ofOption UserBudgetPolicyAuthorityConflictError (get_account d owner)) (\<lambda>account.
              bindR (requireR (acc_next_policy_id account \<noteq> None) UserBudgetPolicyAuthorityConflictError) (\<lambda>_.
              if get_reservation d owner inf_key \<noteq> None then Inr (None, d)
              else bindR (admit_inference owner account c fp e now d) (\<lambda>(a, d). Inr (Some a, d)))))))"

fun inference_loop :: "(nat \<Rightarrow> db \<Rightarrow> db) \<Rightarrow> (nat \<Rightarrow> db \<Rightarrow> err + ('a option \<times> db)) \<Rightarrow> nat \<Rightarrow> nat \<Rightarrow> db \<Rightarrow> (err + 'a) \<times> db" where
  "inference_loop oth attempt i 0 d = (Inl AssertionError, d)"
| "inference_loop oth attempt i (Suc n) d =
     (let d0 = oth i d in
      case attempt i d0 of
        Inr (Some a, d') \<Rightarrow> (Inr a, d')
      | Inr (None, d') \<Rightarrow> inference_loop oth attempt (Suc i) n d'
      | Inl e \<Rightarrow>
          if is_retryable_error e \<and> n \<noteq> 0 then inference_loop oth attempt (Suc i) n d0 else (Inl e, d0))"

definition reserve_inference :: "inference_quota_settings \<Rightarrow> tx_env \<Rightarrow> inference_context option \<Rightarrow> (string \<times> pyval) list \<Rightarrow>
    bool \<Rightarrow> pydatetime \<Rightarrow> db \<Rightarrow> (err + inference_admission option) \<times> db" where
  "reserve_inference s env m body streaming now d =
     (if \<not> iqs_enabled s then (Inr None, d)
      else case m of
        None \<Rightarrow> (Inl UserInferenceQuotaContextError, d)
      | Some c \<Rightarrow>
          (case bindR (logical_fingerprint s body c streaming) (\<lambda>fp. bindR (estimate s body) (\<lambda>e. Inr (fp, e))) of
             Inl x \<Rightarrow> (Inl x, d)
           | Inr (fp, e) \<Rightarrow>
               map_prod (map_sum id Some) id
                 (inference_loop (others env) (\<lambda>n. inference_attempt env n c fp e now) 0
                   (nat (max 1 (iqs_max_conflict_retries s))) d)))"

section \<open>Usage reported by a provider\<close>

text \<open>A usage object with the set of the fields that were set explicitly.\<close>

record usage_report =
  ur_prompt_tokens :: int
  ur_completion_tokens :: int
  ur_total_tokens :: int
  ur_fields_set :: "string list"

definition usage_field :: "usage_report option \<Rightarrow> string list \<Rightarrow> string \<Rightarrow> (usage_report \<Rightarrow> int) \<Rightarrow> int option" where
  "usage_field usage names name get =
     (case usage of None \<Rightarrow> None | Some u \<Rightarrow> (if name \<in> set names then Some (get u) else None))"

definition normalized :: "string \<Rightarrow> usage_report option \<Rightarrow> string list \<Rightarrow> string option \<Rightarrow> string option \<Rightarrow> normalized_usage" where
  "normalized ident usage names provider model =
     (let input_tokens = usage_field usage names ''prompt_tokens'' ur_prompt_tokens;
          output_tokens = usage_field usage names ''completion_tokens'' ur_completion_tokens;
          total_tokens = usage_field usage names ''total_tokens'' ur_total_tokens
      in \<lparr>nu_input_tokens = input_tokens, nu_output_tokens = output_tokens,
          nu_total_tokens = (case (total_tokens, input_tokens, output_tokens) of
             (None, Some i, Some k) \<Rightarrow> Some (i + k) | _ \<Rightarrow> total_tokens),
          nu_compute_units = None, nu_cost_usd = None, nu_normalization_identity = ident,
          nu_provider = provider, nu_model = model\<rparr>)"

definition usage_fields :: "usage_report option \<Rightarrow> string list" where
  "usage_fields usage = (case usage of None \<Rightarrow> [] | Some u \<Rightarrow> ur_fields_set u)"

definition normalize_gateway_usage :: "inference_quota_settings \<Rightarrow> usage_report option \<Rightarrow> string option \<Rightarrow> string option \<Rightarrow>
    err + normalized_usage" where
  "normalize_gateway_usage s usage provider model =
     bindR (normalization_identity s) (\<lambda>ident.
     Inr (normalized ident usage
            (usage_fields usage @
             (if provider = Some ''mock'' \<and> usage \<noteq> None
              then [''prompt_tokens'', ''completion_tokens'', ''total_tokens''] else []))
            provider model))"

definition normalize_stream_usage :: "inference_quota_settings \<Rightarrow> usage_report option \<Rightarrow> string option \<Rightarrow> string option \<Rightarrow>
    err + normalized_usage" where
  "normalize_stream_usage s usage provider model =
     bindR (normalization_identity s) (\<lambda>ident. Inr (normalized ident usage (usage_fields usage) provider model))"

section \<open>Settlement\<close>

definition optional_atomic :: "pydec option \<Rightarrow> err + int option" where
  "optional_atomic m =
     (case m of None \<Rightarrow> Inr None | Some v \<Rightarrow> bindR (decimal_to_atomic False (VDec v)) (\<lambda>a. Inr (Some a)))"

definition settlement_actuals :: "normalized_usage \<Rightarrow> err + (resource_kind \<times> int option) list" where
  "settlement_actuals u =
     bindR (optional_atomic (nu_compute_units u)) (\<lambda>compute.
     bindR (optional_atomic (nu_cost_usd u)) (\<lambda>cost.
     Inr [(INFERENCE_CALL, Some 1), (INPUT_TOKEN, nu_input_tokens u), (OUTPUT_TOKEN, nu_output_tokens u),
          (TOTAL_TOKEN, nu_total_tokens u), (COMPUTE_UNIT, compute), (COST_USD, cost)]))"

text \<open>
  The reservations to settle, with their kind and actual amount. A reservation whose usage is
  unknown stays reserved; one that is already settled must have the same amount.
\<close>

fun settlements :: "db \<Rightarrow> inference_admission \<Rightarrow> (resource_kind \<times> int option) list \<Rightarrow> (string \<times> string) list \<Rightarrow>
    err + (resource_kind \<times> reservation_row \<times> int) list" where
  "settlements d a actuals [] = Inr []"
| "settlements d a actuals ((kind_name, key) # keys) =
     bindR (kind_of_value kind_name) (\<lambda>kind.
     bindR (ofOption UserInferenceQuotaConflictError (get_reservation d (ia_owner_user_id a) key)) (\<lambda>row.
     bindR (requireR (same_request row (ia_logical_request_id a) (ia_logical_request_fingerprint a))
              UserInferenceQuotaConflictError) (\<lambda>_.
     bindR (ofOption KeyError (map_of actuals kind)) (\<lambda>m.
     bindR (case m of
              None \<Rightarrow> Inr []
            | Some actual \<Rightarrow>
                bindR (requireR (0 \<le> actual) UserInferenceQuotaConflictError) (\<lambda>_.
                if res_state row = SETTLED
                then bindR (requireR ((case res_settled_amount_atomic row of None \<Rightarrow> 0 | Some x \<Rightarrow> x) = actual)
                              UserInferenceQuotaConflictError) (\<lambda>_. Inr [])
                else bindR (requireR (res_state row = RESERVED) UserInferenceQuotaConflictError) (\<lambda>_.
                     Inr [(kind, row, actual)]))) (\<lambda>step.
     bindR (settlements d a actuals keys) (\<lambda>rest.
     Inr (step @ rest)))))))"

definition used_deltas :: "(resource_kind \<times> reservation_row \<times> int) list \<Rightarrow> (window_counter \<times> int) list" where
  "used_deltas ss =
     (let total = (\<lambda>kind. sum_list (map (\<lambda>(k, r, a). if k = kind then a else 0) ss))
      in [(inference_used, total INFERENCE_CALL), (input_tokens_used, total INPUT_TOKEN),
          (output_tokens_used, total OUTPUT_TOKEN), (total_tokens_used, total TOTAL_TOKEN),
          (compute_used_atomic, total COMPUTE_UNIT), (cost_used_atomic, total COST_USD)])"

definition reserved_decrements :: "(resource_kind \<times> reservation_row \<times> int) list \<Rightarrow> (window_counter \<times> int) list" where
  "reserved_decrements ss =
     (let total = (\<lambda>kind. sum_list (map (\<lambda>(k, r, a). if k = kind then res_reserved_amount_atomic r else 0) ss))
      in [(inference_reserved, total INFERENCE_CALL), (tokens_reserved, total TOTAL_TOKEN),
          (compute_reserved_atomic, total COMPUTE_UNIT), (cost_reserved_atomic, total COST_USD)])"

definition settlement_targets :: "window_row \<Rightarrow> (resource_kind \<times> reservation_row \<times> int) list \<Rightarrow>
    err + (window_counter \<times> int) list" where
  "settlement_targets w ss =
     bindR (requireR (list_all (\<lambda>(c, n). n \<noteq> 0 \<longrightarrow> n \<le> counter c w) (reserved_decrements ss))
              UserInferenceQuotaConflictError) (\<lambda>_.
     Inr (map (\<lambda>(c, n). (c, counter c w + n)) (filter (\<lambda>(c, n). n \<noteq> 0) (used_deltas ss)) @
          map (\<lambda>(c, n). (c, counter c w - n)) (filter (\<lambda>(c, n). n \<noteq> 0) (reserved_decrements ss))))"

fun settle_rows :: "string \<Rightarrow> pydatetime \<Rightarrow> (resource_kind \<times> reservation_row \<times> int) list \<Rightarrow> db \<Rightarrow> err + db" where
  "settle_rows owner now [] d = Inr d"
| "settle_rows owner now ((kind, row, actual) # ss) d =
     bindR (transition_reservation owner (res_idempotency_key row) (res_revision row) SETTLED (Some actual) (Some now) d)
       (\<lambda>(_, d). settle_rows owner now ss d)"

definition settle_attempt :: "tx_env \<Rightarrow> nat \<Rightarrow> inference_admission \<Rightarrow> (resource_kind \<times> int option) list \<Rightarrow> pydatetime \<Rightarrow>
    db \<Rightarrow> err + (unit \<times> db)" where
  "settle_attempt env n a actuals now d =
     (case write_intent env n of
        Some x \<Rightarrow> Inl x
      | None \<Rightarrow>
          bindR (ofOption UserInferenceQuotaConflictError (get_window d (ia_owner_user_id a) (ia_window_epoch a))) (\<lambda>w.
          bindR (settlements d a actuals (ia_reservation_keys a)) (\<lambda>ss.
          bindR (settlement_targets w ss) (\<lambda>targets.
          bindR (if targets = [] then Inr d
                 else bindR (mutate_window_usage (ia_owner_user_id a) (ia_window_epoch a) (win_revision w) targets d)
                        (\<lambda>(_, d). Inr d)) (\<lambda>d.
          bindR (settle_rows (ia_owner_user_id a) now ss d) (\<lambda>d.
          Inr ((), d)))))))"

definition settle_success :: "inference_quota_settings \<Rightarrow> tx_env \<Rightarrow> inference_admission option \<Rightarrow> normalized_usage \<Rightarrow> pydatetime \<Rightarrow>
    db \<Rightarrow> (err + unit) \<times> db" where
  "settle_success s env m usage now d =
     (case m of
        None \<Rightarrow> (Inr (), d)
      | Some a \<Rightarrow>
          (case bindR (normalization_identity s) (\<lambda>ident.
                bindR (requireR (nu_normalization_identity usage = ident) UserInferenceQuotaConflictError) (\<lambda>_.
                settlement_actuals usage)) of
             Inl x \<Rightarrow> (Inl x, d)
           | Inr actuals \<Rightarrow>
               retry_loop is_retryable_error AssertionError (others env)
                 (\<lambda>n. settle_attempt env n a actuals now) 0 (nat (max 1 (iqs_max_conflict_retries s))) d))"

end
