(* ===== verification/Inference_Ledger.thy ===== *)
theory Inference_Ledger
  imports Inference_Quota Quota_Limits
begin

text \<open>
  The inference quota keeps the ledger. An admission inserts one reservation per governed resource
  and adds their amounts to the reserved counters of the window; a settlement moves them to the
  used counters. A request is \<^emph>\<open>whole\<close> when none of its reservations exists without the one for
  the inference call, which is the one the code looks up first.
\<close>

section \<open>The reservations of a request\<close>

lemma list_all2_memberR: "list_all2 R xs ys \<Longrightarrow> y \<in> set ys \<Longrightarrow> \<exists>x \<in> set xs. R x y"
  by (induction rule: list_all2_induct) auto

lemma list_all2_memberL: "list_all2 R xs ys \<Longrightarrow> x \<in> set xs \<Longrightarrow> \<exists>y \<in> set ys. R x y"
  by (induction rule: list_all2_induct) auto

abbreviation inference_key :: "string \<Rightarrow> resource_kind \<Rightarrow> string" where
  "inference_key L k \<equiv> fst (reservation_identity L k)"

lemma inference_key_prefix: "take 8 (inference_key L k) \<noteq> ''ubq2:v1:''" "inference_key L k \<noteq> fst (tool_identity i)"
  by (simp_all add: reservation_identity_def tool_identity_def)

lemma inference_intent_fields:
  assumes "inference_intent owner epoch c fp kind amount = Inr i"
  shows "in_owner_user_id i = owner" "in_window_epoch i = epoch" "in_idempotency_key i = inference_key (ic_logical_request_id c) kind"
    "in_resource_kind i = kind" "in_capability_id i = None" "in_reserved_amount_atomic i = amount" "kind \<noteq> TOOL_CALL"
    "in_reservation_id i = snd (reservation_identity (ic_logical_request_id c) kind)"
    "in_attribution i = inference_attribution c fp kind"
  using assms by (auto simp: inference_intent_def capability_scope_ok_def dest: make_intent_fields)

lemma verify_row_Inr:
  "verify_row row i = Inr x \<Longrightarrow> res_owner_user_id row = in_owner_user_id i \<and> res_window_epoch row = in_window_epoch i \<and>
   res_idempotency_key row = in_idempotency_key i \<and> res_resource_kind row = in_resource_kind i \<and>
   res_reserved_amount_atomic row = in_reserved_amount_atomic i"
  by (auto simp: verify_row_def)

text \<open>What an admission inserts for one entry of the amounts.\<close>

definition reserves :: "string \<Rightarrow> int \<Rightarrow> inference_context \<Rightarrow> string \<Rightarrow> resource_kind \<times> int \<Rightarrow> reservation_row \<Rightarrow> bool" where
  "reserves owner epoch c fp ka r \<longleftrightarrow>
     (\<exists>i. inference_intent owner epoch c fp (fst ka) (snd ka) = Inr i \<and> new_reservation i = Inr r)"

lemma reserves_fields:
  assumes "reserves owner epoch c fp ka r"
  shows "res_win r = (owner, epoch)" "res_key r = (owner, inference_key (ic_logical_request_id c) (fst ka))"
    "res_resource_kind r = fst ka" "res_capability_id r = None" "res_reserved_amount_atomic r = snd ka"
    "res_state r = RESERVED" "fst ka \<noteq> TOOL_CALL" "res_idempotency_key r = inference_key (ic_logical_request_id c) (fst ka)"
proof -
  from assms obtain i where i: "inference_intent owner epoch c fp (fst ka) (snd ka) = Inr i" "new_reservation i = Inr r"
    by (auto simp: reserves_def)
  note f = inference_intent_fields [OF i(1)] new_reservation_fields [OF i(2)]
  show "res_win r = (owner, epoch)" "res_key r = (owner, inference_key (ic_logical_request_id c) (fst ka))"
    "res_resource_kind r = fst ka" "res_capability_id r = None" "res_reserved_amount_atomic r = snd ka"
    "res_state r = RESERVED" "fst ka \<noteq> TOOL_CALL" "res_idempotency_key r = inference_key (ic_logical_request_id c) (fst ka)"
    by (simp_all add: f res_win_def res_key_def)
qed

definition request_delta :: "(resource_kind \<times> int) list \<Rightarrow> window_counter \<Rightarrow> int" where
  "request_delta kas c = sum_list (map (\<lambda>ka. reserved_delta (fst ka) (snd ka) c) kas)"

lemma request_delta_simps [simp]:
  "request_delta [] c = 0"
  "request_delta (ka # kas) c = reserved_delta (fst ka) (snd ka) c + request_delta kas c"
  "request_delta (kas @ kas') c = request_delta kas c + request_delta kas' c"
  by (simp_all add: request_delta_def)

lemma get_reservation_append:
  "reservations d' = reservations d @ rs \<Longrightarrow>
   get_reservation d' owner key = (case get_reservation d owner key of
     Some r \<Rightarrow> Some r | None \<Rightarrow> List.find (\<lambda>r. res_key r = (owner, key)) rs)"
  by (simp add: get_reservation_def find_append)

lemma reserve_amountsE:
  assumes "reserve_amounts owner epoch c fp kas d = Inr (keys, d')" "distinct (map fst kas)"
    and "\<forall>ka \<in> set kas. \<forall>r. get_reservation d owner (inference_key (ic_logical_request_id c) (fst ka)) = Some r \<longrightarrow>
           res_resource_kind r \<noteq> fst ka"
    and "res_table_ok d (reservations d)"
  shows "\<exists>rs. d' = d\<lparr>reservations := reservations d @ rs\<rparr> \<and> list_all2 (reserves owner epoch c fp) kas rs \<and>
    keys = map (\<lambda>ka. (kind_value (fst ka), inference_key (ic_logical_request_id c) (fst ka))) kas \<and>
    res_table_ok d (reservations d') \<and>
    ledger_shift (reservations d) (reservations d') (owner, epoch) None (request_delta kas)"
  using assms
proof (induction kas arbitrary: d keys)
  case Nil
  then show ?case by (intro exI [of _ "[]"]) (simp add: ledger_shift_def)
next
  case (Cons ka kas)
  let ?L = "ic_logical_request_id c"
  obtain kind amount where ka: "ka = (kind, amount)" by (cases ka)
  from Cons.prems(1) ka obtain i row d1 ks where i: "inference_intent owner epoch c fp kind amount = Inr i"
    and cr: "create_or_get_reservation id i d = Inr (row, d1)" and ver: "verify_row row i = Inr ()"
    and rest: "reserve_amounts owner epoch c fp kas d1 = Inr (ks, d')"
    and keys: "keys = (kind_value kind, in_idempotency_key i) # ks"
    by auto
  note f = inference_intent_fields [OF i]
  from cr obtain ins: "new_reservation i = Inr row" "insert_reservation row d = Inr d1"
  proof (cases rule: create_or_get_reservationE)
    case existing
    with Cons.prems(3) ka f verify_row_Inr [OF ver] show thesis by simp
  qed
  from ins(2) have d1: "d1 = d\<lparr>reservations := reservations d @ [row]\<rparr>" by (simp add: insert_reservation_Inr)
  have rv: "reserves owner epoch c fp ka row" using i ins(1) ka by (auto simp: reserves_def)
  note rf = reserves_fields [OF rv]
  have ok1: "res_table_ok d (reservations d @ [row])"
    by (rule res_table_insert [OF ins(2) Cons.prems(4)]) (use rf in simp)
  then have ok1': "res_table_ok d1 (reservations d1)" by (simp add: res_table_ok_def d1)
  have "reservations d1 = reservations d @ [row]" by (simp add: d1)
  note found = get_reservation_append [OF this]
  have fresh: "\<forall>kb \<in> set kas. \<forall>r. get_reservation d1 owner (inference_key ?L (fst kb)) = Some r \<longrightarrow> res_resource_kind r \<noteq> fst kb"
  proof (intro ballI allI impI)
    fix kb r assume kb: "kb \<in> set kas" and r: "get_reservation d1 owner (inference_key ?L (fst kb)) = Some r"
    have "fst kb \<noteq> kind" using kb Cons.prems(2) ka by (auto simp: rev_image_eqI)
    moreover have "get_reservation d owner (inference_key ?L (fst kb)) = Some r \<or> r = row"
      using r by (auto simp: found split: option.splits if_splits)
    moreover have "res_resource_kind row = kind" using rf(3) ka by simp
    ultimately show "res_resource_kind r \<noteq> fst kb" using Cons.prems(3) [rule_format, of kb r] kb by auto
  qed
  have "distinct (map fst kas)" using Cons.prems(2) by simp
  from Cons.IH [OF rest this fresh ok1'] obtain rs where
    rs: "d' = d1\<lparr>reservations := reservations d1 @ rs\<rparr>" "list_all2 (reserves owner epoch c fp) kas rs"
      "ks = map (\<lambda>ka. (kind_value (fst ka), inference_key ?L (fst ka))) kas" "res_table_ok d1 (reservations d')"
      "ledger_shift (reservations d1) (reservations d') (owner, epoch) None (request_delta kas)"
    by blast
  have "ledger_shift (reservations d) (reservations d1) (owner, epoch) None (reserved_delta kind amount)"
    using ledger_shift_cong [OF ledger_shift_insert [of "reservations d" row], of "reserved_delta kind amount"] rf ka
    by (simp add: d1 contrib_reserved)
  note shift = ledger_shift_trans [OF this rs(5)]
  have "res_table_ok d (reservations d')" using rs(4) by (simp add: res_table_ok_def d1)
  moreover have "d' = d\<lparr>reservations := reservations d @ row # rs\<rparr>" unfolding rs(1) d1 by simp
  moreover have "list_all2 (reserves owner epoch c fp) (ka # kas) (row # rs)" using rv rs(2) by simp
  moreover have "keys = map (\<lambda>ka. (kind_value (fst ka), inference_key ?L (fst ka))) (ka # kas)"
    using keys rs(3) f(3) ka by simp
  moreover have "ledger_shift (reservations d) (reservations d') (owner, epoch) None (request_delta (ka # kas))"
    using ledger_shift_cong [OF shift, of "request_delta (ka # kas)"] ka by simp
  ultimately show ?case by blast
qed

section \<open>The counters of the window\<close>

lemma policy_amounts_Inr:
  assumes "policy_amounts e p = Inr kas"
  obtains compute cost where
    "kas = [(INFERENCE_CALL, 1), (INPUT_TOKEN, est_input_tokens e), (OUTPUT_TOKEN, est_output_tokens e), (TOTAL_TOKEN, est_total_tokens e)] @ compute @ cost"
    "compute = [] \<or> (\<exists>a. compute = [(COMPUTE_UNIT, a)])" "cost = [] \<or> (\<exists>a. cost = [(COST_USD, a)])"
  using assms by (auto simp: policy_amounts_def amounts_def estimated_amount_def split: if_splits)

lemma policy_amounts_kinds:
  assumes "policy_amounts e p = Inr kas"
  shows "distinct (map fst kas)" "INFERENCE_CALL \<in> fst ` set kas" "TOOL_CALL \<notin> fst ` set kas"
  by (rule policy_amounts_Inr [OF assms]; auto)+

lemma policy_amounts_call: "policy_amounts e p = Inr kas \<Longrightarrow> ka \<in> set kas \<Longrightarrow> fst ka = INFERENCE_CALL \<Longrightarrow> snd ka = 1"
  by (erule policy_amounts_Inr) auto

lemma map_of_keyed: "map_of (map (\<lambda>(k, v). (k, f k v)) xs) x = map_option (f x) (map_of xs x)"
  by (induction xs) auto

text \<open>Setting every named counter to its value plus an amount shifts the named counters only.\<close>

lemma counter_shifted:
  assumes "distinct (map fst cns)"
  shows "counter x ((set_counters (map (\<lambda>(c, n). (c, counter c w + n)) cns) w)\<lparr>win_revision := v\<rparr>) =
    counter x w + (case map_of cns x of None \<Rightarrow> 0 | Some n \<Rightarrow> n)"
proof -
  have "map fst (map (\<lambda>(c, n). (c, counter c w + n)) cns) = map fst cns" by (induction cns) auto
  with assms have "distinct (map fst (map (\<lambda>(c, n). (c, counter c w + n)) cns))" by metis
  from counter_set_counters [OF this, of x w] show ?thesis by (simp add: map_of_keyed split: option.splits)
qed

definition reserved_shifts :: "inference_estimate \<Rightarrow> int \<Rightarrow> int \<Rightarrow> (window_counter \<times> int) list" where
  "reserved_shifts e compute cost =
     [(inference_reserved, 1), (tokens_reserved, est_total_tokens e)] @
     (if compute \<noteq> 0 then [(compute_reserved_atomic, compute)] else []) @
     (if cost \<noteq> 0 then [(cost_reserved_atomic, cost)] else [])"

lemma reserved_targets_shifts:
  "reserved_targets w e a b = map (\<lambda>(c, n). (c, counter c w + n)) (reserved_shifts e a b)"
  by (simp add: reserved_targets_def reserved_shifts_def)

lemma shift_of_amounts:
  assumes "policy_amounts e p = Inr kas"
  shows "(case map_of (reserved_shifts e (amount_of COMPUTE_UNIT kas) (amount_of COST_USD kas)) x of None \<Rightarrow> 0 | Some n \<Rightarrow> n) =
    request_delta kas x"
proof (rule policy_amounts_Inr [OF assms])
  fix compute cost
  assume kas: "kas = [(INFERENCE_CALL, 1), (INPUT_TOKEN, est_input_tokens e), (OUTPUT_TOKEN, est_output_tokens e), (TOTAL_TOKEN, est_total_tokens e)] @ compute @ cost"
    and c: "compute = [] \<or> (\<exists>a. compute = [(COMPUTE_UNIT, a)])" "cost = [] \<or> (\<exists>a. cost = [(COST_USD, a)])"
  have 1: "amount_of COMPUTE_UNIT kas = request_delta compute compute_reserved_atomic"
    using c by (auto simp: kas amount_of_def reserved_delta_def counts_reserved_def)
  have 2: "amount_of COST_USD kas = request_delta cost cost_reserved_atomic"
    using c by (auto simp: kas amount_of_def reserved_delta_def counts_reserved_def)
  have 3: "request_delta compute x = (if x = compute_reserved_atomic then request_delta compute compute_reserved_atomic else 0)"
    using c(1) by (cases x) (auto simp: reserved_delta_def counts_reserved_def)
  have 4: "request_delta cost x = (if x = cost_reserved_atomic then request_delta cost cost_reserved_atomic else 0)"
    using c(2) by (cases x) (auto simp: reserved_delta_def counts_reserved_def)
  have 5: "request_delta kas x = (if x = inference_reserved then 1 else if x = tokens_reserved then est_total_tokens e else 0) +
      request_delta compute x + request_delta cost x"
    by (cases x) (simp_all add: kas reserved_delta_def counts_reserved_def)
  show ?thesis unfolding 1 2 5 by (subst 3, subst 4) (simp add: reserved_shifts_def)
qed

lemma reserved_targets_delta:
  assumes "policy_amounts e p = Inr kas"
  shows "counter x ((set_counters (reserved_targets w e (amount_of COMPUTE_UNIT kas) (amount_of COST_USD kas)) w)\<lparr>win_revision := v\<rparr>) =
    counter x w + request_delta kas x"
proof -
  have "distinct (map fst (reserved_shifts e (amount_of COMPUTE_UNIT kas) (amount_of COST_USD kas)))"
    by (simp add: reserved_shifts_def)
  from counter_shifted [OF this] show ?thesis unfolding reserved_targets_shifts shift_of_amounts [OF assms] by simp
qed

section \<open>Admission keeps the ledger\<close>

lemma admit_inferenceE:
  assumes "admit_inference owner account c fp e now d = Inr (a, d')"
  obtains w d1 p kas pin pout keys d2 w' where
    "admission_window owner account now d = Inr (w, d1)" "canonical_policy owner w d1 = Inr p" "policy_amounts e p = Inr kas"
    "sum_pending_reservation_amount d1 owner (win_epoch w) INPUT_TOKEN = Inr pin"
    "sum_pending_reservation_amount d1 owner (win_epoch w) OUTPUT_TOKEN = Inr pout"
    "check_limits p w e pin pout (amount_of COMPUTE_UNIT kas) (amount_of COST_USD kas) = Inr ()"
    "reserve_amounts owner (win_epoch w) c fp kas d1 = Inr (keys, d2)"
    "mutate_window_usage owner (win_epoch w) (win_revision w)
       (reserved_targets w e (amount_of COMPUTE_UNIT kas) (amount_of COST_USD kas)) d2 = Inr (w', d')"
    "a = \<lparr>ia_owner_user_id = owner, ia_logical_request_id = ic_logical_request_id c, ia_logical_request_fingerprint = fp,
          ia_window_epoch = win_epoch w, ia_reservation_keys = keys, ia_replayed = False, ia_inference_reservation_state = RESERVED\<rparr>"
  using assms by (auto simp: admit_inference_def)

lemma admit_inference_charged:
  assumes adm: "admit_inference owner account c fp e now d = Inr (a, d')" and inv: "budget_inv d"
    and fresh: "\<And>k. get_reservation d owner (inference_key (ic_logical_request_id c) k) = None"
  obtains w d1 p kas pin pout rs w' where
    "admission_window owner account now d = Inr (w, d1)" "budget_inv d1" "active_window d1 owner = Some w"
    "canonical_policy owner w d1 = Inr p" "policy_amounts e p = Inr kas"
    "sum_pending_reservation_amount d1 owner (win_epoch w) INPUT_TOKEN = Inr pin"
    "sum_pending_reservation_amount d1 owner (win_epoch w) OUTPUT_TOKEN = Inr pout"
    "check_limits p w e pin pout (amount_of COMPUTE_UNIT kas) (amount_of COST_USD kas) = Inr ()"
    "charged d1 d' w w' None (request_delta kas)" "budget_inv d'"
    "reservations d' = reservations d @ rs" "list_all2 (reserves owner (win_epoch w) c fp) kas rs"
    "a = \<lparr>ia_owner_user_id = owner, ia_logical_request_id = ic_logical_request_id c, ia_logical_request_fingerprint = fp,
          ia_window_epoch = win_epoch w,
          ia_reservation_keys = map (\<lambda>ka. (kind_value (fst ka), inference_key (ic_logical_request_id c) (fst ka))) kas,
          ia_replayed = False, ia_inference_reservation_state = RESERVED\<rparr>"
  using adm
proof (rule admit_inferenceE)
  let ?L = "ic_logical_request_id c"
  fix w d1 p kas pin pout keys d2 w'
  assume s: "admission_window owner account now d = Inr (w, d1)" "canonical_policy owner w d1 = Inr p"
    and kas: "policy_amounts e p = Inr kas" and pend: "sum_pending_reservation_amount d1 owner (win_epoch w) INPUT_TOKEN = Inr pin"
      "sum_pending_reservation_amount d1 owner (win_epoch w) OUTPUT_TOKEN = Inr pout"
      "check_limits p w e pin pout (amount_of COMPUTE_UNIT kas) (amount_of COST_USD kas) = Inr ()"
    and ra: "reserve_amounts owner (win_epoch w) c fp kas d1 = Inr (keys, d2)"
    and mw: "mutate_window_usage owner (win_epoch w) (win_revision w)
       (reserved_targets w e (amount_of COMPUTE_UNIT kas) (amount_of COST_USD kas)) d2 = Inr (w', d')"
    and a: "a = \<lparr>ia_owner_user_id = owner, ia_logical_request_id = ?L, ia_logical_request_fingerprint = fp,
          ia_window_epoch = win_epoch w, ia_reservation_keys = keys, ia_replayed = False, ia_inference_reservation_state = RESERVED\<rparr>"
  note adw = admission_window_inv [OF s(1) inv]
  then have inv1: "budget_inv d1" and act: "active_window d1 owner = Some w" by auto
  then have w: "w \<in> set (windows d1)" "win_owner_user_id w = owner" by (auto dest: active_window_SomeD)
  have rs0: "reservations d1 = reservations d" using adw rollover_window_reservations inv by metis
  note kinds = policy_amounts_kinds [OF kas]
  have fr: "\<forall>ka \<in> set kas. \<forall>r. get_reservation d1 owner (inference_key ?L (fst ka)) = Some r \<longrightarrow> res_resource_kind r \<noteq> fst ka"
    using fresh rs0 by (simp add: get_reservation_def)
  from reserve_amountsE [OF ra kinds(1) fr budget_inv_res_table [OF inv1]] obtain rs where
    d2: "d2 = d1\<lparr>reservations := reservations d1 @ rs\<rparr>" and rv: "list_all2 (reserves owner (win_epoch w) c fp) kas rs"
    and keys: "keys = map (\<lambda>ka. (kind_value (fst ka), inference_key ?L (fst ka))) kas"
    and tab: "res_table_ok d1 (reservations d2)"
    and shift: "ledger_shift (reservations d1) (reservations d2) (owner, win_epoch w) None (request_delta kas)"
    by blast
  have dist: "distinct (map win_key (windows d2))" and w2: "w \<in> set (windows d2)"
    using inv1 w d2 by (auto simp: budget_inv_def wf_windows_def)
  note mw = mutate_window_memberE [OF mw dist w2 w(2)]
  have fr': "reservations d' = reservations d1 @ rs" "windows d' = replace_row win_key w' (windows d1)" "policies d' = policies d1"
    "accounts d' = accounts d1" "tool_usage d' = tool_usage d1" "receipts d' = receipts d1" "reservations d' = reservations d2"
    unfolding mw(5) d2 by simp_all
  have tools: "request_delta kas tool_calls_used = 0" "request_delta kas tool_calls_reserved = 0"
    by (rule policy_amounts_Inr [OF kas]; auto simp: reserved_delta_def counts_reserved_def)+
  have "counter x w' = counter x w + request_delta kas x" for x
    unfolding mw(1) by (rule reserved_targets_delta [OF kas])
  with shift w mw(2,3) tools have ch: "charged d1 d' w w' None (request_delta kas)"
    by (simp add: charged_def tool_row_shift_def fr'(2-6)) (simp add: fr'(7) win_key_def)
  have "mirrored_ok d'"
  proof -
    have "take 8 (res_idempotency_key r) \<noteq> ''ubq2:v1:''" if "r \<in> set rs" for r
    proof -
      from list_all2_memberR [OF rv that] obtain ka where "reserves owner (win_epoch w) c fp ka r" by blast
      from reserves_fields(8) [OF this] show ?thesis by (simp add: inference_key_prefix)
    qed
    with inv1 show ?thesis by (auto simp: budget_inv_def mirrored_ok_def fr'(1,6) list_all_iff)
  qed
  from budget_inv_charge [OF inv1 ch _ this] tab have inv': "budget_inv d'" by (simp add: fr'(7))
  show thesis
    by (rule that [OF s(1) inv1 act s(2) kas pend ch inv' _ rv]) (simp_all add: fr'(1) rs0 a keys)
qed

section \<open>What an admission promises\<close>

definition reservation_as :: "inference_admission \<Rightarrow> string \<Rightarrow> reservation_row option \<Rightarrow> bool" where
  "reservation_as a kind_name m =
     (case m of None \<Rightarrow> False
      | Some r \<Rightarrow> kind_value (res_resource_kind r) = kind_name \<and> res_window_epoch r = ia_window_epoch a \<and>
                 (res_resource_kind r = INFERENCE_CALL \<longrightarrow> res_reserved_amount_atomic r = 1))"

definition inference_admission_ok :: "inference_admission \<Rightarrow> db \<Rightarrow> bool" where
  "inference_admission_ok a d \<longleftrightarrow>
     distinct (map snd (ia_reservation_keys a)) \<and>
     list_all (\<lambda>(kind_name, key). reservation_as a kind_name (get_reservation d (ia_owner_user_id a) key)) (ia_reservation_keys a)"

lemma admitted_ok:
  assumes "list_all2 (reserves owner epoch c fp) kas rs" "policy_amounts e p = Inr kas" "reservations d' = reservations d @ rs"
    and "distinct (map res_key (reservations d'))" "ia_owner_user_id a = owner" "ia_window_epoch a = epoch"
    and "ia_reservation_keys a = map (\<lambda>ka. (kind_value (fst ka), inference_key (ic_logical_request_id c) (fst ka))) kas"
  shows "inference_admission_ok a d'"
proof -
  let ?L = "ic_logical_request_id c"
  have "map res_key rs = map (\<lambda>ka. (owner, inference_key ?L (fst ka))) kas"
    using assms(1) by (induction rule: list_all2_induct) (simp_all add: reserves_fields)
  moreover have "distinct (map res_key rs)" using assms(3,4) by simp
  ultimately have "distinct (map (\<lambda>ka. (owner, inference_key ?L (fst ka))) kas)" by simp
  then have "distinct (map (\<lambda>ka. inference_key ?L (fst ka)) kas)" by (auto simp: distinct_map inj_on_def)
  moreover have "reservation_as a (kind_value (fst ka)) (get_reservation d' owner (inference_key ?L (fst ka)))" if "ka \<in> set kas" for ka
  proof -
    from list_all2_memberL [OF assms(1) that] obtain r where r: "r \<in> set rs" "reserves owner epoch c fp ka r" by blast
    note f = reserves_fields [OF r(2)]
    have "get_reservation d' owner (inference_key ?L (fst ka)) = Some r"
      using find_key [OF assms(4), of r] r(1) assms(3) f(2) by (simp add: get_reservation_def)
    with f assms(6) policy_amounts_call [OF assms(2) that] show ?thesis by (simp add: reservation_as_def res_win_def)
  qed
  ultimately show ?thesis by (simp add: inference_admission_ok_def assms(5,7) list_all_iff comp_def)
qed

lemma replay_amounts_Inr:
  assumes "replay_amounts owner epoch c fp kas d = Inr keys"
  shows "keys = map (\<lambda>ka. (kind_value (fst ka), inference_key (ic_logical_request_id c) (fst ka))) kas \<and>
    (\<forall>ka \<in> set kas. \<exists>r. get_reservation d owner (inference_key (ic_logical_request_id c) (fst ka)) = Some r \<and>
       res_resource_kind r = fst ka \<and> res_window_epoch r = epoch \<and> res_reserved_amount_atomic r = snd ka)"
  using assms
proof (induction kas arbitrary: keys)
  case Nil
  then show ?case by simp
next
  case (Cons ka kas)
  obtain kind amount where ka: "ka = (kind, amount)" by (cases ka)
  from Cons.prems ka obtain row i ks where r: "get_reservation d owner (inference_key (ic_logical_request_id c) kind) = Some row"
    "inference_intent owner epoch c fp kind amount = Inr i" "verify_row row i = Inr ()"
    "replay_amounts owner epoch c fp kas d = Inr ks"
    "keys = (kind_value kind, inference_key (ic_logical_request_id c) kind) # ks"
    by (auto simp: Let_def)
  with Cons.IH [OF r(4)] verify_row_Inr [OF r(3)] inference_intent_fields [OF r(2)] ka show ?case by simp
qed

lemma replayed_ok:
  assumes "replay_inference owner c fp e existing d = Inr a"
  shows "inference_admission_ok a d" "ia_owner_user_id a = owner" "ia_replayed a" "ia_logical_request_id a = ic_logical_request_id c"
    "ia_logical_request_fingerprint a = fp" "ia_window_epoch a = res_window_epoch existing"
proof -
  from assms obtain p kas keys where kas: "policy_amounts e p = Inr kas"
    and keys: "replay_amounts owner (res_window_epoch existing) c fp kas d = Inr keys"
    and a: "a = \<lparr>ia_owner_user_id = owner, ia_logical_request_id = ic_logical_request_id c, ia_logical_request_fingerprint = fp,
      ia_window_epoch = res_window_epoch existing, ia_reservation_keys = keys, ia_replayed = True,
      ia_inference_reservation_state = res_state existing\<rparr>"
    by (auto simp: replay_inference_def)
  note k = replay_amounts_Inr [OF keys] and kinds = policy_amounts_kinds [OF kas]
  have "fst ka = fst kb" if "ka \<in> set kas" "kb \<in> set kas"
    "inference_key (ic_logical_request_id c) (fst ka) = inference_key (ic_logical_request_id c) (fst kb)" for ka kb
    using that k by (metis option.inject)
  with kinds(1) have "distinct (map (\<lambda>ka. inference_key (ic_logical_request_id c) (fst ka)) kas)"
    unfolding distinct_map inj_on_def by metis
  with k policy_amounts_call [OF kas] show "inference_admission_ok a d"
    by (auto simp: inference_admission_ok_def a list_all_iff comp_def reservation_as_def split: option.splits)
  show "ia_owner_user_id a = owner" "ia_replayed a" "ia_logical_request_id a = ic_logical_request_id c"
    "ia_logical_request_fingerprint a = fp" "ia_window_epoch a = res_window_epoch existing"
    by (simp_all add: a)
qed

section \<open>Settlement keeps the ledger\<close>

abbreviation settled_row :: "resource_kind \<times> reservation_row \<times> int \<Rightarrow> reservation_row" where
  "settled_row s \<equiv> fst (snd s)"

abbreviation settled_amount :: "resource_kind \<times> reservation_row \<times> int \<Rightarrow> int" where
  "settled_amount s \<equiv> snd (snd s)"

definition settle_delta :: "(resource_kind \<times> reservation_row \<times> int) list \<Rightarrow> window_counter \<Rightarrow> int" where
  "settle_delta ss x =
     sum_list (map (\<lambda>s. settled_delta (fst s) (settled_amount s) x +
                         reserved_delta (fst s) (- res_reserved_amount_atomic (settled_row s)) x) ss)"

text \<open>An entry to settle: a reserved row of the admission's window that the admission names by its kind.\<close>

definition settles :: "inference_admission \<Rightarrow> db \<Rightarrow> resource_kind \<times> reservation_row \<times> int \<Rightarrow> bool" where
  "settles a d s \<longleftrightarrow>
     settled_row s \<in> set (reservations d) \<and> res_resource_kind (settled_row s) = fst s \<and> res_state (settled_row s) = RESERVED \<and>
     res_win (settled_row s) = (ia_owner_user_id a, ia_window_epoch a) \<and> 0 \<le> settled_amount s \<and> fst s \<noteq> TOOL_CALL \<and>
     (fst s = INFERENCE_CALL \<longrightarrow> res_reserved_amount_atomic (settled_row s) = 1)"

lemma settlements_ConsE:
  assumes "settlements d a actuals ((kind_name, key) # keys) = Inr ss"
  obtains kind row m step rest where "kind_of_value kind_name = Inr kind"
    "get_reservation d (ia_owner_user_id a) key = Some row" "map_of actuals kind = Some m"
    "same_request row (ia_logical_request_id a) (ia_logical_request_fingerprint a)"
    "settlements d a actuals keys = Inr rest" "ss = step @ rest"
    "case m of None \<Rightarrow> step = []
     | Some x \<Rightarrow> 0 \<le> x \<and> (if res_state row = SETTLED
         then (case res_settled_amount_atomic row of None \<Rightarrow> 0 | Some y \<Rightarrow> y) = x \<and> step = []
         else res_state row = RESERVED \<and> step = [(kind, row, x)])"
proof -
  from assms obtain kind row m step rest where r: "kind_of_value kind_name = Inr kind"
    "get_reservation d (ia_owner_user_id a) key = Some row" "map_of actuals kind = Some m"
    "same_request row (ia_logical_request_id a) (ia_logical_request_fingerprint a)"
    "settlements d a actuals keys = Inr rest" "ss = step @ rest"
    and step: "(case m of None \<Rightarrow> Inr [] | Some actual \<Rightarrow>
        bindR (requireR (0 \<le> actual) UserInferenceQuotaConflictError) (\<lambda>_.
        if res_state row = SETTLED
        then bindR (requireR ((case res_settled_amount_atomic row of None \<Rightarrow> 0 | Some x \<Rightarrow> x) = actual)
                      UserInferenceQuotaConflictError) (\<lambda>_. Inr [])
        else bindR (requireR (res_state row = RESERVED) UserInferenceQuotaConflictError) (\<lambda>_.
             Inr [(kind, row, actual)]))) = Inr step"
    by auto
  from step show thesis by (intro that [OF r]) (auto split: option.splits if_splits)
qed

lemma settlements_settles:
  assumes "settlements d a actuals keys = Inr ss" "distinct (map snd keys)" "map_of actuals TOOL_CALL = None"
    and "list_all (\<lambda>(kind_name, key). reservation_as a kind_name (get_reservation d (ia_owner_user_id a) key)) keys"
  shows "list_all (settles a d) ss \<and> distinct (map (\<lambda>s. res_key (settled_row s)) ss) \<and>
    (\<forall>s \<in> set ss. res_key (settled_row s) \<in> (\<lambda>kk. (ia_owner_user_id a, snd kk)) ` set keys)"
  using assms
proof (induction keys arbitrary: ss)
  case Nil
  then show ?case by simp
next
  case (Cons kk keys)
  obtain kind_name key where kk: "kk = (kind_name, key)" by (cases kk)
  from Cons.prems(1) obtain kind row m step rest where kind: "kind_of_value kind_name = Inr kind"
    and row: "get_reservation d (ia_owner_user_id a) key = Some row" and m: "map_of actuals kind = Some m"
    and rest: "settlements d a actuals keys = Inr rest" and ss: "ss = step @ rest"
    and step: "case m of None \<Rightarrow> step = []
     | Some x \<Rightarrow> 0 \<le> x \<and> (if res_state row = SETTLED
         then (case res_settled_amount_atomic row of None \<Rightarrow> 0 | Some y \<Rightarrow> y) = x \<and> step = []
         else res_state row = RESERVED \<and> step = [(kind, row, x)])"
    unfolding kk by (rule settlements_ConsE) blast
  have IH: "list_all (settles a d) rest \<and> distinct (map (\<lambda>s. res_key (settled_row s)) rest) \<and>
    (\<forall>s \<in> set rest. res_key (settled_row s) \<in> (\<lambda>kk. (ia_owner_user_id a, snd kk)) ` set keys)"
    by (rule Cons.IH [OF rest]) (use Cons.prems(2-4) kk in auto)
  from step consider "step = []" | x where "step = [(kind, row, x)]" "0 \<le> x" "res_state row = RESERVED"
    by (auto split: option.splits if_splits)
  then show ?case
  proof cases
    case 1
    with IH ss kk show ?thesis by auto
  next
    case (2 x)
    from get_reservation_SomeD [OF row] have mem: "row \<in> set (reservations d)" "res_key row = (ia_owner_user_id a, key)" by auto
    have "kind_value kind = kind_name" using kind by (rule kind_of_value_Inr)
    with Cons.prems(4) kk row have kind_row: "res_resource_kind row = kind" "res_window_epoch row = ia_window_epoch a"
      by (auto simp: reservation_as_def)
    moreover have "kind = INFERENCE_CALL \<longrightarrow> res_reserved_amount_atomic row = 1"
      using Cons.prems(4) kk row kind_row(1) by (auto simp: reservation_as_def)
    moreover have "kind \<noteq> TOOL_CALL" using m Cons.prems(3) by auto
    moreover have "res_owner_user_id row = ia_owner_user_id a" using mem(2) by (simp add: res_key_def)
    ultimately have "settles a d (kind, row, x)" using mem 2 by (simp add: settles_def res_win_def)
    moreover have "(ia_owner_user_id a, key) \<notin> (\<lambda>kk. (ia_owner_user_id a, snd kk)) ` set keys"
      using Cons.prems(2) kk by auto
    moreover from this have "res_key row \<notin> (\<lambda>s. res_key (settled_row s)) ` set rest"
      using IH mem(2) by (metis (no_types, lifting) imageE)
    ultimately show ?thesis using IH ss 2(1) mem(2) kk by simp
  qed
qed

lemma in_replace_other: "x \<in> set rows \<Longrightarrow> k x \<noteq> k r \<Longrightarrow> x \<in> set (replace_row k r rows)"
  by (force simp: replace_row_def set_upd_where)

text \<open>The row a settlement writes.\<close>

definition settled_as :: "pydatetime \<Rightarrow> resource_kind \<times> reservation_row \<times> int \<Rightarrow> reservation_row" where
  "settled_as stamp s = (settled_row s)\<lparr>res_state := SETTLED, res_settled_amount_atomic := Some (settled_amount s),
     res_settled_at := Some stamp, res_revision := res_revision (settled_row s) + 1\<rparr>"

lemma settled_as_fields:
  "res_key (settled_as t s) = res_key (settled_row s)" "res_win (settled_as t s) = res_win (settled_row s)"
  "res_tool (settled_as t s) = res_tool (settled_row s)" "res_capability_id (settled_as t s) = res_capability_id (settled_row s)"
  "res_reservation_id (settled_as t s) = res_reservation_id (settled_row s)"
  "res_resource_kind (settled_as t s) = res_resource_kind (settled_row s)"
  "res_idempotency_key (settled_as t s) = res_idempotency_key (settled_row s)" "res_state (settled_as t s) = SETTLED"
  "res_settled_amount_atomic (settled_as t s) = Some (settled_amount s)" "res_window_epoch (settled_as t s) = res_window_epoch (settled_row s)"
  "res_attribution_json (settled_as t s) = res_attribution_json (settled_row s)"
  by (simp_all add: settled_as_def res_key_def res_win_def res_tool_def)

lemma settle_one:
  assumes "transition_reservation (ia_owner_user_id a) (res_idempotency_key (settled_row s)) (res_revision (settled_row s)) SETTLED
      (Some (settled_amount s)) (Some now) d = Inr (t, d')"
    and "settles a d s" "distinct (map res_key (reservations d))"
  obtains stamp where "normalize_authoritative_utc now = Inr stamp" "t = settled_as stamp s" "reservation_row_ok t"
    "d' = d\<lparr>reservations := replace_row res_key t (reservations d)\<rparr>"
  using assms(1,3)
proof (cases rule: transition_reservationE)
  case replayed
  have "res_key (settled_row s) = (ia_owner_user_id a, res_idempotency_key (settled_row s))"
    using assms(2) by (simp add: settles_def res_win_def res_key_def)
  moreover have "List.find (\<lambda>x. res_key x = res_key (settled_row s)) (reservations d) = Some (settled_row s)"
    using assms(2,3) by (intro find_key) (simp_all add: settles_def)
  ultimately have "get_reservation d (ia_owner_user_id a) (res_idempotency_key (settled_row s)) = Some (settled_row s)"
    by (simp add: get_reservation_def)
  with replayed assms(2) show thesis by (simp add: settles_def)
next
  case (moved r settled stamp)
  have "res_key r = res_key (settled_row s)" using moved(2) assms(2) by (simp add: settles_def res_win_def res_key_def)
  with moved(1) assms(2,3) have r: "r = settled_row s" by (auto simp: settles_def dest: distinct_key_eq)
  from moved(6) obtain u where "settled = Some (settled_amount s)" "stamp = Some u" "normalize_authoritative_utc now = Inr u"
    by (auto simp: settlement_fields_def)
  with moved r show thesis by (intro that [of u]) (simp_all add: settled_as_def)
qed

lemma settled_contrib:
  assumes "settles a d s"
  shows "contrib x (settled_as t s) - contrib x (settled_row s) =
    settled_delta (fst s) (settled_amount s) x + reserved_delta (fst s) (- res_reserved_amount_atomic (settled_row s)) x"
proof -
  have "contrib x (settled_as t s) = settled_delta (fst s) (settled_amount s) x"
    using assms by (subst contrib_settled) (simp_all add: settled_as_fields settles_def)
  moreover have "contrib x (settled_row s) = reserved_delta (fst s) (res_reserved_amount_atomic (settled_row s)) x"
    using assms by (subst contrib_reserved) (simp_all add: settles_def)
  ultimately show ?thesis by (simp add: reserved_delta_def)
qed

lemma settle_rows_shift:
  assumes "settle_rows (ia_owner_user_id a) now ss d = Inr d'" "list_all (settles a d) ss"
    and "distinct (map (\<lambda>s. res_key (settled_row s)) ss)" "res_table_ok d0 (reservations d)"
  shows "d' = d\<lparr>reservations := reservations d'\<rparr> \<and> map res_key (reservations d') = map res_key (reservations d) \<and>
    res_table_ok d0 (reservations d') \<and>
    ledger_shift (reservations d) (reservations d') (ia_owner_user_id a, ia_window_epoch a) None (settle_delta ss) \<and>
    (\<forall>r \<in> set (reservations d'). r \<in> set (reservations d) \<or>
       (\<exists>s \<in> set ss. \<exists>stamp. r = settled_as stamp s \<and> normalize_authoritative_utc now = Inr stamp)) \<and>
    (\<forall>r \<in> set (reservations d). res_key r \<notin> (\<lambda>s. res_key (settled_row s)) ` set ss \<longrightarrow> r \<in> set (reservations d')) \<and>
    (\<forall>s \<in> set ss. \<exists>stamp. settled_as stamp s \<in> set (reservations d'))"
  using assms
proof (induction ss arbitrary: d)
  case Nil
  then show ?case by (auto simp: ledger_shift_def settle_delta_def)
next
  case (Cons s ss)
  obtain kind row x where s: "s = (kind, row, x)" by (cases s)
  from Cons.prems(1) s obtain t d1 where
    tr: "transition_reservation (ia_owner_user_id a) (res_idempotency_key (settled_row s)) (res_revision (settled_row s)) SETTLED
      (Some (settled_amount s)) (Some now) d = Inr (t, d1)" and rest: "settle_rows (ia_owner_user_id a) now ss d1 = Inr d'"
    by auto
  from Cons.prems(2) have st: "settles a d s" and sts: "list_all (settles a d) ss" by simp_all
  have dist: "distinct (map res_key (reservations d))" using Cons.prems(4) by (simp add: res_table_ok_def)
  from tr st dist obtain stamp where stamp: "normalize_authoritative_utc now = Inr stamp" and t: "t = settled_as stamp s"
    and tok: "reservation_row_ok t" and d1: "d1 = d\<lparr>reservations := replace_row res_key t (reservations d)\<rparr>"
    by (rule settle_one)
  have rs1: "reservations d1 = replace_row res_key t (reservations d)" unfolding d1 by simp
  have mem: "settled_row s \<in> set (reservations d)" "res_win (settled_row s) = (ia_owner_user_id a, ia_window_epoch a)"
    "fst s \<noteq> TOOL_CALL" "res_resource_kind (settled_row s) = fst s"
    using st by (auto simp: settles_def)
  have cap: "res_capability_id (settled_row s) = None"
    using mem Cons.prems(4) by (auto simp: res_table_ok_def list_all_iff reservation_row_ok_def)
  note tf = settled_as_fields [of stamp s, folded t]
  have tab1: "res_table_ok d0 (reservations d1)"
    unfolding rs1 using Cons.prems(4) mem(1) tok tf by (intro res_table_replace [of _ _ "settled_row s"]) auto
  have key1: "map res_key (reservations d1) = map res_key (reservations d)" unfolding rs1 by simp
  have fresh: "res_key (settled_row s') \<noteq> res_key t" if "s' \<in> set ss" for s'
    using that Cons.prems(3) tf(1) by (auto simp: rev_image_eqI)
  have sts1: "list_all (settles a d1) ss"
    using sts fresh by (auto simp: list_all_iff settles_def rs1 intro: in_replace_other)
  have "distinct (map (\<lambda>s. res_key (settled_row s)) ss)" using Cons.prems(3) by simp
  from Cons.IH [OF rest sts1 this tab1] have IH: "d' = d1\<lparr>reservations := reservations d'\<rparr>"
    "map res_key (reservations d') = map res_key (reservations d1)" "res_table_ok d0 (reservations d')"
    "ledger_shift (reservations d1) (reservations d') (ia_owner_user_id a, ia_window_epoch a) None (settle_delta ss)"
    "\<forall>r \<in> set (reservations d'). r \<in> set (reservations d1) \<or>
       (\<exists>s \<in> set ss. \<exists>stamp. r = settled_as stamp s \<and> normalize_authoritative_utc now = Inr stamp)"
    "\<forall>r \<in> set (reservations d1). res_key r \<notin> (\<lambda>s. res_key (settled_row s)) ` set ss \<longrightarrow> r \<in> set (reservations d')"
    "\<forall>s \<in> set ss. \<exists>stamp. settled_as stamp s \<in> set (reservations d')"
    by blast+
  have shift1: "ledger_shift (reservations d) (reservations d1) (ia_owner_user_id a, ia_window_epoch a) None
      (\<lambda>x. settled_delta (fst s) (settled_amount s) x + reserved_delta (fst s) (- res_reserved_amount_atomic (settled_row s)) x)"
    unfolding rs1
    by (rule ledger_shift_cong [OF ledger_shift_replace [OF dist mem(1) tf(1,2,4), unfolded mem(2) cap]])
      (simp add: t settled_contrib [OF st])
  have "d1\<lparr>reservations := rs\<rparr> = d\<lparr>reservations := rs\<rparr>" for rs unfolding d1 by simp
  with IH(1) have "d' = d\<lparr>reservations := reservations d'\<rparr>" by metis
  moreover have "map res_key (reservations d') = map res_key (reservations d)" using IH(2) key1 by simp
  moreover have "ledger_shift (reservations d) (reservations d') (ia_owner_user_id a, ia_window_epoch a) None (settle_delta (s # ss))"
    by (rule ledger_shift_cong [OF ledger_shift_trans [OF shift1 IH(4)]]) (simp add: settle_delta_def)
  moreover have "\<forall>r \<in> set (reservations d'). r \<in> set (reservations d) \<or>
       (\<exists>s \<in> set (s # ss). \<exists>stamp. r = settled_as stamp s \<and> normalize_authoritative_utc now = Inr stamp)"
    using IH(5) stamp t by (fastforce simp: rs1 dest!: in_replace_row)
  moreover have "\<forall>r \<in> set (reservations d). res_key r \<notin> (\<lambda>s. res_key (settled_row s)) ` set (s # ss) \<longrightarrow> r \<in> set (reservations d')"
  proof (intro ballI impI)
    fix r assume "r \<in> set (reservations d)" "res_key r \<notin> (\<lambda>s. res_key (settled_row s)) ` set (s # ss)"
    then have "r \<in> set (reservations d1)" "res_key r \<notin> (\<lambda>s. res_key (settled_row s)) ` set ss"
      unfolding rs1 using tf(1) by (auto intro!: in_replace_other)
    with IH(6) show "r \<in> set (reservations d')" by blast
  qed
  moreover have "t \<in> set (reservations d')"
  proof -
    have "t \<in> set (reservations d1)" unfolding rs1 using mem(1) tf(1) by (intro replaced_in_row) auto
    with IH(6) fresh show ?thesis by (metis (no_types, lifting) imageE)
  qed
  ultimately show ?case using IH(3,7) t by simp blast
qed

definition settle_shifts :: "(resource_kind \<times> reservation_row \<times> int) list \<Rightarrow> (window_counter \<times> int) list" where
  "settle_shifts ss = used_deltas ss @ map (\<lambda>(c, n). (c, - n)) (reserved_decrements ss)"

lemma sums_of_kind:
  "(\<Sum>(k, r, a)\<leftarrow>ss. if k = kind then a else 0) = (\<Sum>s\<leftarrow>ss. if kind = fst s then settled_amount s else 0)"
  "(\<Sum>(k, r, a)\<leftarrow>ss. if k = kind then res_reserved_amount_atomic r else 0) =
     (\<Sum>s\<leftarrow>ss. if kind = fst s then res_reserved_amount_atomic (settled_row s) else 0)"
  by (induction ss) auto

lemma settle_shifts_lookup:
  assumes "\<forall>s \<in> set ss. fst s \<noteq> TOOL_CALL"
  shows "(case map_of (settle_shifts ss) x of None \<Rightarrow> 0 | Some n \<Rightarrow> n) = settle_delta ss x"
proof -
  have tool: "sum_list (map (\<lambda>s. if TOOL_CALL = fst s then f s else (0::int)) ss) = 0" for f
    using assms by (induction ss) auto
  have neg: "(\<Sum>s\<leftarrow>ss. if P s then - f s else (0::int)) = - (\<Sum>s\<leftarrow>ss. if P s then f s else 0)" for P f
    by (induction ss) auto
  show ?thesis
    by (cases x) (simp_all add: settle_shifts_def used_deltas_def reserved_decrements_def settle_delta_def settled_delta_def
        reserved_delta_def counts_reserved_def sums_of_kind tool neg Let_def)
qed

lemma map_of_nonzero:
  "distinct (map fst xs) \<Longrightarrow>
   (case map_of (filter (\<lambda>(c, n). n \<noteq> 0) xs) x of None \<Rightarrow> 0 | Some n \<Rightarrow> n) = (case map_of xs x of None \<Rightarrow> (0::int) | Some n \<Rightarrow> n)"
proof (induction xs)
  case Nil
  then show ?case by simp
next
  case (Cons kv xs)
  obtain k v where kv: "kv = (k, v)" by (cases kv)
  with Cons.prems have "map_of xs k = None" "map_of (filter (\<lambda>(c, n). n \<noteq> 0) xs) k = None"
    by (auto simp: map_of_eq_None_iff rev_image_eqI)
  with Cons kv show ?case by auto
qed

lemma settlement_targets_shift:
  assumes "settlement_targets w ss = Inr targets" "\<forall>s \<in> set ss. fst s \<noteq> TOOL_CALL"
  shows "counter x ((set_counters targets w)\<lparr>win_revision := v\<rparr>) = counter x w + settle_delta ss x"
    "targets = [] \<Longrightarrow> settle_delta ss x = 0"
proof -
  let ?cns = "filter (\<lambda>(c, n). n \<noteq> 0) (settle_shifts ss)"
  have neg: "map (\<lambda>(c, n). (c, counter c w + n)) (filter (\<lambda>(c, n). n \<noteq> 0) (map (\<lambda>(c, n). (c, - n)) ds)) =
      map (\<lambda>(c, n). (c, counter c w - n)) (filter (\<lambda>(c, n). n \<noteq> 0) ds)" for ds
    by (induction ds) auto
  have t: "targets = map (\<lambda>(c, n). (c, counter c w + n)) ?cns"
    using assms(1) by (simp add: settlement_targets_def settle_shifts_def neg)
  have d: "distinct (map fst (settle_shifts ss))"
    by (simp add: settle_shifts_def used_deltas_def reserved_decrements_def Let_def)
  then have "distinct (map fst ?cns)" by (rule distinct_map_filter)
  note val = map_of_nonzero [OF d, of x, unfolded settle_shifts_lookup [OF assms(2)]]
  from counter_shifted [OF \<open>distinct (map fst ?cns)\<close>, of x v w] show "counter x ((set_counters targets w)\<lparr>win_revision := v\<rparr>) = counter x w + settle_delta ss x"
    unfolding t val .
  show "settle_delta ss x = 0" if "targets = []"
  proof -
    from that t have "?cns = []" by simp
    with val show ?thesis by simp
  qed
qed

lemma replace_row_same: "distinct (map k rows) \<Longrightarrow> r \<in> set rows \<Longrightarrow> replace_row k r rows = rows"
  unfolding replace_row_def upd_where_def by (rule map_idI) (auto dest: distinct_key_eq)

lemma settle_attemptE:
  assumes "settle_attempt env n a actuals now d = Inr (u, d')"
  obtains w ss targets d1 where "get_window d (ia_owner_user_id a) (ia_window_epoch a) = Some w"
    "settlements d a actuals (ia_reservation_keys a) = Inr ss" "settlement_targets w ss = Inr targets"
    "if targets = [] then d1 = d
     else \<exists>w'. mutate_window_usage (ia_owner_user_id a) (ia_window_epoch a) (win_revision w) targets d = Inr (w', d1)"
    "settle_rows (ia_owner_user_id a) now ss d1 = Inr d'"
  using assms by (auto simp: settle_attempt_def split: option.splits if_splits)

lemma settle_attempt_charged:
  assumes att: "settle_attempt env n a actuals now d = Inr (u, d')" and inv: "budget_inv d"
    and ok: "inference_admission_ok a d" and act: "map_of actuals TOOL_CALL = None"
  obtains w w' ss where "get_window d (ia_owner_user_id a) (ia_window_epoch a) = Some w"
    "settlements d a actuals (ia_reservation_keys a) = Inr ss" "list_all (settles a d) ss"
    "charged d d' w w' None (settle_delta ss)" "budget_inv d'"
    "map res_key (reservations d') = map res_key (reservations d)"
    "\<forall>r \<in> set (reservations d'). r \<in> set (reservations d) \<or>
       (\<exists>s \<in> set ss. \<exists>stamp. r = settled_as stamp s \<and> normalize_authoritative_utc now = Inr stamp)"
    "\<forall>s \<in> set ss. \<exists>stamp. settled_as stamp s \<in> set (reservations d')"
  using att
proof (rule settle_attemptE)
  let ?owner = "ia_owner_user_id a" and ?epoch = "ia_window_epoch a"
  fix w ss targets d1
  assume w: "get_window d ?owner ?epoch = Some w" and ss: "settlements d a actuals (ia_reservation_keys a) = Inr ss"
    and tg: "settlement_targets w ss = Inr targets"
    and mw: "if targets = [] then d1 = d
      else \<exists>w'. mutate_window_usage ?owner ?epoch (win_revision w) targets d = Inr (w', d1)"
    and sr: "settle_rows ?owner now ss d1 = Inr d'"
  from settlements_settles [OF ss _ act] ok have st: "list_all (settles a d) ss"
    and dist_ss: "distinct (map (\<lambda>s. res_key (settled_row s)) ss)"
    by (auto simp: inference_admission_ok_def)
  then have nt: "\<forall>s \<in> set ss. fst s \<noteq> TOOL_CALL" by (auto simp: list_all_iff settles_def)
  note shift = settlement_targets_shift [OF tg nt]
  from get_window_SomeD [OF w] have wm: "w \<in> set (windows d)" "win_owner_user_id w = ?owner" "win_epoch w = ?epoch"
    by (auto simp: win_key_def)
  have dist: "distinct (map win_key (windows d))" and wok: "window_row_ok w"
    using inv wm(1) by (auto simp: budget_inv_def wf_windows_def list_all_iff)
  obtain w' where w': "win_ident w' = win_ident w" "window_row_ok w'" "\<And>x. counter x w' = counter x w + settle_delta ss x"
    "d1 = d\<lparr>windows := replace_row win_key w' (windows d)\<rparr>"
  proof (cases "targets = []")
    case True
    with mw have "d1 = d" by simp
    moreover have "d = d\<lparr>windows := replace_row win_key w (windows d)\<rparr>" by (simp add: replace_row_same [OF dist wm(1)])
    ultimately show thesis using that [of w] shift(2) [OF True] wok by simp
  next
    case False
    with mw wm obtain w' where "mutate_window_usage ?owner (win_epoch w) (win_revision w) targets d = Inr (w', d1)" by auto
    note m = mutate_window_memberE [OF this dist wm(1,2)]
    show thesis by (rule that [of w']) (use m shift(1) in simp_all)
  qed
  have rs1: "reservations d1 = reservations d" unfolding w'(4) by simp
  have st1: "list_all (settles a d1) ss" using st by (simp add: list_all_iff settles_def rs1)
  have tab: "res_table_ok d (reservations d1)" unfolding rs1 by (rule budget_inv_res_table [OF inv])
  from settle_rows_shift [OF sr st1 dist_ss tab] have R: "d' = d1\<lparr>reservations := reservations d'\<rparr>"
    "map res_key (reservations d') = map res_key (reservations d)" "res_table_ok d (reservations d')"
    "ledger_shift (reservations d) (reservations d') (?owner, ?epoch) None (settle_delta ss)"
    "\<forall>r \<in> set (reservations d'). r \<in> set (reservations d) \<or>
       (\<exists>s \<in> set ss. \<exists>stamp. r = settled_as stamp s \<and> normalize_authoritative_utc now = Inr stamp)"
    "\<forall>s \<in> set ss. \<exists>stamp. settled_as stamp s \<in> set (reservations d')"
    unfolding rs1 by blast+
  have fr: "windows d' = replace_row win_key w' (windows d)" "policies d' = policies d" "accounts d' = accounts d"
    "tool_usage d' = tool_usage d" "receipts d' = receipts d"
    by (subst R(1); simp add: w'(4))+
  have tools: "settle_delta ss tool_calls_used = 0" "settle_delta ss tool_calls_reserved = 0"
    using settle_shifts_lookup [OF nt, of tool_calls_used] settle_shifts_lookup [OF nt, of tool_calls_reserved]
    by (simp_all add: settle_shifts_def used_deltas_def reserved_decrements_def Let_def)
  have ch: "charged d d' w w' None (settle_delta ss)"
    using R(4) wm w' tools fr by (simp add: charged_def tool_row_shift_def) (simp add: win_key_def)
  have "mirrored_ok d'"
  proof -
    have "map res_idempotency_key (reservations d') = map snd (map res_key (reservations d'))" for d' by (simp add: res_key_def)
    then have "map res_idempotency_key (reservations d') = map res_idempotency_key (reservations d)" using R(2) by metis
    then have "res_idempotency_key ` set (reservations d') = res_idempotency_key ` set (reservations d)" by (metis list.set_map)
    moreover have "mirrored_ok x \<longleftrightarrow> (\<forall>k \<in> res_idempotency_key ` set (reservations x). take 8 k = ''ubq2:v1:'' \<longrightarrow>
        ''ubq2b:'' @ drop 8 k \<in> rcp_bridge_receipt_id ` set (receipts x))" for x
      by (simp add: mirrored_ok_def list_all_iff)
    moreover have "mirrored_ok d" using inv by (simp add: budget_inv_def)
    ultimately show ?thesis by (simp only: fr(5))
  qed
  from budget_inv_charge [OF inv ch R(3) this] have inv': "budget_inv d'" .
  show thesis by (rule that [OF w ss st ch inv' R(2) R(5,6)])
qed

end
