(* ===== verification/Inference_Limits.thy ===== *)
theory Inference_Limits
  imports Inference_Ledger Tool_Lifecycle
begin

text \<open>
  The inference quota as a whole: admission under concurrency keeps the ledger invariant and the
  limits, a settlement turns the reservations of a request into exactly the usage the provider
  reported, and repeating either changes nothing.
\<close>

section \<open>Admission\<close>

lemma request_delta_calls:
  assumes "policy_amounts e p = Inr kas"
  shows "request_delta kas tool_calls_used + request_delta kas tool_calls_reserved = 0"
    "request_delta kas inference_used + request_delta kas inference_reserved = 1"
  by (rule policy_amounts_Inr [OF assms]; auto simp: reserved_delta_def counts_reserved_def)+

lemma admit_inference_quota:
  assumes adm: "admit_inference owner account c fp e now d = Inr (a, d')" and inv: "budget_inv d" and ok: "quota_ok d"
    and fresh: "\<And>k. get_reservation d owner (inference_key (ic_logical_request_id c) k) = None"
  shows "quota_ok d'"
  using adm inv fresh
proof (rule admit_inference_charged)
  fix w d1 p kas pin pout rs w'
  assume aw: "admission_window owner account now d = Inr (w, d1)" and inv1: "budget_inv d1" and act: "active_window d1 owner = Some w"
    and p: "canonical_policy owner w d1 = Inr p" and kas: "policy_amounts e p = Inr kas"
    and lim: "check_limits p w e pin pout (amount_of COMPUTE_UNIT kas) (amount_of COST_USD kas) = Inr ()"
    and ch: "charged d1 d' w w' None (request_delta kas)"
  have ok1: "quota_ok d1" using admission_window_inv [OF aw inv] ok inv by (auto intro: rollover_quota)
  have w: "w \<in> set (windows d1)" using active_window_SomeD [OF act] by auto
  have keys: "distinct (map win_key (windows d1))" using inv1 by (auto simp: budget_inv_def wf_windows_def)
  note pol = policy_unique [OF inv1 w p]
  show ?thesis
  proof (rule charged_quota [OF ch ok1 keys], unfold request_delta_calls [OF kas])
    show "window_within pol_max_tool_calls_total (policies d1) w (win_tool_calls_used w + win_tool_calls_reserved w + 0)"
      using quota_ok_window [OF ok1 w] by simp
    show "window_within pol_max_inference_calls (policies d1) w (win_inference_used w + win_inference_reserved w + 1)"
      using lim pol by (auto simp: check_limits_def window_within_def over_quota_def list_all_iff)
  qed simp
qed

lemma charged_window_row:
  assumes "charged d d' w w' cap \<delta>"
  shows "w' \<in> set (windows d')" "win_key w' = win_key w" "exact_policy w' = exact_policy w" "policies d' = policies d"
    "counter c w' = counter c w + \<delta> c"
proof -
  from assms have id: "win_ident w' = win_ident w" and rest: "w \<in> set (windows d)" "windows d' = replace_row win_key w' (windows d)"
    "policies d' = policies d" "counter c w' = counter c w + \<delta> c" by (auto simp: charged_def)
  then show key: "win_key w' = win_key w" "exact_policy w' = exact_policy w"
    by (auto simp: win_ident_def win_key_def exact_policy_def fun_eq_iff)
  with rest show "w' \<in> set (windows d')" by (force simp: replace_row_def set_upd_where)
  show "policies d' = policies d" "counter c w' = counter c w + \<delta> c" by (rule rest)+
qed

text \<open>Every limit of a policy, on what is used and reserved.\<close>

definition within_limits :: "db \<Rightarrow> window_row \<Rightarrow> policy_row \<Rightarrow> bool" where
  "within_limits d w p \<longleftrightarrow>
     (let reserved = (\<lambda>kind. sum_where (pending (win_owner_user_id w) (win_epoch w) kind) res_reserved_amount_atomic (reservations d)) in
      \<not> exceeds (pol_max_inference_calls p) (win_inference_used w + win_inference_reserved w) \<and>
      \<not> exceeds (pol_max_input_tokens p) (win_input_tokens_used w + reserved INPUT_TOKEN) \<and>
      \<not> exceeds (pol_max_output_tokens p) (win_output_tokens_used w + reserved OUTPUT_TOKEN) \<and>
      \<not> exceeds (pol_max_total_tokens p) (win_total_tokens_used w + win_tokens_reserved w) \<and>
      \<not> exceeds (pol_max_compute_atomic p) (win_compute_used_atomic w + win_compute_reserved_atomic w) \<and>
      \<not> exceeds (pol_max_cost_usd_atomic p) (win_cost_used_atomic w + win_cost_reserved_atomic w))"

definition request_within :: "inference_admission \<Rightarrow> db \<Rightarrow> bool" where
  "request_within a d \<longleftrightarrow>
     list_ex (\<lambda>w. win_key w = (ia_owner_user_id a, ia_window_epoch a) \<and>
       list_all (\<lambda>p. exact_policy w p \<longrightarrow> within_limits d w p) (policies d)) (windows d)"

lemma pending_of_request:
  "list_all2 (reserves owner epoch c fp) kas rs \<Longrightarrow> distinct (map fst kas) \<Longrightarrow>
   sum_where (pending owner epoch kind) res_reserved_amount_atomic rs = amount_of kind kas"
proof (induction rule: list_all2_induct)
  case Nil
  then show ?case by (simp add: amount_of_def)
next
  case (Cons ka kas r rs)
  note f = reserves_fields [OF Cons(1)]
  have own: "res_owner_user_id r = owner" "res_window_epoch r = epoch" using f(1) by (simp_all add: res_win_def)
  have "amount_of kind kas = 0" if "kind = fst ka"
    using Cons.prems that by (simp add: amount_of_def map_of_eq_None_iff [THEN iffD2])
  with Cons own f show ?case by (cases ka) (auto simp: pending_def amount_of_def)
qed

lemma request_delta_counters:
  assumes "policy_amounts e p = Inr kas"
  shows "request_delta kas input_tokens_used = 0" "request_delta kas output_tokens_used = 0" "request_delta kas total_tokens_used = 0"
    "request_delta kas compute_used_atomic = 0" "request_delta kas cost_used_atomic = 0"
    "request_delta kas tokens_reserved = est_total_tokens e" "request_delta kas inference_used = 0" "request_delta kas inference_reserved = 1"
    "request_delta kas compute_reserved_atomic = amount_of COMPUTE_UNIT kas" "request_delta kas cost_reserved_atomic = amount_of COST_USD kas"
    "amount_of INPUT_TOKEN kas = est_input_tokens e" "amount_of OUTPUT_TOKEN kas = est_output_tokens e"
  by (rule policy_amounts_Inr [OF assms]; auto simp: reserved_delta_def counts_reserved_def amount_of_def)+

lemma admit_inference_within:
  assumes adm: "admit_inference owner account c fp e now d = Inr (a, d')" and inv: "budget_inv d"
    and fresh: "\<And>k. get_reservation d owner (inference_key (ic_logical_request_id c) k) = None"
  shows "request_within a d'"
  using adm inv fresh
proof (rule admit_inference_charged)
  fix w d1 p kas pin pout rs w'
  assume aw: "admission_window owner account now d = Inr (w, d1)" and inv1: "budget_inv d1" and act: "active_window d1 owner = Some w"
    and p: "canonical_policy owner w d1 = Inr p" and kas: "policy_amounts e p = Inr kas"
    and pend: "sum_pending_reservation_amount d1 owner (win_epoch w) INPUT_TOKEN = Inr pin"
      "sum_pending_reservation_amount d1 owner (win_epoch w) OUTPUT_TOKEN = Inr pout"
    and lim: "check_limits p w e pin pout (amount_of COMPUTE_UNIT kas) (amount_of COST_USD kas) = Inr ()"
    and ch: "charged d1 d' w w' None (request_delta kas)"
    and rs: "reservations d' = reservations d @ rs" "list_all2 (reserves owner (win_epoch w) c fp) kas rs"
    and a: "a = \<lparr>ia_owner_user_id = owner, ia_logical_request_id = ic_logical_request_id c, ia_logical_request_fingerprint = fp,
          ia_window_epoch = win_epoch w,
          ia_reservation_keys = map (\<lambda>ka. (kind_value (fst ka), inference_key (ic_logical_request_id c) (fst ka))) kas,
          ia_replayed = False, ia_inference_reservation_state = RESERVED\<rparr>"
  have w: "w \<in> set (windows d1)" "win_owner_user_id w = owner" using active_window_SomeD [OF act] by auto
  have rs1: "reservations d1 = reservations d" using admission_window_inv [OF aw inv] rollover_window_reservations inv by metis
  from ch have w': "w' \<in> set (windows d')" "win_key w' = win_key w" "exact_policy w' = exact_policy w" "policies d' = policies d1"
    and cnt: "\<And>c. counter c w' = counter c w + request_delta kas c"
    using charged_window_row [OF ch] by simp_all
  have sum': "sum_where (pending owner (win_epoch w) kind) res_reserved_amount_atomic (reservations d') =
      sum_where (pending owner (win_epoch w) kind) res_reserved_amount_atomic (reservations d1) + amount_of kind kas" for kind
    using pending_of_request [OF rs(2) policy_amounts_kinds(1) [OF kas]] by (simp add: rs(1) rs1)
  note d = request_delta_counters [OF kas]
  have vals: "win_inference_used w' + win_inference_reserved w' = win_inference_used w + win_inference_reserved w + 1"
    "win_input_tokens_used w' = win_input_tokens_used w" "win_output_tokens_used w' = win_output_tokens_used w"
    "win_total_tokens_used w' + win_tokens_reserved w' = win_total_tokens_used w + win_tokens_reserved w + est_total_tokens e"
    "win_compute_used_atomic w' + win_compute_reserved_atomic w' =
      win_compute_used_atomic w + win_compute_reserved_atomic w + amount_of COMPUTE_UNIT kas"
    "win_cost_used_atomic w' + win_cost_reserved_atomic w' = win_cost_used_atomic w + win_cost_reserved_atomic w + amount_of COST_USD kas"
    using cnt [of inference_used] cnt [of inference_reserved] cnt [of input_tokens_used] cnt [of output_tokens_used]
      cnt [of total_tokens_used] cnt [of tokens_reserved] cnt [of compute_used_atomic] cnt [of compute_reserved_atomic]
      cnt [of cost_used_atomic] cnt [of cost_reserved_atomic] by (simp_all add: d)
  have pin: "pin = sum_where (pending owner (win_epoch w) INPUT_TOKEN) res_reserved_amount_atomic (reservations d1)"
    "pout = sum_where (pending owner (win_epoch w) OUTPUT_TOKEN) res_reserved_amount_atomic (reservations d1)"
    using pend by (auto simp: sum_pending_reservation_amount_def require_atomic_counter_def split: if_splits)
  have key: "win_owner_user_id w' = owner" "win_epoch w' = win_epoch w" using w'(2) w(2) by (simp_all add: win_key_def)
  have "within_limits d' w' q" if "q \<in> set (policies d1)" "exact_policy w q" for q
    using lim policy_unique [OF inv1 w(1) p that] unfolding check_limits_def within_limits_def Let_def key sum' vals d
    by (simp add: pin add.assoc)
  with w' w(2) show ?thesis by (auto simp: request_within_def a list_ex_iff list_all_iff win_key_def)
qed

text \<open>
  The reservations of a request are written in one transaction, so a request that has any of them
  has the one of its inference call. That is what the admission path checks.
\<close>

definition whole_request :: "string \<Rightarrow> db \<Rightarrow> bool" where
  "whole_request L d \<longleftrightarrow>
     (\<forall>owner k. (owner, inference_key L k) \<in> res_key ` set (reservations d) \<longrightarrow>
       (owner, inference_key L INFERENCE_CALL) \<in> res_key ` set (reservations d))"

definition separate_requests :: "string set \<Rightarrow> bool" where
  "separate_requests Ls \<longleftrightarrow> (\<forall>L \<in> Ls. \<forall>L' \<in> Ls. \<forall>k k'. inference_key L k = inference_key L' k' \<longrightarrow> L = L')"

definition requests_inv :: "string set \<Rightarrow> db \<Rightarrow> bool" where
  "requests_inv Ls d \<longleftrightarrow> quota_inv d \<and> (\<forall>L \<in> Ls. whole_request L d)"

lemma get_reservation_None: "get_reservation d owner key = None \<longleftrightarrow> (owner, key) \<notin> res_key ` set (reservations d)"
  unfolding get_reservation_def find_None_iff by (auto simp: rev_image_eqI)

lemma whole_request_cong:
  "res_key ` set (reservations d') = res_key ` set (reservations d) \<Longrightarrow> whole_request L d' = whole_request L d"
  by (simp add: whole_request_def)

lemma whole_request_admitted:
  assumes "whole_request L d" "reservations d' = reservations d @ rs" "list_all2 (reserves owner epoch c fp) kas rs"
    and "INFERENCE_CALL \<in> fst ` set kas" "separate_requests Ls" "L \<in> Ls" "ic_logical_request_id c \<in> Ls"
  shows "whole_request L d'"
  unfolding whole_request_def
proof (intro allI impI)
  fix o' k assume k: "(o', inference_key L k) \<in> res_key ` set (reservations d')"
  show "(o', inference_key L INFERENCE_CALL) \<in> res_key ` set (reservations d')"
  proof (cases "(o', inference_key L k) \<in> res_key ` set (reservations d)")
    case True
    with assms(1,2) show ?thesis by (auto simp: whole_request_def)
  next
    case False
    with k assms(2) obtain r where r: "r \<in> set rs" "res_key r = (o', inference_key L k)" by auto
    from list_all2_memberR [OF assms(3) r(1)] obtain ka where "reserves owner epoch c fp ka r" by blast
    with r(2) have o': "o' = owner" "inference_key L k = inference_key (ic_logical_request_id c) (fst ka)"
      by (simp_all add: reserves_fields)
    with assms(5-7) have L: "L = ic_logical_request_id c" unfolding separate_requests_def by blast
    from assms(4) obtain kb where kb: "kb \<in> set kas" "fst kb = INFERENCE_CALL" by auto
    from list_all2_memberL [OF assms(3) kb(1)] obtain r' where "r' \<in> set rs" "reserves owner epoch c fp kb r'" by blast
    with kb(2) L o'(1) have "r' \<in> set (reservations d')" "res_key r' = (o', inference_key L INFERENCE_CALL)"
      using assms(2) by (simp_all add: reserves_fields)
    then show ?thesis by (metis image_eqI)
  qed
qed

lemma admit_inference_requests:
  assumes adm: "admit_inference owner account c fp e now d = Inr (a, d')" and inv: "requests_inv Ls d"
    and sep: "separate_requests Ls" "ic_logical_request_id c \<in> Ls"
    and free: "get_reservation d owner (inference_key (ic_logical_request_id c) INFERENCE_CALL) = None"
  shows "requests_inv Ls d' \<and> inference_admission_ok a d' \<and> request_within a d'"
proof -
  have inv': "budget_inv d" "quota_ok d" "\<forall>L \<in> Ls. whole_request L d" using inv by (auto simp: requests_inv_def quota_inv_def)
  have fresh: "get_reservation d owner (inference_key (ic_logical_request_id c) k) = None" for k
    using free inv'(3) sep(2) unfolding get_reservation_None whole_request_def by blast
  have quota: "quota_ok d'" by (rule admit_inference_quota [OF adm inv'(1,2) fresh])
  have within: "request_within a d'" by (rule admit_inference_within [OF adm inv'(1) fresh])
  from adm inv'(1) fresh show ?thesis
  proof (rule admit_inference_charged)
    fix w d1 p kas pin pout rs w'
    assume kas: "policy_amounts e p = Inr kas" and inv1: "budget_inv d'"
      and rs: "reservations d' = reservations d @ rs" "list_all2 (reserves owner (win_epoch w) c fp) kas rs"
      and a: "a = \<lparr>ia_owner_user_id = owner, ia_logical_request_id = ic_logical_request_id c, ia_logical_request_fingerprint = fp,
          ia_window_epoch = win_epoch w,
          ia_reservation_keys = map (\<lambda>ka. (kind_value (fst ka), inference_key (ic_logical_request_id c) (fst ka))) kas,
          ia_replayed = False, ia_inference_reservation_state = RESERVED\<rparr>"
    have "inference_admission_ok a d'"
      by (rule admitted_ok [OF rs(2) kas rs(1)]) (use inv1 a in \<open>auto simp: budget_inv_def wf_reservations_def\<close>)
    moreover have "whole_request L d'" if "L \<in> Ls" for L
      by (rule whole_request_admitted [OF _ rs policy_amounts_kinds(2) [OF kas] sep(1) that sep(2)]) (use inv'(3) that in blast)
    ultimately show ?thesis using inv1 quota within by (simp add: requests_inv_def quota_inv_def)
  qed
qed

definition requests_env_ok :: "string set \<Rightarrow> tx_env \<Rightarrow> bool" where
  "requests_env_ok Ls env \<longleftrightarrow>
     (\<forall>i d. requests_inv Ls d \<longrightarrow> requests_inv Ls (others env i d) \<and> requests_inv Ls (lock_wait env i d))"

lemma inference_attempt_inv:
  assumes att: "inference_attempt env n c fp e now d = Inr (m, d')" and inv: "requests_inv Ls d"
    and env: "requests_env_ok Ls env" and sep: "separate_requests Ls" "ic_logical_request_id c \<in> Ls"
  shows "requests_inv Ls d' \<and> (\<forall>a. m = Some a \<longrightarrow> inference_admission_ok a d' \<and> (ia_replayed a \<or> request_within a d') \<and>
    ia_logical_request_id a = ic_logical_request_id c \<and> ia_logical_request_fingerprint a = fp)"
proof -
  let ?k = "inference_key (ic_logical_request_id c) INFERENCE_CALL"
  have inv0: "requests_inv Ls (lock_wait env n d)" using inv env by (simp add: requests_env_ok_def)
  from att obtain owner where owner: "resolve_inference_owner d c = Inr owner"
    by (auto simp: inference_attempt_def split: option.splits)
  show ?thesis
  proof (cases "get_reservation d owner ?k")
    case (Some existing)
    with att owner obtain a where "replay_inference owner c fp e existing d = Inr a" "m = Some a" "d' = d"
      by (auto simp: inference_attempt_def Let_def split: option.splits)
    with inv replayed_ok show ?thesis by auto
  next
    case None
    show ?thesis
    proof (cases "get_reservation (lock_wait env n d) owner ?k")
      case Some2: (Some r)
      with att owner None have "m = None" "d' = lock_wait env n d"
        by (auto simp: inference_attempt_def Let_def split: option.splits if_splits)
      with inv0 show ?thesis by simp
    next
      case None2: None
      with att owner None obtain account a where m: "m = Some a" and
        adm: "admit_inference owner account c fp e now (lock_wait env n d) = Inr (a, d')"
        by (auto simp: inference_attempt_def Let_def split: option.splits if_splits)
      then have "ia_logical_request_id a = ic_logical_request_id c" "ia_logical_request_fingerprint a = fp"
        by (auto elim: admit_inferenceE)
      with admit_inference_requests [OF adm inv0 sep None2] m show ?thesis by simp
    qed
  qed
qed

lemma inference_loop_inv:
  assumes "\<And>i s. I s \<Longrightarrow> I (oth i s)"
    and "\<And>i s m s'. I s \<Longrightarrow> attempt i s = Inr (m, s') \<Longrightarrow> I s' \<and> (\<forall>a. m = Some a \<longrightarrow> Q a s')"
    and "I d" "inference_loop oth attempt i n d = (r, d')"
  shows "I d' \<and> (\<forall>a. r = Inr a \<longrightarrow> Q a d')"
  using assms(3,4)
proof (induction n arbitrary: i d)
  case 0
  then show ?case by auto
next
  case (Suc n)
  have I0: "I (oth i d)" by (rule assms(1) [OF Suc.prems(1)])
  show ?case
  proof (cases "attempt i (oth i d)")
    case (Inl x)
    with Suc I0 show ?thesis by (auto simp: Let_def split: if_splits)
  next
    case (Inr ms)
    obtain m s where ms: "ms = (m, s)" by (cases ms)
    with assms(2) [OF I0] Inr have "I s \<and> (\<forall>a. m = Some a \<longrightarrow> Q a s)" by simp
    with Suc Inr ms show ?thesis by (cases m) (auto simp: Let_def)
  qed
qed

section \<open>Settlement\<close>

lemma settlements_cover:
  assumes "settlements d a actuals keys = Inr ss" "(kind_name, key) \<in> set keys"
  shows "\<exists>kind row m. kind_of_value kind_name = Inr kind \<and> get_reservation d (ia_owner_user_id a) key = Some row \<and>
    map_of actuals kind = Some m \<and> same_request row (ia_logical_request_id a) (ia_logical_request_fingerprint a) \<and>
    (\<forall>x. m = Some x \<longrightarrow> 0 \<le> x \<and>
      (res_state row = SETTLED \<and> (case res_settled_amount_atomic row of None \<Rightarrow> 0 | Some y \<Rightarrow> y) = x \<or> (kind, row, x) \<in> set ss))"
  using assms
proof (induction keys arbitrary: ss)
  case Nil
  then show ?case by simp
next
  case (Cons kk keys)
  obtain kn k where kk: "kk = (kn, k)" by (cases kk)
  show ?case
    using Cons.prems(1) [unfolded kk]
  proof (rule settlements_ConsE)
    fix kind row m step rest
    assume r: "kind_of_value kn = Inr kind" "get_reservation d (ia_owner_user_id a) k = Some row" "map_of actuals kind = Some m"
      "same_request row (ia_logical_request_id a) (ia_logical_request_fingerprint a)"
      and rest: "settlements d a actuals keys = Inr rest" and ss: "ss = step @ rest"
      and step: "case m of None \<Rightarrow> step = []
       | Some x \<Rightarrow> 0 \<le> x \<and> (if res_state row = SETTLED
           then (case res_settled_amount_atomic row of None \<Rightarrow> 0 | Some y \<Rightarrow> y) = x \<and> step = []
           else res_state row = RESERVED \<and> step = [(kind, row, x)])"
    show ?thesis
    proof (cases "(kind_name, key) = kk")
      case True
      with r kk ss step show ?thesis by (auto split: option.splits if_splits)
    next
      case False
      with Cons.prems(2) have "(kind_name, key) \<in> set keys" by simp
      from Cons.IH [OF rest this] ss show ?thesis by (metis UnCI set_append)
    qed
  qed
qed

lemma settlements_actual:
  "settlements d a actuals keys = Inr ss \<Longrightarrow> s \<in> set ss \<Longrightarrow> map_of actuals (fst s) = Some (Some (settled_amount s))"
proof (induction keys arbitrary: ss)
  case (Cons kk keys)
  obtain kn k where kk: "kk = (kn, k)" by (cases kk)
  from Cons.prems(1) [unfolded kk] Cons.prems(2) Cons.IH show ?case
    by (elim settlements_ConsE) (auto split: option.splits if_splits)
qed simp

text \<open>What the row of a settled reservation must be, by the usage that was reported.\<close>

definition settled_to :: "(resource_kind \<times> int option) list \<Rightarrow> reservation_row option \<Rightarrow> bool" where
  "settled_to actuals m \<longleftrightarrow>
     (case m of None \<Rightarrow> False
      | Some r \<Rightarrow> (case map_of actuals (res_resource_kind r) of
          Some (Some x) \<Rightarrow> res_state r = SETTLED \<and> res_settled_amount_atomic r = Some x
        | Some None \<Rightarrow> True
        | None \<Rightarrow> False))"

definition request_settled :: "(resource_kind \<times> int option) list \<Rightarrow> inference_admission \<Rightarrow> db \<Rightarrow> bool" where
  "request_settled actuals a d \<longleftrightarrow>
     list_all (\<lambda>(kind_name, key). settled_to actuals (get_reservation d (ia_owner_user_id a) key)) (ia_reservation_keys a)"

lemma get_reservation_unique:
  "distinct (map res_key (reservations d)) \<Longrightarrow> r \<in> set (reservations d) \<Longrightarrow> res_key r = (owner, key) \<Longrightarrow>
   get_reservation d owner key = Some r"
  using find_key [of res_key "reservations d" r] by (simp add: get_reservation_def)

lemma settle_delta_calls:
  assumes "settlements d a actuals keys = Inr ss" "list_all (settles a d) ss" "map_of actuals INFERENCE_CALL = Some (Some 1)"
  shows "settle_delta ss tool_calls_used + settle_delta ss tool_calls_reserved = 0"
    "settle_delta ss inference_used + settle_delta ss inference_reserved = 0"
proof -
  have "settled_delta (fst s) (settled_amount s) tool_calls_used = 0 \<and>
      reserved_delta (fst s) (- res_reserved_amount_atomic (settled_row s)) tool_calls_used = 0 \<and>
      settled_delta (fst s) (settled_amount s) tool_calls_reserved = 0 \<and>
      reserved_delta (fst s) (- res_reserved_amount_atomic (settled_row s)) tool_calls_reserved = 0 \<and>
      settled_delta (fst s) (settled_amount s) inference_used + reserved_delta (fst s) (- res_reserved_amount_atomic (settled_row s)) inference_used +
      (settled_delta (fst s) (settled_amount s) inference_reserved +
       reserved_delta (fst s) (- res_reserved_amount_atomic (settled_row s)) inference_reserved) = 0" if "s \<in> set ss" for s
    using settlements_actual [OF assms(1) that] assms(2,3) that
    by (auto simp: list_all_iff settles_def settled_delta_def reserved_delta_def counts_reserved_def)
  note each = this
  show "settle_delta ss tool_calls_used + settle_delta ss tool_calls_reserved = 0"
    by (simp add: settle_delta_def each cong: map_cong)
  show "settle_delta ss inference_used + settle_delta ss inference_reserved = 0"
    unfolding settle_delta_def sum_list_addf [symmetric] by (simp add: each cong: map_cong)
qed

lemma settlement_actuals_calls:
  "settlement_actuals usage = Inr actuals \<Longrightarrow> map_of actuals TOOL_CALL = None \<and> map_of actuals INFERENCE_CALL = Some (Some 1)"
  by (auto simp: settlement_actuals_def)

text \<open>How a settlement rewrites the reservations: the entries become settled and nothing else changes.\<close>

definition settled_rows :: "db \<Rightarrow> db \<Rightarrow> (resource_kind \<times> reservation_row \<times> int) list \<Rightarrow> bool" where
  "settled_rows d d' ss \<longleftrightarrow>
     map res_key (reservations d') = map res_key (reservations d) \<and>
     (\<forall>r \<in> set (reservations d'). r \<in> set (reservations d) \<or> (\<exists>s \<in> set ss. \<exists>stamp. r = settled_as stamp s)) \<and>
     (\<forall>s \<in> set ss. \<exists>stamp. settled_as stamp s \<in> set (reservations d'))"

lemma settled_row_cases:
  assumes rows: "settled_rows d d' ss" and st: "list_all (settles a d) ss" and inv: "budget_inv d" "budget_inv d'"
    and row: "get_reservation d owner key = Some row"
  obtains (kept) "get_reservation d' owner key = Some row" "row \<in> set (reservations d')"
      "\<And>s. s \<in> set ss \<Longrightarrow> settled_row s \<noteq> row"
  | (settled) s t where "get_reservation d' owner key = Some (settled_as t s)" "s \<in> set ss" "settled_row s = row"
proof -
  have dist: "distinct (map res_key (reservations d))" "distinct (map res_key (reservations d'))"
    using inv by (auto simp: budget_inv_def wf_reservations_def)
  from get_reservation_SomeD [OF row] have mem: "row \<in> set (reservations d)" "res_key row = (owner, key)" by auto
  have "(owner, key) \<in> set (map res_key (reservations d'))"
    using rows mem unfolding settled_rows_def by (metis image_eqI set_map)
  then obtain r where r: "r \<in> set (reservations d')" "res_key r = (owner, key)" by auto
  note found = get_reservation_unique [OF dist(2) r]
  have same: "settled_row s = row" if "s \<in> set ss" "res_key (settled_row s) = (owner, key)" for s
    using st that mem dist(1) by (auto simp: list_all_iff settles_def dest: distinct_key_eq)
  from rows r(1) consider "r \<in> set (reservations d)" | s t where "s \<in> set ss" "r = settled_as t s"
    by (auto simp: settled_rows_def)
  then show thesis
  proof cases
    case 1
    with mem r(2) dist(1) have eq: "r = row" by (auto dest: distinct_key_eq)
    have "settled_row s \<noteq> row" if s: "s \<in> set ss" for s
    proof
      assume "settled_row s = row"
      moreover from rows s obtain t where t: "settled_as t s \<in> set (reservations d')" by (auto simp: settled_rows_def)
      ultimately have "settled_as t s = row" using dist(2) r eq by (auto simp: settled_as_fields dest: distinct_key_eq)
      then have "res_state row = SETTLED" using settled_as_fields(8) [of t s] by simp
      moreover have "res_state row = RESERVED" using st s \<open>settled_row s = row\<close> by (auto simp: list_all_iff settles_def)
      ultimately show False by simp
    qed
    with found eq r(1) show thesis by (intro kept) auto
  next
    case (2 s t)
    with r(2) same [of s] found show thesis by (intro settled [of t s]) (auto simp: settled_as_fields)
  qed
qed

lemma settled_key:
  assumes rows: "settled_rows d d' ss" and st: "list_all (settles a d) ss" and inv: "budget_inv d" "budget_inv d'"
    and ss: "settlements d a actuals (ia_reservation_keys a) = Inr ss" and ok: "inference_admission_ok a d"
    and k: "(kn, key) \<in> set (ia_reservation_keys a)"
  obtains r where "get_reservation d' (ia_owner_user_id a) key = Some r" "reservation_as a kn (Some r)" "settled_to actuals (Some r)"
    "same_request r (ia_logical_request_id a) (ia_logical_request_fingerprint a)"
proof -
  from settlements_cover [OF ss k] obtain kind row m where row: "kind_of_value kn = Inr kind"
    "get_reservation d (ia_owner_user_id a) key = Some row" "map_of actuals kind = Some m"
    and same: "same_request row (ia_logical_request_id a) (ia_logical_request_fingerprint a)"
    and fin: "\<And>x. m = Some x \<Longrightarrow> res_state row = SETTLED \<and> (case res_settled_amount_atomic row of None \<Rightarrow> 0 | Some y \<Rightarrow> y) = x \<or>
      (kind, row, x) \<in> set ss" by metis
  from ok k row(2) have as: "reservation_as a kn (Some row)" by (auto simp: inference_admission_ok_def list_all_iff)
  with kind_of_value_Inr [OF row(1)] have kind: "res_resource_kind row = kind" by (auto simp: reservation_as_def)
  from rows st inv row(2) show thesis
  proof (cases rule: settled_row_cases)
    case kept
    with inv(2) have "reservation_row_ok row" by (auto simp: budget_inv_def wf_reservations_def list_all_iff)
    moreover have "(kind, row, x) \<notin> set ss" for x using kept(3) [of "(kind, row, x)"] by auto
    ultimately have "res_state row = SETTLED \<and> res_settled_amount_atomic row = Some x" if "m = Some x" for x
      using fin [OF that] by (auto simp: reservation_row_ok_def)
    with as kind row(3) kept same show thesis by (intro that [of row]) (cases m; simp add: settled_to_def)+
  next
    case (settled s t)
    have "fst s = kind" using st settled kind by (auto simp: list_all_iff settles_def)
    with settlements_actual [OF ss settled(2)] as settled kind same show thesis
      by (intro that [of "settled_as t s"])
        (simp_all add: settled_to_def reservation_as_def settled_as_fields same_request_def, simp_all add: settled_as_def)
  qed
qed

lemma settle_attempt_settled:
  assumes att: "settle_attempt env n a actuals now d = Inr (u, d')" and inv: "quota_inv d" and ok: "inference_admission_ok a d"
    and act: "settlement_actuals usage = Inr actuals"
  obtains ss where "settlements d a actuals (ia_reservation_keys a) = Inr ss" "list_all (settles a d) ss" "settled_rows d d' ss"
    "quota_inv d'" "get_window d' (ia_owner_user_id a) (ia_window_epoch a) \<noteq> None"
proof -
  have binv: "budget_inv d" "quota_ok d" using inv by (simp_all add: quota_inv_def)
  note calls = settlement_actuals_calls [OF act]
  from settle_attempt_charged [OF att binv(1) ok conjunct1 [OF calls]] obtain w w' ss where
    w: "get_window d (ia_owner_user_id a) (ia_window_epoch a) = Some w"
    and ss: "settlements d a actuals (ia_reservation_keys a) = Inr ss" and st: "list_all (settles a d) ss"
    and ch: "charged d d' w w' None (settle_delta ss)" and inv': "budget_inv d'"
    and keys: "map res_key (reservations d') = map res_key (reservations d)"
    and rows: "\<forall>r \<in> set (reservations d'). r \<in> set (reservations d) \<or>
       (\<exists>s \<in> set ss. \<exists>stamp. r = settled_as stamp s \<and> normalize_authoritative_utc now = Inr stamp)"
    and new: "\<forall>s \<in> set ss. \<exists>stamp. settled_as stamp s \<in> set (reservations d')" .
  have "quota_ok d'"
    by (rule charged_quota_decreasing [OF ch binv(2)])
      (use binv(1) settle_delta_calls [OF ss st conjunct2 [OF calls]] in \<open>auto simp: budget_inv_def wf_windows_def\<close>)
  moreover have "settled_rows d d' ss" unfolding settled_rows_def using keys rows new by blast
  moreover have "get_window d' (ia_owner_user_id a) (ia_window_epoch a) \<noteq> None"
    using charged_window_row(1,2) [OF ch] get_window_SomeD [OF w] unfolding get_window_def find_None_iff win_key_def by auto
  ultimately show thesis using that ss st inv' by (simp add: quota_inv_def)
qed

lemma request_settled_after:
  assumes "settlements d a actuals (ia_reservation_keys a) = Inr ss" "list_all (settles a d) ss" "settled_rows d d' ss"
    and "quota_inv d" "quota_inv d'" "inference_admission_ok a d"
  shows "inference_admission_ok a d'" "request_settled actuals a d'"
    "list_all (\<lambda>(kn, key). case get_reservation d' (ia_owner_user_id a) key of None \<Rightarrow> False
       | Some r \<Rightarrow> same_request r (ia_logical_request_id a) (ia_logical_request_fingerprint a)) (ia_reservation_keys a)"
proof -
  have inv: "budget_inv d" "budget_inv d'" using assms(4,5) by (simp_all add: quota_inv_def)
  have "reservation_as a kn (get_reservation d' (ia_owner_user_id a) key) \<and> settled_to actuals (get_reservation d' (ia_owner_user_id a) key) \<and>
      (case get_reservation d' (ia_owner_user_id a) key of None \<Rightarrow> False
       | Some r \<Rightarrow> same_request r (ia_logical_request_id a) (ia_logical_request_fingerprint a))"
    if "(kn, key) \<in> set (ia_reservation_keys a)" for kn key
    by (rule settled_key [OF assms(3,2) inv assms(1,6) that]) simp
  with assms(6) show "inference_admission_ok a d'" "request_settled actuals a d'"
    "list_all (\<lambda>(kn, key). case get_reservation d' (ia_owner_user_id a) key of None \<Rightarrow> False
       | Some r \<Rightarrow> same_request r (ia_logical_request_id a) (ia_logical_request_fingerprint a)) (ia_reservation_keys a)"
    by (auto simp: inference_admission_ok_def request_settled_def list_all_iff)
qed

lemma settlements_done:
  assumes "list_all (\<lambda>(kn, key). case get_reservation d (ia_owner_user_id a) key of None \<Rightarrow> False
       | Some r \<Rightarrow> same_request r (ia_logical_request_id a) (ia_logical_request_fingerprint a)) keys"
    and "list_all (\<lambda>(kn, key). settled_to actuals (get_reservation d (ia_owner_user_id a) key)) keys"
    and "list_all (\<lambda>(kn, key). reservation_as a kn (get_reservation d (ia_owner_user_id a) key)) keys"
    and "\<forall>(kn, key) \<in> set keys. \<forall>k x. kind_of_value kn = Inr k \<longrightarrow> map_of actuals k = Some (Some x) \<longrightarrow> 0 \<le> x"
  shows "settlements d a actuals keys = Inr []"
  using assms
proof (induction keys)
  case (Cons kk keys)
  obtain kn key where kk: "kk = (kn, key)" by (cases kk)
  with Cons.prems obtain r where r: "get_reservation d (ia_owner_user_id a) key = Some r"
    "same_request r (ia_logical_request_id a) (ia_logical_request_fingerprint a)" "kn = kind_value (res_resource_kind r)"
    "settled_to actuals (Some r)"
    by (auto simp: reservation_as_def split: option.splits)
  then have "kind_of_value kn = Inr (res_resource_kind r)" by simp
  moreover obtain m where m: "map_of actuals (res_resource_kind r) = Some m"
    "\<And>x. m = Some x \<Longrightarrow> res_state r = SETTLED \<and> res_settled_amount_atomic r = Some x"
    using r(4) by (auto simp: settled_to_def split: option.splits)
  moreover have "settlements d a actuals keys = Inr []" using Cons kk by simp
  ultimately show ?case using r Cons.prems(4) kk by (cases m) auto
qed simp

lemma settlement_nonneg:
  "settlements d a actuals keys = Inr ss \<Longrightarrow> (kn, key) \<in> set keys \<Longrightarrow> kind_of_value kn = Inr k \<Longrightarrow>
   map_of actuals k = Some (Some x) \<Longrightarrow> 0 \<le> x"
  by (drule (1) settlements_cover) auto

section \<open>The retried settlement\<close>

definition settle_env_ok :: "inference_admission \<Rightarrow> tx_env \<Rightarrow> bool" where
  "settle_env_ok a env \<longleftrightarrow>
     env_ok env \<and> (\<forall>i d. quota_inv d \<longrightarrow> inference_admission_ok a d \<longrightarrow>
       quota_inv (others env i d) \<and> inference_admission_ok a (others env i d))"

lemma quiet_settle_env_ok: "settle_env_ok a quiet_env"
  by (simp add: settle_env_ok_def quiet_env_ok) (simp add: quiet_env_def)

abbreviation settle_with :: "inference_admission \<Rightarrow> tx_env \<Rightarrow> normalized_usage \<times> pydatetime \<Rightarrow> nat \<Rightarrow> db \<Rightarrow> err + (unit \<times> db)" where
  "settle_with a env args n d \<equiv>
     bindR (settlement_actuals (fst args)) (\<lambda>actuals. settle_attempt env n a actuals (snd args) d)"

definition settle_post :: "inference_admission \<Rightarrow> normalized_usage \<times> pydatetime \<Rightarrow> unit \<Rightarrow> db \<Rightarrow> bool" where
  "settle_post a args u d \<longleftrightarrow>
     (case settlement_actuals (fst args) of Inl e \<Rightarrow> False | Inr actuals \<Rightarrow> request_settled actuals a d)"

lemma na_kind_of_value [no_assert]: "kind_of_value s \<noteq> Inl AssertionError"
  by (auto simp: kind_of_value_def split: option.splits)

lemma na_decimal_to_atomic [no_assert]: "decimal_to_atomic b v \<noteq> Inl AssertionError"
  by (auto simp: decimal_to_atomic_def bindR_eq_Inl no_assert split: pydec.splits)

lemma na_settlement_actuals [no_assert]: "settlement_actuals u \<noteq> Inl AssertionError"
  by (auto simp: settlement_actuals_def optional_atomic_def bindR_eq_Inl no_assert split: option.splits)

lemma na_canonicalize [no_assert]: "canonicalize v \<noteq> Inl AssertionError"
proof (induction v rule: canonicalize.induct)
  case (7 kvs)
  then show ?case by (auto simp: bindR_eq_Inl dest!: mapR_Inl)
next
  case (8 xs)
  then show ?case by (auto simp: bindR_eq_Inl dest!: mapR_Inl)
qed (auto simp: bindR_eq_Inl no_assert)

lemma na_normalization_identity [no_assert]: "normalization_identity s \<noteq> Inl AssertionError"
  by (auto simp: normalization_identity_def request_fingerprint_def bindR_eq_Inl no_assert simp del: canonicalize.simps)

lemma na_settlements [no_assert]: "settlements d a actuals keys \<noteq> Inl AssertionError"
  by (induction d a actuals keys rule: settlements.induct) (auto simp: bindR_eq_Inl no_assert split: option.splits)

lemma na_settle_rows [no_assert]: "settle_rows owner now ss d \<noteq> Inl AssertionError"
  by (induction owner now ss d rule: settle_rows.induct) (auto simp: bindR_eq_Inl no_assert)

interpretation inference_settle: retried_transaction "settle_env_ok a" others "settle_with a"
    "\<lambda>d. quota_inv d \<and> inference_admission_ok a d" "settle_post a" is_retryable_error AssertionError
  for a
proof (unfold_locales, goal_cases)
  case (1 env d i)
  then show ?case by (simp add: settle_env_ok_def)
next
  case (2 env d args i u d')
  from 2(3) obtain actuals where act: "settlement_actuals (fst args) = Inr actuals"
    "settle_attempt env i a actuals (snd args) d = Inr (u, d')" by auto
  from 2(2) have "quota_inv d" "inference_admission_ok a d" by simp_all
  with act show ?case
    by (auto elim!: settle_attempt_settled simp: settle_post_def dest: request_settled_after)
next
  case (3 env d args i)
  have "write_intent env i \<noteq> Some AssertionError"
    using 3(1) by (auto simp: settle_env_ok_def env_ok_def dest: spec [of _ i])
  then show ?case
    by (auto simp: settle_attempt_def settlement_targets_def Let_def bindR_eq_Inl no_assert split: option.splits if_splits)
qed

lemma reserve_inferenceE:
  assumes "reserve_inference s env (Some c) body streaming now d = (res, d')"
  obtains (refused) "d' = d" "res = Inr None \<or> (\<exists>x. res = Inl x)"
  | (looped) fp e r where "iqs_enabled s" "logical_fingerprint s body c streaming = Inr fp" "estimate s body = Inr e"
      "res = map_sum id Some r" "inference_loop (others env) (\<lambda>n. inference_attempt env n c fp e now) 0
         (nat (max 1 (iqs_max_conflict_retries s))) d = (r, d')"
proof (cases "\<exists>fp e. iqs_enabled s \<and> logical_fingerprint s body c streaming = Inr fp \<and> estimate s body = Inr e")
  case True
  then obtain fp e where ok: "iqs_enabled s" "logical_fingerprint s body c streaming = Inr fp" "estimate s body = Inr e" by blast
  obtain r x where "inference_loop (others env) (\<lambda>n. inference_attempt env n c fp e now) 0
      (nat (max 1 (iqs_max_conflict_retries s))) d = (r, x)" by (rule prod.exhaust)
  with assms ok show thesis by (intro looped [of fp e r]) (simp_all add: reserve_inference_def)
next
  case False
  with assms show thesis
    by (intro refused) (cases "logical_fingerprint s body c streaming"; cases "estimate s body"; auto simp: reserve_inference_def split: if_splits)+
qed

lemma settle_quiet:
  assumes "settlement_actuals usage = Inr actuals" "normalization_identity s = Inr (nu_normalization_identity usage)"
  shows "settle_success s quiet_env (Some a) usage now d =
    (case settle_attempt quiet_env 0 a actuals now d of Inr (u, d') \<Rightarrow> (Inr u, d') | Inl e \<Rightarrow> (Inl e, d))"
proof -
  have "settle_attempt quiet_env i a actuals now d = settle_attempt quiet_env 0 a actuals now d" for i
    by (simp add: settle_attempt_def quiet_env_def)
  from retry_loop_quiet [where attempt = "\<lambda>n. settle_attempt quiet_env n a actuals now" and d = d, OF _ this,
      where n = "nat (max 1 (iqs_max_conflict_retries s))"]
  show ?thesis using assms by (simp add: settle_success_def quiet_env_simps(1))
qed

section \<open>Properties\<close>


text \<open>
  C10. Settlement is sound under concurrency: the counters stay equal to the sums of the
  reservations and no call limit is exceeded, the retry loop never falls through, and after a
  settlement that succeeds every reservation of the request whose usage was reported is settled
  with exactly the reported amount.
\<close>

theorem settle_success_sound:
  assumes "settle_success s env (Some a) usage now d = (res, d')"
    and "settle_env_ok a env" "budget_inv d" "quota_ok d" "inference_admission_ok a d"
  shows "budget_inv d' \<and> quota_ok d' \<and> inference_admission_ok a d' \<and> res \<noteq> Inl AssertionError \<and>
    (case res of
       Inr _ \<Rightarrow> (case settlement_actuals usage of Inr actuals \<Rightarrow> request_settled actuals a d' | Inl _ \<Rightarrow> False)
     | Inl _ \<Rightarrow> True)"
proof (cases "\<exists>ident actuals. normalization_identity s = Inr ident \<and> nu_normalization_identity usage = ident \<and>
    settlement_actuals usage = Inr actuals")
  case True
  then obtain actuals where act: "settlement_actuals usage = Inr actuals"
    "normalization_identity s = Inr (nu_normalization_identity usage)" by auto
  let ?n = "nat (max 1 (iqs_max_conflict_retries s))"
  have loop: "retry_loop is_retryable_error AssertionError (others env) (settle_with a env (usage, now)) 0 ?n d = (res, d')"
    using assms(1) act by (simp add: settle_success_def)
  have inv: "quota_inv d \<and> inference_admission_ok a d" using assms(3-5) by (simp add: quota_inv_def)
  have "0 < ?n" by simp
  from inference_settle.loop_reachable [OF assms(2) inv this, of "(usage, now)" 0] loop
  have "res \<noteq> Inl AssertionError" by simp
  moreover from inference_settle.loop_inv [OF assms(2) inv, of "(usage, now)" 0 ?n] loop
  have "budget_inv d'" "quota_ok d'" "inference_admission_ok a d'" by (simp_all add: quota_inv_def)
  moreover have "request_settled actuals a d'" if "res = Inr u" for u
    using inference_settle.loop_result [OF assms(2) inv, of "(usage, now)" 0 ?n u d'] loop that act by (simp add: settle_post_def)
  ultimately show ?thesis using act by (simp split: sum.splits)
next
  case False
  with assms show ?thesis
    by (auto simp: settle_success_def bindR_eq_Inl no_assert split: sum.splits)
qed

text \<open>
  C26. Settling a request again with the same usage returns and changes nothing, at any later time.
\<close>

theorem settle_success_idempotent:
  assumes "settle_success s quiet_env (Some a) usage now d = (Inr (), d')"
    and "budget_inv d" "quota_ok d" "inference_admission_ok a d"
  shows "settle_success s quiet_env (Some a) usage later d' = (Inr (), d')"
proof -
  from assms(1) obtain actuals where act: "settlement_actuals usage = Inr actuals"
    "normalization_identity s = Inr (nu_normalization_identity usage)"
    by (auto simp: settle_success_def split: sum.splits)
  with assms(1) have att: "settle_attempt quiet_env 0 a actuals now d = Inr ((), d')"
    by (simp add: settle_quiet split: sum.splits prod.splits)
  have inv: "quota_inv d" using assms(2,3) by (simp add: quota_inv_def)
  from att inv assms(4) act(1) show ?thesis
  proof (rule settle_attempt_settled)
    fix ss
    assume ss: "settlements d a actuals (ia_reservation_keys a) = Inr ss" "list_all (settles a d) ss" "settled_rows d d' ss"
      and inv': "quota_inv d'" and w: "get_window d' (ia_owner_user_id a) (ia_window_epoch a) \<noteq> None"
    note after = request_settled_after [OF ss inv inv' assms(4)]
    have "settlements d' a actuals (ia_reservation_keys a) = Inr []"
      by (rule settlements_done) (use after settlement_nonneg [OF ss(1)] in \<open>auto simp: request_settled_def inference_admission_ok_def\<close>)
    with w have "settle_attempt quiet_env 0 a actuals later d' = Inr ((), d')"
      by (auto simp: settle_attempt_def settlement_targets_def used_deltas_def reserved_decrements_def Let_def quiet_env_def)
    then show ?thesis using act by (simp add: settle_quiet)
  qed
qed

end
