(* ===== verification/Sample_Inference.thy ===== *)
theory Sample_Inference
  imports Inference_Limits
begin

text \<open>
  A concrete inference request: its four reservations in the window of \<open>Sample_Run\<close>, and a
  provider that reports fewer tokens than were reserved. The conditional theorems on inference are
  applied to it.
\<close>

section \<open>The settings and the request\<close>

definition ix_settings :: inference_quota_settings where
  "ix_settings = \<lparr>iqs_enabled = True, iqs_max_conflict_retries = 3, iqs_estimator_policy_version = ''e1'',
     iqs_usage_normalization_version = ''n1'', iqs_default_output_token_reservation = Some 20\<rparr>"

definition ix_normalization :: string where
  "ix_normalization = ''ubq4-usage:n1:'' @ sha256_hexdigest (dumps False (JObj
     [(''compute_cost_normalization_authority'', JStr ''provider-model-normalizer-required''), (''version'', JStr ''n1'')]))"

lemma ix_normalization_identity: "normalization_identity ix_settings = Inr ix_normalization"
proof -
  have "sort_key (key_str \<circ> fst) [(KStr ''version'', VStr ''n1''),
      (KStr ''compute_cost_normalization_authority'', VStr ''provider-model-normalizer-required'')] =
    [(KStr ''compute_cost_normalization_authority'', VStr ''provider-model-normalizer-required''), (KStr ''version'', VStr ''n1'')]"
    by simp
  then have "request_fingerprint [(KStr ''version'', VStr ''n1''),
      (KStr ''compute_cost_normalization_authority'', VStr ''provider-model-normalizer-required'')] =
    Inr (sha256_hexdigest (dumps False (JObj
     [(''compute_cost_normalization_authority'', JStr ''provider-model-normalizer-required''), (''version'', JStr ''n1'')])))"
    by (simp only: request_fingerprint_def canonicalize.simps mapR.simps bindR_simps fst_conv snd_conv key_str.simps)
      (simp add: dict_of_items_distinct)
  then show ?thesis by (simp add: normalization_identity_def ix_settings_def ix_normalization_def)
qed

definition ix_context :: inference_context where
  "ix_context = \<lparr>ic_budget_identity = ex_identity, ic_logical_request_id = ''req'', ic_logical_request_fingerprint = None,
     ic_source_surface = ''CHAT'', ic_owner_user_id = None, ic_session_id = None, ic_task_id = None, ic_execution_id = None,
     ic_workflow_id = None, ic_iteration = None, ic_agent_iteration_id = None, ic_outer_request_id = None,
     ic_capability_invocation_id = None, ic_estimator_policy_identity = ''e'', ic_usage_normalization_identity = ix_normalization\<rparr>"

definition ix_row :: "string \<Rightarrow> resource_kind \<Rightarrow> int \<Rightarrow> reservation_row" where
  "ix_row name kind amount =
     \<lparr>res_reservation_id = ''ubq4r:'' @ name, res_owner_user_id = ''u1'', res_window_epoch = 1,
      res_idempotency_key = ''ubq4:v1:'' @ name, res_resource_kind = kind, res_capability_id = None,
      res_reserved_amount_atomic = amount, res_settled_amount_atomic = None, res_state = RESERVED,
      res_attribution_json = [(''logical_request_fingerprint'', JStr ''fp''), (''logical_request_id'', JStr ''req'')],
      res_payload_fingerprint = ''pf'', res_revision = 0, res_settled_at = None\<rparr>"

definition ix_db :: db where
  "ix_db = ex_open\<lparr>
     windows := [ex_window\<lparr>win_inference_reserved := 1, win_tokens_reserved := 30, win_revision := 1\<rparr>],
     reservations := [ix_row ''a'' INFERENCE_CALL 1, ix_row ''b'' INPUT_TOKEN 10, ix_row ''c'' OUTPUT_TOKEN 20,
                      ix_row ''d'' TOTAL_TOKEN 30]\<rparr>"

definition ix_admission :: inference_admission where
  "ix_admission =
     \<lparr>ia_owner_user_id = ''u1'', ia_logical_request_id = ''req'', ia_logical_request_fingerprint = ''fp'', ia_window_epoch = 1,
      ia_reservation_keys = [(''INFERENCE_CALL'', ''ubq4:v1:a''), (''INPUT_TOKEN'', ''ubq4:v1:b''),
                             (''OUTPUT_TOKEN'', ''ubq4:v1:c''), (''TOTAL_TOKEN'', ''ubq4:v1:d'')],
      ia_replayed = False, ia_inference_reservation_state = RESERVED\<rparr>"

definition ix_usage :: normalized_usage where
  "ix_usage = \<lparr>nu_input_tokens = Some 9, nu_output_tokens = Some 4, nu_total_tokens = Some 13, nu_compute_units = None,
     nu_cost_usd = None, nu_normalization_identity = ix_normalization, nu_provider = None, nu_model = None\<rparr>"

definition ix_settled :: db where
  "ix_settled = ex_open\<lparr>
     windows := [ex_window\<lparr>win_inference_used := 1, win_inference_reserved := 0, win_input_tokens_used := 9,
       win_output_tokens_used := 4, win_total_tokens_used := 13, win_tokens_reserved := 0, win_revision := 2\<rparr>],
     reservations := map (\<lambda>(r, x). r\<lparr>res_state := SETTLED, res_settled_amount_atomic := Some x,
         res_settled_at := Some ex_now, res_revision := 1\<rparr>)
       [(ix_row ''a'' INFERENCE_CALL 1, 1), (ix_row ''b'' INPUT_TOKEN 10, 9), (ix_row ''c'' OUTPUT_TOKEN 20, 4),
        (ix_row ''d'' TOTAL_TOKEN 30, 13)]\<rparr>"

lemmas ix_defs = ix_db_def ix_row_def ix_admission_def ex_open_def ex_window_def ex_db_def ex_policy_def ex_now_def new_window_def

lemma ix_db_inv: "budget_inv ix_db"
  by (simp add: ix_defs budget_inv_defs policy_row_ok_def opt_pos64_def USER_BUDGET_INT64_MAX_def active_owners_def
     account_row_ok_def account_refs_ok_def window_row_ok_def all_counters_def nat64_def instant_def record_utc_def exact_policy_def owned_by_def
     win_key_def res_key_def res_win_def reservation_row_ok_def ledger_def contrib_def counts_reserved_def)

lemma ix_db_quota: "quota_ok ix_db"
  by (simp add: ix_defs quota_ok_def window_within_def over_quota_def exceeds_def)

lemma ix_admission_ok: "inference_admission_ok ix_admission ix_db"
  by (simp add: ix_defs inference_admission_ok_def reservation_as_def get_reservation_def res_key_def)

lemma ix_settle: "settle_success ix_settings quiet_env (Some ix_admission) ix_usage ex_now ix_db = (Inr (), ix_settled)"
proof -
  have act: "settlement_actuals ix_usage = Inr [(INFERENCE_CALL, Some 1), (INPUT_TOKEN, Some 9), (OUTPUT_TOKEN, Some 4),
      (TOTAL_TOKEN, Some 13), (COMPUTE_UNIT, None), (COST_USD, None)]"
    by (simp add: settlement_actuals_def optional_atomic_def ix_usage_def)
  let ?a = "[(INFERENCE_CALL, Some 1), (INPUT_TOKEN, Some 9), (OUTPUT_TOKEN, Some 4), (TOTAL_TOKEN, Some 13),
    (COMPUTE_UNIT, None), (COST_USD, None)]"
  let ?ss = "[(INFERENCE_CALL, ix_row ''a'' INFERENCE_CALL 1, 1), (INPUT_TOKEN, ix_row ''b'' INPUT_TOKEN 10, 9),
    (OUTPUT_TOKEN, ix_row ''c'' OUTPUT_TOKEN 20, 4), (TOTAL_TOKEN, ix_row ''d'' TOTAL_TOKEN 30, 13)]"
  let ?w = "ex_window\<lparr>win_inference_reserved := 1, win_tokens_reserved := 30, win_revision := 1\<rparr>"
  let ?t = "[(inference_used, 1), (input_tokens_used, 9), (output_tokens_used, 4), (total_tokens_used, 13),
    (inference_reserved, 0), (tokens_reserved, 0)]"
  have ss: "settlements ix_db ix_admission ?a (ia_reservation_keys ix_admission) = Inr ?ss"
    by (simp add: ix_defs get_reservation_def res_key_def kind_of_value_def all_kinds_def same_request_def dict_get_def)
  have w: "get_window ix_db (ia_owner_user_id ix_admission) (ia_window_epoch ix_admission) = Some ?w"
    by (simp add: ix_defs get_window_def win_key_def)
  have t: "settlement_targets ?w ?ss = Inr ?t"
    by (simp add: settlement_targets_def used_deltas_def reserved_decrements_def ix_defs)
  have mw: "mutate_window_usage (ia_owner_user_id ix_admission) (ia_window_epoch ix_admission) (win_revision ?w) ?t ix_db =
      Inr (hd (windows ix_settled), ix_settled\<lparr>reservations := reservations ix_db\<rparr>)"
    by (simp add: mutate_window_usage_def ix_settled_def ix_defs get_window_def win_key_def Let_def require_atomic_counter_def
        monotonic_used_fields_def set_counters_def upd_where_def update_windows_def window_row_ok_def all_counters_def nat64_def
        USER_BUDGET_INT64_MAX_def instant_def record_utc_def active_owners_def)
  have rows: "settle_rows (ia_owner_user_id ix_admission) ex_now ?ss (ix_settled\<lparr>reservations := reservations ix_db\<rparr>) = Inr ix_settled"
    by (simp add: transition_reservation_def ix_settled_def ix_defs get_reservation_def res_key_def Let_def settlement_fields_def
        require_atomic_counter_def USER_BUDGET_INT64_MAX_def normalize_authoritative_utc_def update_reservations_def upd_where_def
        reservation_row_ok_def nat64_def)
  have "write_intent quiet_env 0 = None" by (simp add: quiet_env_def)
  then have "settle_attempt quiet_env 0 ix_admission ?a ex_now ix_db = Inr ((), ix_settled)"
    by (simp only: settle_attempt_def option.case w ofOption_simps bindR_simps ss t mw rows if_False prod.case list.distinct)
  moreover have "normalization_identity ix_settings = Inr (nu_normalization_identity ix_usage)"
    by (simp add: ix_normalization_identity) (simp add: ix_usage_def)
  ultimately show ?thesis by (simp add: settle_quiet [OF act])
qed

theorem settle_success_sound_witness:
  "budget_inv ix_settled \<and> quota_ok ix_settled \<and> inference_admission_ok ix_admission ix_settled \<and>
   (case settlement_actuals ix_usage of Inr actuals \<Rightarrow> request_settled actuals ix_admission ix_settled | Inl _ \<Rightarrow> False)"
  using settle_success_sound [OF ix_settle quiet_settle_env_ok ix_db_inv ix_db_quota ix_admission_ok] by simp

theorem settle_success_idempotent_witness:
  "settle_success ix_settings quiet_env (Some ix_admission) ix_usage (PyDT 2000 (Some 0)) ix_settled = (Inr (), ix_settled)"
  by (rule settle_success_idempotent [OF ix_settle ix_db_inv ix_db_quota ix_admission_ok])


end
