(* ===== verification/Task_Budget.thy ===== *)
theory Task_Budget
  imports Tool_Quota
begin

text \<open>
  The per-task budget of an agent: its schema (\<open>src/se/src/domain/schemas/task_budget.py\<close>), its
  table (\<open>src/se/src/infrastructure/storage/models/sql/agent/task_budget.py\<close>), the repository
  operations on it (\<open>src/se/src/infrastructure/storage/repositories/agent.py\<close>) and the part of
  \<open>TaskBudgetService\<close> (\<open>src/se/src/runtimes/agent/task_budget.py\<close>) that creates and closes a
  budget and reserves from it: execution slots on resume and release, tool calls, inferences, token
  and cost usage, branch slots, with the idempotent reservation protocol they share, its recovery
  fence, and the enrolled path that mirrors a charge into the user's budget in the same transaction.

  A transaction runs on the state \<open>others env i d\<close>; \<open>lock_wait env i\<close> is what commits between its
  reads and its compare-and-set, and \<open>write_intent env i\<close> a database error that ends it.
\<close>

section \<open>The schema\<close>

datatype task_budget_reservation_kind =
    NEW_EXECUTION | RESUME_EXECUTION | RELEASE_EXECUTION | TASK_TOOL_CALL | INFERENCE | USAGE | BRANCH
  | RELEASE_BRANCH

fun task_kind_value :: "task_budget_reservation_kind \<Rightarrow> string" where
  "task_kind_value NEW_EXECUTION = ''NEW_EXECUTION''"
| "task_kind_value RESUME_EXECUTION = ''RESUME_EXECUTION''"
| "task_kind_value RELEASE_EXECUTION = ''RELEASE_EXECUTION''"
| "task_kind_value TASK_TOOL_CALL = ''TOOL_CALL''"
| "task_kind_value INFERENCE = ''INFERENCE''"
| "task_kind_value USAGE = ''USAGE''"
| "task_kind_value BRANCH = ''BRANCH''"
| "task_kind_value RELEASE_BRANCH = ''RELEASE_BRANCH''"

definition normalize_task_budget_cost :: "pyval \<Rightarrow> err + pydec" where
  "normalize_task_budget_cost v =
     bindR (decimal_of v) (\<lambda>d.
     bindR (requireR (d \<noteq> Special) ValueError) (\<lambda>_.
     quantize (- 8) d))"

text \<open>The limits of \<open>TaskBudgetLimits\<close>: every one is positive where it is given.\<close>

definition positive_opt :: "int option \<Rightarrow> bool" where
  "positive_opt m \<longleftrightarrow> (case m of None \<Rightarrow> True | Some x \<Rightarrow> 0 < x)"

definition limits_valid :: "task_budget_limits \<Rightarrow> bool" where
  "limits_valid l \<longleftrightarrow>
     0 < lim_total_executions l \<and> 0 < lim_active_executions l \<and> 0 < lim_active_branches l \<and>
     0 < lim_parallel_agents l \<and> 0 < lim_total_tool_calls l \<and> 0 < lim_total_inference_calls l \<and>
     0 < lim_delegation_depth l \<and> positive_opt (lim_total_tokens l) \<and> positive_opt (lim_total_cost l)"

text \<open>\<open>TaskBudgetLimits(...)\<close>: the cost limit is normalised before it is compared with zero.\<close>

definition make_limits :: "task_budget_limits \<Rightarrow> pyval option \<Rightarrow> err + task_budget_limits" where
  "make_limits l cost =
     bindR (case cost of
              None \<Rightarrow> Inr None
            | Some v \<Rightarrow> (case normalize_task_budget_cost v of Inl _ \<Rightarrow> Inl ValidationError | Inr n \<Rightarrow> Inr (Some (scaled_int n))))
       (\<lambda>c. let l = l\<lparr>lim_total_cost := c\<rparr> in
            bindR (requireR (limits_valid l) ValidationError) (\<lambda>_. Inr l))"

record task_budget_policy =
  tbp_version :: string
  tbp_deny_recursive_agent_cycle :: bool

text \<open>\<open>str(Decimal)\<close> of a value whose last digit has weight 1e-8.\<close>

definition cost_text :: "bool \<Rightarrow> nat \<Rightarrow> string" where
  "cost_text neg c =
     (let ds = nat_digits c; n = length ds in
      (if neg then ''-'' else '''') @
      (if n \<le> 2
       then take 1 ds @ (if n = 1 then '''' else ''.'' @ drop 1 ds) @ ''E-'' @ nat_digits (9 - n)
       else if n \<le> 8 then ''0.'' @ replicate (8 - n) (CHR ''0'') @ ds
       else take (n - 8) ds @ ''.'' @ drop (n - 8) ds))"

definition task_budget_policy_fingerprint :: "task_budget_limits \<Rightarrow> task_budget_policy \<Rightarrow> string" where
  "task_budget_policy_fingerprint l p =
     sha256_hexdigest (dumps True (JObj
       [(''limits'', JObj
          [(''max_total_executions'', JInt (lim_total_executions l)),
           (''max_active_executions'', JInt (lim_active_executions l)),
           (''max_active_branches'', JInt (lim_active_branches l)),
           (''max_parallel_agents'', JInt (lim_parallel_agents l)),
           (''max_total_tool_calls'', JInt (lim_total_tool_calls l)),
           (''max_total_inference_calls'', JInt (lim_total_inference_calls l)),
           (''max_delegation_depth'', JInt (lim_delegation_depth l)),
           (''max_total_tokens'', json_opt_int (lim_total_tokens l)),
           (''max_total_cost_usd'',
             case lim_total_cost l of None \<Rightarrow> JNull | Some c \<Rightarrow> JStr (cost_text (c < 0) (nat \<bar>c\<bar>)))]),
        (''policy'', JObj
          [(''version'', JStr (tbp_version p)),
           (''deny_recursive_agent_cycle'', JBool (tbp_deny_recursive_agent_cycle p))])]))"

text \<open>The model validator of \<open>TaskBudget\<close>: what every budget object satisfies.\<close>

definition counters_within :: "task_budget_row \<Rightarrow> bool" where
  "counters_within b \<longleftrightarrow>
     (let l = tb_limits b in
      0 \<le> tb_used_executions b \<and> 0 \<le> tb_active_executions b \<and> 0 \<le> tb_active_branches b \<and>
      0 \<le> tb_active_parallel_agents b \<and> 0 \<le> tb_used_tool_calls b \<and> 0 \<le> tb_used_inference_calls b \<and>
      0 \<le> tb_used_tokens b \<and> 0 \<le> tb_used_cost b \<and>
      tb_active_executions b \<le> tb_used_executions b \<and> tb_used_executions b \<le> lim_total_executions l \<and>
      tb_active_executions b \<le> lim_active_executions l \<and>
      tb_active_parallel_agents b \<le> tb_active_executions b \<and> tb_active_parallel_agents b \<le> lim_parallel_agents l \<and>
      tb_active_branches b \<le> lim_active_branches l \<and>
      tb_used_tool_calls b \<le> lim_total_tool_calls l \<and> tb_used_inference_calls b \<le> lim_total_inference_calls l)"

definition closed_at_matches :: "task_budget_row \<Rightarrow> bool" where
  "closed_at_matches b \<longleftrightarrow> (case tb_state b of TB_OPEN \<Rightarrow> tb_closed_at b = None | TB_CLOSED \<Rightarrow> tb_closed_at b \<noteq> None)"

definition is_hex64 :: "string \<Rightarrow> bool" where
  "is_hex64 s \<longleftrightarrow> length s = 64 \<and> list_all (\<lambda>c. c \<in> set ''0123456789abcdef'') s"

definition task_budget_valid :: "task_budget_row \<Rightarrow> bool" where
  "task_budget_valid b \<longleftrightarrow>
     0 \<le> tb_revision b \<and> limits_valid (tb_limits b) \<and>
     1 \<le> py_len (tb_policy_version b) \<and> py_len (tb_policy_version b) \<le> 64 \<and> is_hex64 (tb_policy_fingerprint b) \<and>
     counters_within b \<and> closed_at_matches b"

definition budget_from_record :: "task_budget_row \<Rightarrow> err + task_budget_row" where
  "budget_from_record b = bindR (requireR (task_budget_valid b) ValidationError) (\<lambda>_. Inr b)"

section \<open>The table and the repository\<close>

text \<open>
  The CHECK constraints of the row, and the ranges of its columns: Integer, BigInteger and
  NUMERIC(20, 8). A value out of range raises \<open>SqlDataError\<close>, which no caller catches.
\<close>

definition task_budget_row_ok :: "task_budget_row \<Rightarrow> bool" where
  "task_budget_row_ok b \<longleftrightarrow>
     0 < tb_incarnation_generation b \<and> tb_incarnation_generation b < 9223372036854775807 \<and>
     0 \<le> tb_revision b \<and> limits_valid (tb_limits b) \<and> counters_within b \<and> closed_at_matches b"

definition fits_opt :: "int option \<Rightarrow> int \<Rightarrow> bool" where
  "fits_opt m bound \<longleftrightarrow> (case m of None \<Rightarrow> True | Some x \<Rightarrow> x < bound)"

definition task_budget_fits :: "task_budget_row \<Rightarrow> bool" where
  "task_budget_fits b \<longleftrightarrow>
     tb_revision b < 2 ^ 31 \<and> tb_used_tokens b < 2 ^ 63 \<and> tb_used_cost b < 10 ^ 20 \<and>
     (let l = tb_limits b in
      lim_total_executions l < 2 ^ 31 \<and> lim_active_executions l < 2 ^ 31 \<and> lim_active_branches l < 2 ^ 31 \<and>
      lim_parallel_agents l < 2 ^ 31 \<and> lim_total_tool_calls l < 2 ^ 31 \<and> lim_total_inference_calls l < 2 ^ 31 \<and>
      lim_delegation_depth l < 2 ^ 31 \<and> fits_opt (lim_total_tokens l) (2 ^ 63) \<and> fits_opt (lim_total_cost l) (10 ^ 20))"

definition has_execution_for_task :: "db \<Rightarrow> string \<Rightarrow> bool" where
  "has_execution_for_task d task_id \<longleftrightarrow> list_ex (\<lambda>e. exe_task_id e = Some task_id) (executions d)"

definition get_task :: "db \<Rightarrow> string \<Rightarrow> task_row option" where
  "get_task d task_id = List.find (\<lambda>t. tsk_id t = task_id) (tasks d)"

definition save_task_budget :: "task_budget_row \<Rightarrow> db \<Rightarrow> err + (task_budget_row \<times> db)" where
  "save_task_budget values d =
     (let generation = task_budget_next_generation d;
          b = values\<lparr>tb_incarnation_generation := generation\<rparr> in
      if 9223372036854775807 \<le> generation then Inl RuntimeError
      else if \<not> task_budget_fits b then Inl SqlDataError
      else if \<not> task_budget_row_ok b \<or> get_task d (tb_task_id b) = None \<or>
              tb_task_id b \<in> tb_task_id ` set (task_budgets d) \<or>
              generation \<in> tb_incarnation_generation ` set (task_budgets d)
      then Inl SqlIntegrityError
      else Inr (b, d\<lparr>task_budgets := task_budgets d @ [b], task_budget_next_generation := generation + 1\<rparr>))"

definition compare_and_set_task_budget :: "string \<Rightarrow> int \<Rightarrow> (task_budget_row \<Rightarrow> task_budget_row) \<Rightarrow> int option \<Rightarrow> db \<Rightarrow>
    err + (task_budget_row option \<times> db)" where
  "compare_and_set_task_budget task_id expected_revision values expected_generation d =
     (let hit = (\<lambda>b. tb_task_id b = task_id \<and> tb_revision b = expected_revision \<and>
                     (case expected_generation of None \<Rightarrow> True | Some g \<Rightarrow> tb_incarnation_generation b = g));
          next_values = (\<lambda>b. (values b)\<lparr>tb_revision := expected_revision + 1\<rparr>);
          rows = filter hit (task_budgets d) in
      if length rows \<noteq> 1 then Inr (None, d)
      else if \<not> list_all (task_budget_fits \<circ> next_values) rows then Inl SqlDataError
      else if \<not> list_all (task_budget_row_ok \<circ> next_values) rows then Inl SqlIntegrityError
      else let d' = d\<lparr>task_budgets := upd_where hit next_values (task_budgets d)\<rparr>
           in Inr (get_task_budget d' task_id, d'))"

definition save_task_budget_reservation :: "string \<Rightarrow> string \<Rightarrow> string \<Rightarrow> string \<Rightarrow> int option \<Rightarrow> db \<Rightarrow> err + db" where
  "save_task_budget_reservation task_id kind key fingerprint supplied_generation d =
     bindR (ofOption ValueError (get_task_budget d task_id)) (\<lambda>budget.
     let generation = tb_incarnation_generation budget in
     bindR (requireR (supplied_generation \<in> {None, Some generation}) ValueError) (\<lambda>_.
     if (task_id, kind, key) \<in> (\<lambda>r. (tbr_task_id r, tbr_kind r, tbr_reservation_key r)) ` set (task_budget_reservations d)
     then Inl SqlIntegrityError
     else Inr (d\<lparr>task_budget_reservations := task_budget_reservations d @
              [\<lparr>tbr_task_id = task_id, tbr_kind = kind, tbr_reservation_key = key,
                tbr_incarnation_generation = generation, tbr_payload_fingerprint = fingerprint\<rparr>]\<rparr>)))"

section \<open>Reservations\<close>

definition reservation_fingerprint :: "task_budget_reservation_kind \<Rightarrow> string \<Rightarrow> (string \<times> json) list \<Rightarrow> string" where
  "reservation_fingerprint kind reservation_key payload =
     sha256_hexdigest (dumps True (JObj
       [(''kind'', JStr (task_kind_value kind)), (''reservation_key'', JStr reservation_key), (''payload'', JObj payload)]))"

definition verify_reservation :: "task_budget_reservation_row \<Rightarrow> string \<Rightarrow> err + unit" where
  "verify_reservation r fingerprint = requireR (tbr_payload_fingerprint r = fingerprint) TaskBudgetConflictError"

definition require_open :: "task_budget_row \<Rightarrow> err + unit" where
  "require_open b = requireR (tb_state b = TB_OPEN) TaskBudgetClosedError"

definition require_same_policy :: "task_budget_row \<Rightarrow> task_budget_policy \<Rightarrow> string \<Rightarrow> err + unit" where
  "require_same_policy b p fingerprint =
     requireR (tb_policy_version b = tbp_version p \<and> tb_policy_fingerprint b = fingerprint \<and>
               tb_deny_recursive_agent_cycle b = tbp_deny_recursive_agent_cycle p) TaskBudgetConflictError"

definition new_budget_values :: "string \<Rightarrow> task_budget_limits \<Rightarrow> task_budget_policy \<Rightarrow> string \<Rightarrow> task_budget_row" where
  "new_budget_values task_id limits policy fingerprint =
     \<lparr>tb_task_id = task_id, tb_incarnation_generation = 0, tb_revision = 0, tb_state = TB_OPEN, tb_limits = limits,
      tb_policy_version = tbp_version policy, tb_policy_fingerprint = fingerprint,
      tb_deny_recursive_agent_cycle = tbp_deny_recursive_agent_cycle policy,
      tb_used_executions = 0, tb_active_executions = 0, tb_active_branches = 0, tb_active_parallel_agents = 0,
      tb_used_tool_calls = 0, tb_used_inference_calls = 0, tb_used_tokens = 0, tb_used_cost = 0, tb_closed_at = None\<rparr>"

subsection \<open>The recovery fence\<close>

text \<open>
  A recovered execution writes under the lease it holds. \<open>rf_lease_generation\<close> is None where
  \<open>int(...)\<close> of the entry raises, \<open>rf_lease_expires_at\<close> where the entry is not a datetime.
\<close>

record recovery_fence =
  rf_owner_instance_id :: "string option"
  rf_lease_generation :: "int option"
  rf_lease_expires_at :: "pydatetime option"

definition py_strip :: "string \<Rightarrow> string" where
  "py_strip s =
     (let blank = (\<lambda>c. is_blank c \<or> 28 \<le> (of_char c :: nat) \<and> (of_char c :: nat) \<le> 31)
      in rev (dropWhile blank (rev (dropWhile blank s))))"

definition validate_recovery_mutation_authority :: "string option \<Rightarrow> recovery_fence option \<Rightarrow> int option \<Rightarrow> err + unit" where
  "validate_recovery_mutation_authority execution_id fence expected_generation =
     (if execution_id = None \<and> fence = None then Inr ()
      else requireR (py_strip (or_empty execution_id) \<noteq> [] \<and> fence \<noteq> None \<and>
                     (case expected_generation of None \<Rightarrow> False | Some g \<Rightarrow> 0 < g)) TaskBudgetConflictError)"

definition require_recovery_mutation_fence_now :: "pydatetime \<Rightarrow> string \<Rightarrow> recovery_fence \<Rightarrow> execution_row option \<Rightarrow> err + unit" where
  "require_recovery_mutation_fence_now now task_id fence execution =
     (case (rf_lease_generation fence, rf_lease_expires_at fence) of
        (Some generation, Some expected_expiry) \<Rightarrow>
          if utcoffset expected_expiry = None then Inl TaskBudgetConflictError
          else requireR
            (case execution of
               None \<Rightarrow> False
             | Some e \<Rightarrow>
                 or_empty (exe_task_id e) = task_id \<and> exe_state e = ''RUNNING'' \<and>
                 or_empty (exe_owner_instance_id e) = py_strip (or_empty (rf_owner_instance_id fence)) \<and>
                 exe_lease_generation e = generation \<and>
                 (case exe_lease_expires_at e of
                    None \<Rightarrow> False
                  | Some x \<Rightarrow> record_utc x = record_utc expected_expiry \<and>
                              wall (record_utc now) < wall (record_utc x))) TaskBudgetConflictError
      | _ \<Rightarrow> Inl TaskBudgetConflictError)"

definition lock_recovery_mutation_fence :: "pydatetime \<Rightarrow> string \<Rightarrow> string \<Rightarrow> recovery_fence \<Rightarrow> db \<Rightarrow> err + execution_row option" where
  "lock_recovery_mutation_fence now task_id execution_id fence d =
     (let execution = get_execution d execution_id in
      bindR (require_recovery_mutation_fence_now now task_id fence execution) (\<lambda>_. Inr execution))"

subsection \<open>The legacy path\<close>

record task_budget_settings =
  tsv_max_conflict_retries :: int
  tsv_dual :: "dual_accounting_settings option"
  tsv_inference_quota_enabled :: bool

text \<open>The arguments of one logical call of \<open>_mutate_with_reservation\<close>.\<close>

record budget_call =
  bc_task_id :: string
  bc_kind :: task_budget_reservation_kind
  bc_reservation_key :: string
  bc_payload :: "(string \<times> json) list"
  bc_mutate :: "task_budget_row \<Rightarrow> err + (task_budget_row \<Rightarrow> task_budget_row)"
  bc_expected_generation :: "int option"
  bc_require_legacy_unbound :: bool
  bc_recovery_execution_id :: "string option"
  bc_recovery_fence :: "recovery_fence option"

definition call_fingerprint :: "budget_call \<Rightarrow> string" where
  "call_fingerprint c = reservation_fingerprint (bc_kind c) (bc_reservation_key c) (bc_payload c)"

definition max_attempts :: "task_budget_settings \<Rightarrow> nat" where
  "max_attempts s = nat (max 1 (tsv_max_conflict_retries s))"

definition lock_fence :: "budget_call \<Rightarrow> pydatetime \<Rightarrow> db \<Rightarrow> err + execution_row option" where
  "lock_fence c now d =
     (case bc_recovery_fence c of
        None \<Rightarrow> Inr None
      | Some fence \<Rightarrow>
          (case bc_recovery_execution_id c of
             None \<Rightarrow> Inl AssertionError
           | Some execution_id \<Rightarrow> lock_recovery_mutation_fence now (bc_task_id c) execution_id fence d))"

definition recheck_fence :: "budget_call \<Rightarrow> pydatetime \<Rightarrow> execution_row option \<Rightarrow> err + unit" where
  "recheck_fence c now locked =
     (case bc_recovery_fence c of
        None \<Rightarrow> Inr ()
      | Some fence \<Rightarrow> require_recovery_mutation_fence_now now (bc_task_id c) fence locked)"

definition require_unbound :: "task_budget_settings \<Rightarrow> budget_call \<Rightarrow> db \<Rightarrow> err + unit" where
  "require_unbound s c d =
     requireR (\<not> (bc_require_legacy_unbound c \<and> tsv_dual s \<noteq> None \<and> get_task_binding d (bc_task_id c) \<noteq> None))
       TaskBudgetLegacyBecameEnrolledError"

text \<open>The body of the transaction once the budget row and its incarnation are known.\<close>

definition replay_reservation :: "budget_call \<Rightarrow> pydatetime \<Rightarrow> execution_row option \<Rightarrow> task_budget_row \<Rightarrow>
    task_budget_reservation_row \<Rightarrow> err + task_budget_row" where
  "replay_reservation c now locked record existing =
     bindR (verify_reservation existing (call_fingerprint c)) (\<lambda>_.
     bindR (recheck_fence c now locked) (\<lambda>_.
     budget_from_record record))"

definition apply_reservation :: "tx_env \<Rightarrow> nat \<Rightarrow> budget_call \<Rightarrow> pydatetime \<Rightarrow> execution_row option \<Rightarrow> task_budget_row \<Rightarrow> db \<Rightarrow>
    err + (task_budget_row option \<times> db)" where
  "apply_reservation env i c now locked record d =
     bindR (budget_from_record record) (\<lambda>budget.
     bindR (bc_mutate c budget) (\<lambda>values.
     bindR (recheck_fence c now locked) (\<lambda>_.
     let generation = tb_incarnation_generation record; d = lock_wait env i d in
     bindR (compare_and_set_task_budget (bc_task_id c) (tb_revision budget) values (Some generation) d) (\<lambda>(updated, d').
     case updated of
       None \<Rightarrow> Inr (None, d)
     | Some u \<Rightarrow>
         bindR (save_task_budget_reservation (bc_task_id c) (task_kind_value (bc_kind c)) (bc_reservation_key c)
                  (call_fingerprint c) (Some generation) d') (\<lambda>d''.
         bindR (budget_from_record u) (\<lambda>result. Inr (Some result, d'')))))))"

definition load_idempotent :: "task_budget_settings \<Rightarrow> budget_call \<Rightarrow> (nat \<Rightarrow> pydatetime) \<Rightarrow> int \<Rightarrow> db \<Rightarrow>
    err + task_budget_row option" where
  "load_idempotent s c clock generation d =
     bindR (validate_recovery_mutation_authority (bc_recovery_execution_id c) (bc_recovery_fence c) (Some generation)) (\<lambda>_.
     bindR (lock_fence c (clock 0) d) (\<lambda>locked.
     bindR (require_unbound s c d) (\<lambda>_.
     bindR (ofOption TaskBudgetRequiredError (get_task_budget d (bc_task_id c))) (\<lambda>record.
     bindR (requireR (tb_incarnation_generation record = generation) TaskBudgetIncarnationChangedError) (\<lambda>_.
     case get_task_budget_reservation d (bc_task_id c) (task_kind_value (bc_kind c)) (bc_reservation_key c) generation of
       None \<Rightarrow> Inr None
     | Some existing \<Rightarrow> bindR (replay_reservation c (clock 1) locked record existing) (\<lambda>b. Inr (Some b)))))))"

text \<open>
  What the except-clauses make of an attempt: a lost compare-and-set continues, a constraint
  violation looks for the concurrent winner (\<open>recovered\<close>) once the incarnation is known, a locked
  database continues, and every other exception leaves the loop.
\<close>

definition attempt_outcome :: "err + (task_budget_row option \<times> db) \<Rightarrow> (err + task_budget_row option) option \<Rightarrow> db \<Rightarrow>
    (err + task_budget_row \<times> db) option" where
  "attempt_outcome result recovered d =
     (case result of
        Inr (Some b, d') \<Rightarrow> Some (Inr (b, d'))
      | Inr (None, _) \<Rightarrow> None
      | Inl e \<Rightarrow>
          if e = SqlIntegrityError
          then (case recovered of
                  None \<Rightarrow> None
                | Some (Inl e') \<Rightarrow> Some (Inl e')
                | Some (Inr None) \<Rightarrow> None
                | Some (Inr (Some b)) \<Rightarrow> Some (Inr (b, d)))
          else if e = SqlLockedError then None else Some (Inl e))"

definition read_incarnation :: "task_budget_settings \<Rightarrow> budget_call \<Rightarrow> pydatetime \<Rightarrow> int option \<Rightarrow> db \<Rightarrow>
    err + (execution_row option \<times> task_budget_row)" where
  "read_incarnation s c now expected_generation d =
     bindR (lock_fence c now d) (\<lambda>locked.
     bindR (require_unbound s c d) (\<lambda>_.
     case get_task_budget d (bc_task_id c) of
       None \<Rightarrow> Inl (if has_execution_for_task d (bc_task_id c) then TaskBudgetLegacyUninitializedError
                    else TaskBudgetRequiredError)
     | Some record \<Rightarrow>
         bindR (requireR (expected_generation \<in> {None, Some (tb_incarnation_generation record)})
                  TaskBudgetIncarnationChangedError) (\<lambda>_.
         Inr (locked, record))))"

definition mutate_attempt :: "task_budget_settings \<Rightarrow> budget_call \<Rightarrow> (nat \<Rightarrow> nat \<Rightarrow> pydatetime) \<Rightarrow> tx_env \<Rightarrow> nat \<Rightarrow> int option \<Rightarrow> db \<Rightarrow>
    int option \<times> (err + task_budget_row \<times> db) option" where
  "mutate_attempt s c clock env i expected_generation d =
     (case (case write_intent env i of Some e \<Rightarrow> Inl e | None \<Rightarrow> read_incarnation s c (clock i 0) expected_generation d) of
        Inl e \<Rightarrow>
          (expected_generation,
           attempt_outcome (Inl e)
             (map_option (\<lambda>g. load_idempotent s c (\<lambda>k. clock i (k + 2)) g (lock_wait env i d)) expected_generation)
             (lock_wait env i d))
      | Inr (locked, record) \<Rightarrow>
          (let generation = tb_incarnation_generation record in
           (Some generation,
            attempt_outcome
              (case get_task_budget_reservation d (bc_task_id c) (task_kind_value (bc_kind c)) (bc_reservation_key c) generation of
                 Some existing \<Rightarrow> bindR (replay_reservation c (clock i 1) locked record existing) (\<lambda>b. Inr (Some b, d))
               | None \<Rightarrow> apply_reservation env i c (clock i 1) locked record d)
              (Some (load_idempotent s c (\<lambda>k. clock i (k + 2)) generation (lock_wait env i d)))
              (lock_wait env i d))))"

definition mutate_with_reservation :: "task_budget_settings \<Rightarrow> tx_env \<Rightarrow> (nat \<Rightarrow> nat \<Rightarrow> pydatetime) \<Rightarrow> budget_call \<Rightarrow> db \<Rightarrow>
    (err + task_budget_row) \<times> db" where
  "mutate_with_reservation s env clock c d =
     (if bc_reservation_key c = [] then (Inl ValueError, d)
      else case validate_recovery_mutation_authority (bc_recovery_execution_id c) (bc_recovery_fence c) (bc_expected_generation c) of
             Inl e \<Rightarrow> (Inl e, d)
           | Inr _ \<Rightarrow> continue_loop TaskBudgetConflictError (others env) (mutate_attempt s c clock env) 0 (max_attempts s)
                        (bc_expected_generation c) d)"

subsection \<open>The enrolled path\<close>

definition enrolled_transaction :: "dual_accounting_settings \<Rightarrow> (nat \<Rightarrow> db \<Rightarrow> db) \<Rightarrow> task_binding_snapshot \<Rightarrow> budget_call \<Rightarrow>
    mirror_dimension list \<Rightarrow> pydatetime \<Rightarrow> tx_env \<Rightarrow> nat \<Rightarrow> db \<Rightarrow> err + (task_budget_row option \<times> db)" where
  "enrolled_transaction ds race binding c dims now env i d =
     (let kind = task_kind_value (bc_kind c); key = bc_reservation_key c; fp = call_fingerprint c in
      bindR (case write_intent env i of Some e \<Rightarrow> Inl e | None \<Rightarrow> Inr ()) (\<lambda>_.
      bindR (ofOption TaskBudgetConflictError (get_task_binding d (bc_task_id c))) (\<lambda>current.
      bindR (require_same_binding binding current) (\<lambda>_.
      bindR (ofOption TaskBudgetRequiredError (get_task_budget d (bc_task_id c))) (\<lambda>record.
      let generation = tb_incarnation_generation record in
      case get_task_budget_reservation d (bc_task_id c) kind key generation of
        Some existing \<Rightarrow>
          bindR (verify_reservation existing fp) (\<lambda>_.
          bindR (require_mirror_replay d binding kind key fp dims) (\<lambda>_.
          bindR (budget_from_record record) (\<lambda>b. Inr (Some b, d))))
      | None \<Rightarrow>
          bindR (budget_from_record record) (\<lambda>budget.
          bindR (bc_mutate c budget) (\<lambda>values.
          let d = lock_wait env i d in
          bindR (compare_and_set_task_budget (bc_task_id c) (tb_revision budget) values (Some generation) d) (\<lambda>(updated, d').
          case updated of
            None \<Rightarrow> Inr (None, d)
          | Some u \<Rightarrow>
              bindR (save_task_budget_reservation (bc_task_id c) kind key fp (Some generation) d') (\<lambda>d''.
              bindR (mirror_resource ds race binding kind key fp dims now d'') (\<lambda>(_, d3).
              bindR (budget_from_record u) (\<lambda>result. Inr (Some result, d3))))))))))))"

definition enrolled_attempt :: "dual_accounting_settings \<Rightarrow> (nat \<Rightarrow> db \<Rightarrow> db) \<Rightarrow> task_binding_snapshot \<Rightarrow> budget_call \<Rightarrow>
    mirror_dimension list \<Rightarrow> pydatetime \<Rightarrow> tx_env \<Rightarrow> nat \<Rightarrow> unit \<Rightarrow> db \<Rightarrow> unit \<times> (err + task_budget_row \<times> db) option" where
  "enrolled_attempt ds race binding c dims now env i _ d =
     ((), case enrolled_transaction ds race binding c dims now env i d of
            Inr (Some b, d') \<Rightarrow> Some (Inr (b, d'))
          | Inr (None, _) \<Rightarrow> None
          | Inl e \<Rightarrow> if e = SqlIntegrityError \<or> e = SqlLockedError \<or> is_retryable_error e then None else Some (Inl e))"

definition mutate_enrolled_resource :: "task_budget_settings \<Rightarrow> tx_env \<Rightarrow> (nat \<Rightarrow> db \<Rightarrow> db) \<Rightarrow> pydatetime \<Rightarrow> task_binding_snapshot \<Rightarrow>
    budget_call \<Rightarrow> mirror_dimension list \<Rightarrow> db \<Rightarrow> (err + task_budget_row) \<times> db" where
  "mutate_enrolled_resource s env race now binding c dims d =
     (case tsv_dual s of
        None \<Rightarrow> (Inl TaskBudgetConflictError, d)
      | Some ds \<Rightarrow>
          if bc_reservation_key c = [] then (Inl ValueError, d)
          else continue_loop TaskBudgetConflictError (others env) (enrolled_attempt ds race binding c dims now env) 0
                 (max_attempts s) () d)"

text \<open>Phase A: is the task enrolled, and if not, which incarnation of its budget does the call own?\<close>

definition preflight_resource_accounting :: "task_budget_settings \<Rightarrow> db \<Rightarrow> string \<Rightarrow>
    err + (task_binding_snapshot option \<times> int option)" where
  "preflight_resource_accounting s d task_id =
     (if tsv_dual s = None then Inr (None, None)
      else case get_task_binding d task_id of
             Some row \<Rightarrow> Inr (Some (binding_snapshot row), None)
           | None \<Rightarrow>
               (case get_task_budget d task_id of
                  None \<Rightarrow> Inl (if has_execution_for_task d task_id then TaskBudgetLegacyUninitializedError
                               else TaskBudgetRequiredError)
                | Some record \<Rightarrow> Inr (None, Some (tb_incarnation_generation record))))"

definition mutate_resource_with_reservation :: "task_budget_settings \<Rightarrow> tx_env \<Rightarrow> (nat \<Rightarrow> nat \<Rightarrow> pydatetime) \<Rightarrow> (nat \<Rightarrow> db \<Rightarrow> db) \<Rightarrow>
    pydatetime \<Rightarrow> budget_call \<Rightarrow> mirror_dimension list \<Rightarrow> db \<Rightarrow> (err + task_budget_row) \<times> db" where
  "mutate_resource_with_reservation s env clock race now c dims d =
     (case preflight_resource_accounting s d (bc_task_id c) of
        Inl e \<Rightarrow> (Inl e, d)
      | Inr (Some binding, _) \<Rightarrow> mutate_enrolled_resource s env race now binding c dims d
      | Inr (None, generation) \<Rightarrow>
          mutate_with_reservation s env clock
            (c\<lparr>bc_expected_generation := generation, bc_require_legacy_unbound := tsv_dual s \<noteq> None\<rparr>) d)"

section \<open>The operations of the service\<close>

definition get_budget :: "db \<Rightarrow> string \<Rightarrow> err + task_budget_row option" where
  "get_budget d task_id =
     (case get_task_budget d task_id of
        None \<Rightarrow> Inr None
      | Some record \<Rightarrow> bindR (budget_from_record record) (\<lambda>b. Inr (Some b)))"

definition existing_budget :: "task_budget_policy \<Rightarrow> string \<Rightarrow> task_budget_row \<Rightarrow> err + task_budget_row" where
  "existing_budget policy fingerprint record =
     bindR (budget_from_record record) (\<lambda>b.
     bindR (require_same_policy b policy fingerprint) (\<lambda>_. Inr b))"

definition initialize_budget :: "tx_env \<Rightarrow> string \<Rightarrow> task_budget_limits \<Rightarrow> task_budget_policy \<Rightarrow> string \<Rightarrow> db \<Rightarrow>
    err + (task_budget_row \<times> db)" where
  "initialize_budget env task_id limits policy fingerprint d =
     (case get_task_budget d task_id of
        Some existing \<Rightarrow> bindR (existing_budget policy fingerprint existing) (\<lambda>b. Inr (b, d))
      | None \<Rightarrow>
          bindR (ofOption TaskBudgetRequiredError (get_task d task_id)) (\<lambda>task.
          bindR (requireR (tsk_status task \<notin> {''COMPLETED'', ''CANCELLED''}) TaskBudgetClosedError) (\<lambda>_.
          bindR (requireR (\<not> has_execution_for_task d task_id) TaskBudgetLegacyUninitializedError) (\<lambda>_.
          bindR (save_task_budget (new_budget_values task_id limits policy fingerprint) (lock_wait env 0 d)) (\<lambda>(record, d').
          bindR (budget_from_record record) (\<lambda>b. Inr (b, d')))))))"

definition ensure_budget :: "tx_env \<Rightarrow> string \<Rightarrow> task_budget_limits \<Rightarrow> task_budget_policy \<Rightarrow> db \<Rightarrow> (err + task_budget_row) \<times> db" where
  "ensure_budget env task_id limits policy d =
     (let fingerprint = task_budget_policy_fingerprint limits policy; d0 = others env 0 d in
      case initialize_budget env task_id limits policy fingerprint d0 of
        Inr (b, d') \<Rightarrow> (Inr b, d')
      | Inl e \<Rightarrow>
          if e = SqlIntegrityError
          then let d1 = others env 1 (lock_wait env 0 d0) in
               (bindR (ofOption TaskBudgetConflictError (get_task_budget d1 task_id)) (existing_budget policy fingerprint), d1)
          else (Inl e, d0))"

text \<open>A call without recovery authority, as most operations make it.\<close>

definition plain_call :: "string \<Rightarrow> task_budget_reservation_kind \<Rightarrow> string \<Rightarrow> (string \<times> json) list \<Rightarrow>
    (task_budget_row \<Rightarrow> err + (task_budget_row \<Rightarrow> task_budget_row)) \<Rightarrow> budget_call" where
  "plain_call task_id kind key payload mutate =
     \<lparr>bc_task_id = task_id, bc_kind = kind, bc_reservation_key = key, bc_payload = payload, bc_mutate = mutate,
      bc_expected_generation = None, bc_require_legacy_unbound = False, bc_recovery_execution_id = None,
      bc_recovery_fence = None\<rparr>"

definition slot_key :: "string \<Rightarrow> int \<Rightarrow> string" where
  "slot_key execution_id revision = execution_id @ '':'' @ int_text revision"

definition slot_payload :: "string \<Rightarrow> bool \<Rightarrow> (string \<times> json) list" where
  "slot_payload execution_id delegated = [(''execution_id'', JStr execution_id), (''delegated'', JBool delegated)]"

definition mutate_resume :: "bool \<Rightarrow> task_budget_row \<Rightarrow> err + (task_budget_row \<Rightarrow> task_budget_row)" where
  "mutate_resume delegated b =
     bindR (require_open b) (\<lambda>_.
     bindR (requireR (tb_active_executions b < lim_active_executions (tb_limits b)) TaskBudgetExceededError) (\<lambda>_.
     bindR (requireR (\<not> (delegated \<and> lim_parallel_agents (tb_limits b) \<le> tb_active_parallel_agents b)) TaskBudgetExceededError) (\<lambda>_.
     Inr (\<lambda>r. r\<lparr>tb_active_executions := tb_active_executions b + 1,
              tb_active_parallel_agents :=
                (if delegated then tb_active_parallel_agents b + 1 else tb_active_parallel_agents b)\<rparr>))))"

definition reserve_resume_slot :: "task_budget_settings \<Rightarrow> tx_env \<Rightarrow> (nat \<Rightarrow> nat \<Rightarrow> pydatetime) \<Rightarrow> string \<Rightarrow> string \<Rightarrow> int \<Rightarrow> bool \<Rightarrow>
    db \<Rightarrow> (err + task_budget_row) \<times> db" where
  "reserve_resume_slot s env clock task_id execution_id source_revision delegated d =
     (if source_revision < 0 then (Inl ValueError, d)
      else mutate_with_reservation s env clock
             (plain_call task_id RESUME_EXECUTION (slot_key execution_id source_revision)
               (slot_payload execution_id delegated) (mutate_resume delegated)) d)"

definition mutate_release :: "bool \<Rightarrow> task_budget_row \<Rightarrow> err + (task_budget_row \<Rightarrow> task_budget_row)" where
  "mutate_release delegated b =
     bindR (requireR (0 < tb_active_executions b) TaskBudgetConflictError) (\<lambda>_.
     bindR (requireR (\<not> (delegated \<and> tb_active_parallel_agents b \<le> 0)) TaskBudgetConflictError) (\<lambda>_.
     Inr (\<lambda>r. r\<lparr>tb_active_executions := tb_active_executions b - 1,
              tb_active_parallel_agents :=
                (if delegated then tb_active_parallel_agents b - 1 else tb_active_parallel_agents b)\<rparr>)))"

definition release_active_execution :: "task_budget_settings \<Rightarrow> tx_env \<Rightarrow> (nat \<Rightarrow> nat \<Rightarrow> pydatetime) \<Rightarrow> string \<Rightarrow> string \<Rightarrow> int \<Rightarrow> bool \<Rightarrow>
    db \<Rightarrow> (err + task_budget_row) \<times> db" where
  "release_active_execution s env clock task_id execution_id target_revision delegated d =
     (if target_revision < 0 then (Inl ValueError, d)
      else mutate_with_reservation s env clock
             (plain_call task_id RELEASE_EXECUTION (slot_key execution_id target_revision)
               (slot_payload execution_id delegated) (mutate_release delegated)) d)"

definition mutate_tool_calls :: "int \<Rightarrow> task_budget_row \<Rightarrow> err + (task_budget_row \<Rightarrow> task_budget_row)" where
  "mutate_tool_calls count b =
     bindR (require_open b) (\<lambda>_.
     let proposed = tb_used_tool_calls b + count in
     bindR (requireR (proposed \<le> lim_total_tool_calls (tb_limits b)) TaskBudgetExceededError) (\<lambda>_.
     Inr (\<lambda>r. r\<lparr>tb_used_tool_calls := proposed\<rparr>)))"

definition reserve_tool_calls :: "task_budget_settings \<Rightarrow> tx_env \<Rightarrow> (nat \<Rightarrow> nat \<Rightarrow> pydatetime) \<Rightarrow> string \<Rightarrow> string \<Rightarrow> int \<Rightarrow>
    db \<Rightarrow> (err + task_budget_row) \<times> db" where
  "reserve_tool_calls s env clock task_id reservation_key count d =
     (if count \<le> 0 then (Inl ValueError, d)
      else case preflight_resource_accounting s d task_id of
             Inl e \<Rightarrow> (Inl e, d)
           | Inr (Some _, _) \<Rightarrow> (Inl TaskBudgetUnsupportedLegacyMirrorError, d)
           | Inr (None, generation) \<Rightarrow>
               mutate_with_reservation s env clock
                 ((plain_call task_id TASK_TOOL_CALL reservation_key [(''count'', JInt count)] (mutate_tool_calls count))
                    \<lparr>bc_expected_generation := generation, bc_require_legacy_unbound := tsv_dual s \<noteq> None\<rparr>) d)"

definition mutate_inference :: "task_budget_settings \<Rightarrow> task_budget_row \<Rightarrow> err + (task_budget_row \<Rightarrow> task_budget_row)" where
  "mutate_inference s b =
     (let l = tb_limits b in
      bindR (require_open b) (\<lambda>_.
      if tsv_inference_quota_enabled s
      then Inr (\<lambda>r. r\<lparr>tb_used_inference_calls := min (tb_used_inference_calls b + 1) (lim_total_inference_calls l)\<rparr>)
      else
        bindR (requireR (tb_used_inference_calls b < lim_total_inference_calls l) TaskBudgetExceededError) (\<lambda>_.
        bindR (requireR (case lim_total_tokens l of None \<Rightarrow> True | Some m \<Rightarrow> tb_used_tokens b < m) TaskBudgetExceededError) (\<lambda>_.
        bindR (requireR (case lim_total_cost l of None \<Rightarrow> True | Some m \<Rightarrow> tb_used_cost b < m) TaskBudgetExceededError) (\<lambda>_.
        Inr (\<lambda>r. r\<lparr>tb_used_inference_calls := tb_used_inference_calls b + 1\<rparr>))))))"

definition recovery_call :: "string option \<Rightarrow> recovery_fence option \<Rightarrow> int option \<Rightarrow> budget_call \<Rightarrow> budget_call" where
  "recovery_call execution_id fence generation c =
     c\<lparr>bc_recovery_execution_id := execution_id, bc_recovery_fence := fence, bc_expected_generation := generation\<rparr>"

definition reserve_task_inference :: "task_budget_settings \<Rightarrow> tx_env \<Rightarrow> (nat \<Rightarrow> nat \<Rightarrow> pydatetime) \<Rightarrow> (nat \<Rightarrow> db \<Rightarrow> db) \<Rightarrow> pydatetime \<Rightarrow>
    string \<Rightarrow> string \<Rightarrow> string option \<Rightarrow> recovery_fence option \<Rightarrow> int option \<Rightarrow> db \<Rightarrow> (err + task_budget_row) \<times> db" where
  "reserve_task_inference s env clock race now task_id request_id recovery_execution_id fence expected_generation d =
     (let c = plain_call task_id INFERENCE request_id [] (mutate_inference s) in
      if tsv_inference_quota_enabled s \<or> tsv_dual s = None
      then mutate_with_reservation s env clock (recovery_call recovery_execution_id fence expected_generation c) d
      else if fence \<noteq> None then (Inl TaskBudgetConflictError, d)
      else mutate_resource_with_reservation s env clock race now c inference_dimensions d)"

definition mutate_usage :: "int \<Rightarrow> int \<Rightarrow> task_budget_row \<Rightarrow> err + (task_budget_row \<Rightarrow> task_budget_row)" where
  "mutate_usage tokens cost b =
     bindR (requireR (tb_used_cost b + cost < 10 ^ 28) InvalidOperation) (\<lambda>_.
     Inr (\<lambda>r. r\<lparr>tb_used_tokens := tb_used_tokens b + tokens, tb_used_cost := tb_used_cost b + cost\<rparr>))"

definition account_usage :: "task_budget_settings \<Rightarrow> tx_env \<Rightarrow> (nat \<Rightarrow> nat \<Rightarrow> pydatetime) \<Rightarrow> (nat \<Rightarrow> db \<Rightarrow> db) \<Rightarrow> pydatetime \<Rightarrow>
    string \<Rightarrow> string \<Rightarrow> int \<Rightarrow> pyval \<Rightarrow> string option \<Rightarrow> recovery_fence option \<Rightarrow> int option \<Rightarrow> db \<Rightarrow> (err + task_budget_row) \<times> db" where
  "account_usage s env clock race now task_id usage_key tokens cost_usd recovery_execution_id fence expected_generation d =
     (if tokens < 0 then (Inl ValueError, d)
      else case normalize_task_budget_cost cost_usd of
             Inl e \<Rightarrow> (Inl e, d)
           | Inr n \<Rightarrow>
               (let cost = scaled_int n;
                    c = plain_call task_id USAGE usage_key
                          [(''tokens'', JInt tokens), (''cost_usd'', JStr (cost_text (dec_neg n) (dec_coeff n)))]
                          (mutate_usage tokens cost) in
                if cost < 0 then (Inl ValueError, d)
                else if tsv_inference_quota_enabled s \<or> tsv_dual s = None
                then mutate_with_reservation s env clock (recovery_call recovery_execution_id fence expected_generation c) d
                else if fence \<noteq> None then (Inl TaskBudgetConflictError, d)
                else case usage_dimensions tokens (VDec n) of
                       Inl e \<Rightarrow> (Inl e, d)
                     | Inr dims \<Rightarrow> mutate_resource_with_reservation s env clock race now c dims d))"

definition mutate_branch :: "task_budget_row \<Rightarrow> err + (task_budget_row \<Rightarrow> task_budget_row)" where
  "mutate_branch b =
     bindR (require_open b) (\<lambda>_.
     bindR (requireR (tb_active_branches b < lim_active_branches (tb_limits b)) TaskBudgetExceededError) (\<lambda>_.
     Inr (\<lambda>r. r\<lparr>tb_active_branches := tb_active_branches b + 1\<rparr>)))"

definition reserve_branch_slot :: "task_budget_settings \<Rightarrow> tx_env \<Rightarrow> (nat \<Rightarrow> nat \<Rightarrow> pydatetime) \<Rightarrow> string \<Rightarrow> string \<Rightarrow> db \<Rightarrow>
    (err + task_budget_row) \<times> db" where
  "reserve_branch_slot s env clock task_id reservation_key d =
     mutate_with_reservation s env clock (plain_call task_id BRANCH reservation_key [] mutate_branch) d"

definition mutate_release_branch :: "task_budget_row \<Rightarrow> err + (task_budget_row \<Rightarrow> task_budget_row)" where
  "mutate_release_branch b =
     bindR (requireR (0 < tb_active_branches b) TaskBudgetConflictError) (\<lambda>_.
     Inr (\<lambda>r. r\<lparr>tb_active_branches := tb_active_branches b - 1\<rparr>))"

definition release_branch_slot :: "task_budget_settings \<Rightarrow> tx_env \<Rightarrow> (nat \<Rightarrow> nat \<Rightarrow> pydatetime) \<Rightarrow> string \<Rightarrow> string \<Rightarrow> db \<Rightarrow>
    (err + task_budget_row) \<times> db" where
  "release_branch_slot s env clock task_id reservation_key d =
     mutate_with_reservation s env clock (plain_call task_id RELEASE_BRANCH reservation_key [] mutate_release_branch) d"

definition close_attempt :: "string \<Rightarrow> (nat \<Rightarrow> pydatetime) \<Rightarrow> tx_env \<Rightarrow> nat \<Rightarrow> unit \<Rightarrow> db \<Rightarrow>
    unit \<times> (err + task_budget_row \<times> db) option" where
  "close_attempt task_id clock env i _ d =
     ((), case (bindR (case write_intent env i of Some e \<Rightarrow> Inl e | None \<Rightarrow> Inr ()) (\<lambda>_.
                bindR (ofOption TaskBudgetRequiredError (get_task_budget d task_id)) (\<lambda>record.
                bindR (budget_from_record record) (\<lambda>budget.
                if tb_state budget = TB_CLOSED then Inr (Some budget, d)
                else bindR (compare_and_set_task_budget task_id (tb_revision budget)
                              (\<lambda>r. r\<lparr>tb_state := TB_CLOSED, tb_closed_at := Some (clock i)\<rparr>)
                              (Some (tb_incarnation_generation record)) (lock_wait env i d)) (\<lambda>(updated, d').
                     case updated of
                       None \<Rightarrow> Inr (None, d)
                     | Some u \<Rightarrow> bindR (budget_from_record u) (\<lambda>b. Inr (Some b, d'))))))) of
            Inl e \<Rightarrow> Some (Inl e)
          | Inr (None, _) \<Rightarrow> None
          | Inr (Some b, d') \<Rightarrow> Some (Inr (b, d')))"

definition close_budget :: "task_budget_settings \<Rightarrow> tx_env \<Rightarrow> (nat \<Rightarrow> pydatetime) \<Rightarrow> string \<Rightarrow> db \<Rightarrow> (err + task_budget_row) \<times> db" where
  "close_budget s env clock task_id d =
     continue_loop TaskBudgetConflictError (others env) (close_attempt task_id clock env) 0 (max_attempts s) () d"

end
