(* ===== verification/Task_Budget_Laws.thy ===== *)
theory Task_Budget_Laws
  imports Task_Budget
begin

text \<open>
  What the task budget promises. The invariant of the two tables (keys, constraints, and that the
  inference counter is the number of inference reservations) is kept by every operation in every
  environment that keeps it; a reservation is applied once; a charge of an enrolled task and its
  mirror in the user's budget commit together.
\<close>

section \<open>The compare-and-set\<close>

definition keeps_identity :: "(task_budget_row \<Rightarrow> task_budget_row) \<Rightarrow> bool" where
  "keeps_identity f \<longleftrightarrow>
     (\<forall>r. tb_task_id (f r) = tb_task_id r \<and> tb_incarnation_generation (f r) = tb_incarnation_generation r \<and>
          tb_limits (f r) = tb_limits r)"

definition put_budget :: "task_budget_row \<Rightarrow> db \<Rightarrow> db" where
  "put_budget u d = d\<lparr>task_budgets := map (\<lambda>r. if tb_task_id r = tb_task_id u then u else r) (task_budgets d)\<rparr>"

definition budget_keys :: "db \<Rightarrow> bool" where
  "budget_keys d \<longleftrightarrow> distinct (map tb_task_id (task_budgets d))"

lemma find_unique:
  "distinct (map f xs) \<Longrightarrow> x \<in> set xs \<Longrightarrow> f x = k \<Longrightarrow> List.find (\<lambda>y. f y = k) xs = Some x"
  by (induction xs) auto

lemma get_task_budget_SomeD: "get_task_budget d t = Some b \<Longrightarrow> b \<in> set (task_budgets d) \<and> tb_task_id b = t"
  by (auto simp: get_task_budget_def find_Some_iff)

lemma get_task_budget_iff:
  "budget_keys d \<Longrightarrow> get_task_budget d t = Some b \<longleftrightarrow> b \<in> set (task_budgets d) \<and> tb_task_id b = t"
  using get_task_budget_SomeD [of d t b] find_unique [of tb_task_id "task_budgets d" b t]
  by (auto simp: budget_keys_def get_task_budget_def)

lemma map_if_key: "map g (map (\<lambda>r. if g r = g u then u else r) xs) = map g xs"
  by (induction xs) auto

lemma put_budget_keys [simp]: "budget_keys (put_budget u d) \<longleftrightarrow> budget_keys d"
  by (simp add: budget_keys_def put_budget_def map_if_key del: map_map)

lemma get_put_budget:
  assumes "budget_keys d" "get_task_budget d (tb_task_id u) = Some b"
  shows "get_task_budget (put_budget u d) (tb_task_id u) = Some u"
proof -
  have "budget_keys (put_budget u d)" using assms(1) by simp
  moreover have "u \<in> set (task_budgets (put_budget u d))"
    using get_task_budget_SomeD [OF assms(2)] by (auto simp: put_budget_def intro: rev_image_eqI)
  ultimately show ?thesis by (simp add: get_task_budget_iff)
qed

lemma compare_and_set_task_budgetE:
  assumes "compare_and_set_task_budget t v f (Some g) d = Inr (Some u, d')" "budget_keys d" "keeps_identity f"
  obtains b where "get_task_budget d t = Some b" "tb_revision b = v" "tb_incarnation_generation b = g"
    "u = (f b)\<lparr>tb_revision := v + 1\<rparr>" "tb_task_id u = t" "task_budget_fits u" "task_budget_row_ok u" "d' = put_budget u d"
proof -
  let ?hit = "\<lambda>b. tb_task_id b = t \<and> tb_revision b = v \<and> tb_incarnation_generation b = g"
  let ?next = "\<lambda>b. (f b)\<lparr>tb_revision := v + 1\<rparr>"
  obtain b where one: "filter ?hit (task_budgets d) = [b]"
    and ok: "task_budget_fits (?next b)" "task_budget_row_ok (?next b)"
    and d': "d' = d\<lparr>task_budgets := upd_where ?hit ?next (task_budgets d)\<rparr>" and u: "get_task_budget d' t = Some u"
    using assms(1) unfolding compare_and_set_task_budget_def Let_def
    by (auto split: if_splits simp: length_Suc_conv)
  have b: "b \<in> set (task_budgets d)" "?hit b" using one by (auto dest!: arg_cong [where f = set])
  have same: "r = b" if "r \<in> set (task_budgets d)" "tb_task_id r = t" for r
    using that b assms(2) by (auto simp: budget_keys_def distinct_map dest: inj_onD)
  have id: "tb_task_id (?next b) = t" using assms(3) b by (simp add: keeps_identity_def)
  have "(if ?hit r then ?next r else r) = (if tb_task_id r = tb_task_id (?next b) then ?next b else r)"
    if "r \<in> set (task_budgets d)" for r
    using same [OF that] b(2) id by (cases "tb_task_id r = t") auto
  then have d'': "d' = put_budget (?next b) d"
    unfolding d' put_budget_def upd_where_def by (simp cong: map_cong)
  have gb: "get_task_budget d t = Some b" using b assms(2) by (simp add: get_task_budget_iff)
  then have "get_task_budget d' t = Some (?next b)"
    using get_put_budget [OF assms(2), of "?next b"] id d'' by simp
  with u have "u = ?next b" by simp
  with that gb b ok id d'' show thesis by simp
qed

section \<open>The invariant of the two tables\<close>

definition inference_count :: "db \<Rightarrow> string \<Rightarrow> int \<Rightarrow> int" where
  "inference_count d t g =
     int (length (filter (\<lambda>r. tbr_task_id r = t \<and> tbr_incarnation_generation r = g \<and> tbr_kind r = ''INFERENCE'')
                    (task_budget_reservations d)))"

definition tbr_key :: "task_budget_reservation_row \<Rightarrow> string \<times> string \<times> string" where
  "tbr_key r = (tbr_task_id r, tbr_kind r, tbr_reservation_key r)"

definition budget_row_inv :: "db \<Rightarrow> task_budget_row \<Rightarrow> bool" where
  "budget_row_inv d b \<longleftrightarrow>
     task_budget_valid b \<and> task_budget_row_ok b \<and> task_budget_fits b \<and>
     tb_incarnation_generation b < task_budget_next_generation d \<and>
     tb_used_inference_calls b =
       min (lim_total_inference_calls (tb_limits b)) (inference_count d (tb_task_id b) (tb_incarnation_generation b))"

definition reservation_rows_inv :: "db \<Rightarrow> bool" where
  "reservation_rows_inv d \<longleftrightarrow>
     distinct (map tbr_key (task_budget_reservations d)) \<and>
     (\<forall>r \<in> set (task_budget_reservations d).
        (tbr_task_id r, tbr_incarnation_generation r) \<in> (\<lambda>b. (tb_task_id b, tb_incarnation_generation b)) ` set (task_budgets d))"

definition task_budget_inv :: "db \<Rightarrow> bool" where
  "task_budget_inv d \<longleftrightarrow>
     budget_keys d \<and> (\<forall>b \<in> set (task_budgets d). budget_row_inv d b) \<and> reservation_rows_inv d"

lemma task_budget_invD:
  assumes "task_budget_inv d"
  shows "budget_keys d" "get_task_budget d t = Some b \<Longrightarrow> budget_row_inv d b"
    "reservation_rows_inv d"
  using assms by (auto simp: task_budget_inv_def dest: get_task_budget_SomeD)

definition add_tbr :: "task_budget_reservation_row \<Rightarrow> db \<Rightarrow> db" where
  "add_tbr r d = d\<lparr>task_budget_reservations := task_budget_reservations d @ [r]\<rparr>"

text \<open>Replacing a budget row and recording the reservation that pays for the change keeps the invariant.\<close>

definition paid_change :: "task_budget_row \<Rightarrow> task_budget_row \<Rightarrow> string option \<Rightarrow> bool" where
  "paid_change b u kind \<longleftrightarrow>
     tb_task_id u = tb_task_id b \<and> tb_incarnation_generation u = tb_incarnation_generation b \<and> tb_limits u = tb_limits b \<and>
     tb_used_inference_calls u =
       (if kind = Some ''INFERENCE'' then min (lim_total_inference_calls (tb_limits b)) (tb_used_inference_calls b + 1)
        else tb_used_inference_calls b)"

lemma other_row_same:
  "\<lbrakk>budget_keys d; get_task_budget d t = Some b; r \<in> set (task_budgets d); tb_task_id r = t\<rbrakk> \<Longrightarrow> r = b"
  using get_task_budget_iff [of d t r] by simp

abbreviation budget_ids :: "db \<Rightarrow> (string \<times> int) set" where
  "budget_ids d \<equiv> (\<lambda>b. (tb_task_id b, tb_incarnation_generation b)) ` set (task_budgets d)"

lemma put_budget_ids:
  assumes "budget_keys d" "get_task_budget d (tb_task_id u) = Some b" "tb_incarnation_generation u = tb_incarnation_generation b"
  shows "budget_ids (put_budget u d) = budget_ids d"
proof -
  have "(tb_task_id (if tb_task_id x = tb_task_id u then u else x), tb_incarnation_generation (if tb_task_id x = tb_task_id u then u else x)) =
      (tb_task_id x, tb_incarnation_generation x)" if "x \<in> set (task_budgets d)" for x
    using other_row_same [OF assms(1,2) that] assms(3) by (cases "tb_task_id x = tb_task_id u") auto
  moreover have "task_budgets (put_budget u d) = map (\<lambda>x. if tb_task_id x = tb_task_id u then u else x) (task_budgets d)"
    by (simp add: put_budget_def)
  ultimately show ?thesis unfolding set_map image_image by (simp only: set_map image_image cong: image_cong)
qed

lemma put_budget_tables [simp]:
  "task_budget_reservations (put_budget u d) = task_budget_reservations d"
  "task_budget_next_generation (put_budget u d) = task_budget_next_generation d"
  "x \<in> set (task_budgets (put_budget u d)) \<longleftrightarrow>
     (x = u \<and> tb_task_id u \<in> tb_task_id ` set (task_budgets d)) \<or> (x \<in> set (task_budgets d) \<and> tb_task_id x \<noteq> tb_task_id u)"
  by (auto simp: put_budget_def rev_image_eqI)

lemma add_tbr_tables [simp]:
  "task_budgets (add_tbr r d) = task_budgets d"
  "task_budget_reservations (add_tbr r d) = task_budget_reservations d @ [r]"
  "task_budget_next_generation (add_tbr r d) = task_budget_next_generation d"
  "budget_keys (add_tbr r d) \<longleftrightarrow> budget_keys d"
  by (simp_all add: add_tbr_def budget_keys_def)

lemma inference_count_put [simp]: "inference_count (put_budget u d) t g = inference_count d t g"
  by (simp add: inference_count_def)

lemma inference_count_add [simp]:
  "inference_count (add_tbr r d) t g = inference_count d t g +
     (if tbr_task_id r = t \<and> tbr_incarnation_generation r = g \<and> tbr_kind r = ''INFERENCE'' then 1 else 0)"
  by (simp add: inference_count_def)

lemma put_budget_inv:
  assumes inv: "task_budget_inv d" and b: "get_task_budget d (tb_task_id u) = Some b" and pc: "paid_change b u None"
    and u: "task_budget_valid u" "task_budget_row_ok u" "task_budget_fits u"
  shows "task_budget_inv (put_budget u d)"
proof -
  have row: "budget_row_inv d b" using task_budget_invD(2) [OF inv b] .
  have "budget_row_inv (put_budget u d) r" if "r \<in> set (task_budgets (put_budget u d))" for r
  proof (cases "r = u")
    case True
    then show ?thesis using row pc u by (simp add: budget_row_inv_def paid_change_def)
  next
    case False
    then show ?thesis using that inv by (simp add: budget_row_inv_def task_budget_inv_def)
  qed
  moreover have "reservation_rows_inv (put_budget u d)"
    using task_budget_invD(1,3) [OF inv] put_budget_ids [OF _ b] pc by (simp add: reservation_rows_inv_def paid_change_def)
  ultimately show ?thesis using task_budget_invD(1) [OF inv] by (simp add: task_budget_inv_def)
qed

lemma put_add_inv:
  assumes inv: "task_budget_inv d" and b: "get_task_budget d (tb_task_id u) = Some b"
    and pc: "paid_change b u (Some (tbr_kind r))"
    and u: "task_budget_valid u" "task_budget_row_ok u" "task_budget_fits u"
    and r: "tbr_task_id r = tb_task_id u" "tbr_incarnation_generation r = tb_incarnation_generation u"
      "tbr_key r \<notin> tbr_key ` set (task_budget_reservations d)"
  shows "task_budget_inv (add_tbr r (put_budget u d))"
proof -
  let ?d = "add_tbr r (put_budget u d)"
  have row: "budget_row_inv d b" using task_budget_invD(2) [OF inv b] .
  have bt: "b \<in> set (task_budgets d)" "tb_task_id b = tb_task_id u" using get_task_budget_SomeD [OF b] by auto
  have "budget_row_inv ?d x" if x: "x \<in> set (task_budgets ?d)" for x
  proof (cases "x = u")
    case True
    then show ?thesis using row pc u r by (auto simp: budget_row_inv_def paid_change_def)
  next
    case False
    then show ?thesis using x inv r(1) by (auto simp: budget_row_inv_def task_budget_inv_def)
  qed
  moreover have "reservation_rows_inv ?d"
  proof -
    have "(tbr_task_id r, tbr_incarnation_generation r) \<in> budget_ids d"
      using pc r by (intro image_eqI [OF _ bt(1)]) (simp add: paid_change_def)
    then show ?thesis
      using task_budget_invD(1,3) [OF inv] put_budget_ids [OF _ b] pc r(3)
      by (simp add: reservation_rows_inv_def paid_change_def)
  qed
  ultimately show ?thesis using task_budget_invD(1) [OF inv] by (simp add: task_budget_inv_def)
qed

section \<open>One transaction\<close>

text \<open>
  What a call relies on: other transactions keep the invariants of the task budget and of the user
  budget, and a row that still has the revision
  that was read is unchanged, because every writer increments the revision.
\<close>

definition same_revision :: "db \<Rightarrow> db \<Rightarrow> bool" where
  "same_revision d d' \<longleftrightarrow>
     (\<forall>b \<in> set (task_budgets d). \<forall>b' \<in> set (task_budgets d').
        tb_task_id b' = tb_task_id b \<and> tb_incarnation_generation b' = tb_incarnation_generation b \<and>
        tb_revision b' = tb_revision b \<longrightarrow> b' = b)"

definition joint_inv :: "db \<Rightarrow> bool" where
  "joint_inv d \<longleftrightarrow> task_budget_inv d \<and> budget_inv d"

definition joint_env_ok :: "tx_env \<Rightarrow> bool" where
  "joint_env_ok env \<longleftrightarrow>
     (\<forall>i d. joint_inv d \<longrightarrow> joint_inv (others env i d)) \<and>
     (\<forall>i d. joint_inv d \<longrightarrow> joint_inv (lock_wait env i d) \<and> same_revision d (lock_wait env i d))"

lemma account_refs_task_tables [simp]:
  "account_refs_ok (d\<lparr>task_budgets := bs\<rparr>) = account_refs_ok d"
  "account_refs_ok (d\<lparr>task_budget_reservations := rs\<rparr>) = account_refs_ok d"
  "account_refs_ok (d\<lparr>task_budget_next_generation := g\<rparr>) = account_refs_ok d"
  by (auto simp: account_refs_ok_def split: option.splits)

lemma budget_inv_task_tables [simp]:
  "budget_inv (d\<lparr>task_budgets := bs\<rparr>) \<longleftrightarrow> budget_inv d"
  "budget_inv (d\<lparr>task_budget_reservations := rs\<rparr>) \<longleftrightarrow> budget_inv d"
  "budget_inv (d\<lparr>task_budget_next_generation := g\<rparr>) \<longleftrightarrow> budget_inv d"
  by (simp_all add: budget_inv_defs)

lemma budget_inv_put_add [simp]:
  "budget_inv (put_budget u d) \<longleftrightarrow> budget_inv d" "budget_inv (add_tbr r d) \<longleftrightarrow> budget_inv d"
  by (simp_all add: put_budget_def add_tbr_def)

lemma same_revision_refl: "budget_keys d \<Longrightarrow> same_revision d d"
  by (auto simp: same_revision_def budget_keys_def distinct_map dest: inj_onD)

lemma quiet_joint_env_ok: "joint_env_ok quiet_env"
  by (auto simp: joint_env_ok_def joint_inv_def quiet_env_def intro: same_revision_refl task_budget_invD(1))

definition mutator_ok :: "task_budget_reservation_kind \<Rightarrow> (task_budget_row \<Rightarrow> err + (task_budget_row \<Rightarrow> task_budget_row)) \<Rightarrow> bool" where
  "mutator_ok kind m \<longleftrightarrow>
     (\<forall>b f. m b = Inr f \<longrightarrow>
        keeps_identity f \<and>
        tb_used_inference_calls (f b) =
          (if kind = INFERENCE then min (lim_total_inference_calls (tb_limits b)) (tb_used_inference_calls b + 1)
           else tb_used_inference_calls b))"

lemma mutators_ok [simp]:
  "mutator_ok RESUME_EXECUTION (mutate_resume delegated)"
  "mutator_ok RELEASE_EXECUTION (mutate_release delegated)"
  "mutator_ok TASK_TOOL_CALL (mutate_tool_calls count)"
  "mutator_ok INFERENCE (mutate_inference s)"
  "mutator_ok USAGE (mutate_usage tokens cost)"
  "mutator_ok BRANCH mutate_branch"
  "mutator_ok RELEASE_BRANCH mutate_release_branch"
  by (auto simp: mutator_ok_def keeps_identity_def mutate_resume_def mutate_release_def mutate_tool_calls_def
      mutate_inference_def mutate_usage_def mutate_branch_def mutate_release_branch_def Let_def min_def
      split: if_splits)

text \<open>A call has been applied: its reservation is durable under its fingerprint.\<close>

definition call_reservation :: "budget_call \<Rightarrow> int \<Rightarrow> task_budget_reservation_row" where
  "call_reservation c g =
     \<lparr>tbr_task_id = bc_task_id c, tbr_kind = task_kind_value (bc_kind c), tbr_reservation_key = bc_reservation_key c,
      tbr_incarnation_generation = g, tbr_payload_fingerprint = call_fingerprint c\<rparr>"

definition reserved :: "budget_call \<Rightarrow> task_budget_row \<Rightarrow> db \<Rightarrow> bool" where
  "reserved c b d \<longleftrightarrow>
     get_task_budget d (bc_task_id c) = Some b \<and>
     call_reservation c (tb_incarnation_generation b) \<in> set (task_budget_reservations d)"

lemma task_kind_inference [simp]: "task_kind_value k = ''INFERENCE'' \<longleftrightarrow> k = INFERENCE"
  by (cases k) auto

lemma save_reservationE:
  assumes "save_task_budget_reservation t k key fp (Some g) d = Inr d'"
  obtains b where "get_task_budget d t = Some b" "tb_incarnation_generation b = g"
    "(t, k, key) \<notin> tbr_key ` set (task_budget_reservations d)"
    "d' = add_tbr \<lparr>tbr_task_id = t, tbr_kind = k, tbr_reservation_key = key, tbr_incarnation_generation = g,
                   tbr_payload_fingerprint = fp\<rparr> d"
  using assms
  by (auto simp: save_task_budget_reservation_def Let_def ofOption_def add_tbr_def tbr_key_def image_iff
      split: option.splits if_splits)

lemma budget_from_record_Inr [simp]: "budget_from_record b = Inr x \<longleftrightarrow> task_budget_valid b \<and> x = b"
  by (auto simp: budget_from_record_def)

text \<open>
  The compare-and-set and the insertion of the reservation, on a state that agrees with the one read.
\<close>

lemma reservation_committed:
  assumes inv: "task_budget_inv dl" and rev: "same_revision d dl" and keys: "budget_keys d"
    and b: "get_task_budget d (bc_task_id c) = Some b" and m: "mutator_ok (bc_kind c) (bc_mutate c)" "bc_mutate c b = Inr f"
    and cas: "compare_and_set_task_budget (bc_task_id c) (tb_revision b) f (Some (tb_incarnation_generation b)) dl = Inr (Some u, d1)"
    and save: "save_task_budget_reservation (bc_task_id c) (task_kind_value (bc_kind c)) (bc_reservation_key c)
        (call_fingerprint c) (Some (tb_incarnation_generation b)) d1 = Inr d2"
    and u: "task_budget_valid u"
  shows "task_budget_inv d2" "reserved c u d2" "u = (f b)\<lparr>tb_revision := tb_revision b + 1\<rparr>"
    "get_task_budget dl (bc_task_id c) = Some b"
    "d2 = add_tbr (call_reservation c (tb_incarnation_generation b)) (put_budget u dl)"
proof -
  let ?r = "call_reservation c (tb_incarnation_generation b)"
  have f: "keeps_identity f" and fi: "tb_used_inference_calls (f b) =
      (if bc_kind c = INFERENCE then min (lim_total_inference_calls (tb_limits b)) (tb_used_inference_calls b + 1)
       else tb_used_inference_calls b)"
    using m unfolding mutator_ok_def by blast+
  obtain x where x: "get_task_budget dl (bc_task_id c) = Some x" "tb_revision x = tb_revision b"
      "tb_incarnation_generation x = tb_incarnation_generation b" "u = (f x)\<lparr>tb_revision := tb_revision b + 1\<rparr>"
      "tb_task_id u = bc_task_id c" "task_budget_fits u" "task_budget_row_ok u" "d1 = put_budget u dl"
    by (rule compare_and_set_task_budgetE [OF cas task_budget_invD(1) [OF inv] f])
  have xb: "x = b"
    using rev [unfolded same_revision_def] get_task_budget_SomeD [OF b] get_task_budget_SomeD [OF x(1)] x(2,3) by simp
  show dl: "get_task_budget dl (bc_task_id c) = Some b" and ud: "u = (f b)\<lparr>tb_revision := tb_revision b + 1\<rparr>"
    using x xb by auto
  have saved: "d2 = add_tbr ?r d1 \<and> tbr_key ?r \<notin> tbr_key ` set (task_budget_reservations d1)"
    using save by (rule save_reservationE) (simp add: call_reservation_def tbr_key_def)
  then show d2: "d2 = add_tbr ?r (put_budget u dl)" by (simp add: x(8))
  have new: "tbr_key ?r \<notin> tbr_key ` set (task_budget_reservations dl)" using saved by (simp add: x(8))
  have pc: "paid_change b u (Some (tbr_kind ?r))"
    using f fi by (simp add: paid_change_def ud keeps_identity_def call_reservation_def)
  show "task_budget_inv d2"
    unfolding d2 using pc dl x(5)
    by (intro put_add_inv [OF inv _ pc u x(7,6) _ _ new]) (simp_all add: call_reservation_def paid_change_def)
  show "reserved c u d2"
    using get_put_budget [OF task_budget_invD(1) [OF inv], of u b] pc dl x(5)
    by (simp add: reserved_def d2 get_task_budget_def paid_change_def)
qed

lemma get_tbr_SomeD:
  "get_task_budget_reservation d t k key g = Some r \<Longrightarrow>
   r \<in> set (task_budget_reservations d) \<and> tbr_task_id r = t \<and> tbr_kind r = k \<and> tbr_reservation_key r = key \<and>
   tbr_incarnation_generation r = g"
  by (auto simp: get_task_budget_reservation_def find_Some_iff)

abbreviation own_reservation :: "db \<Rightarrow> budget_call \<Rightarrow> int \<Rightarrow> task_budget_reservation_row option" where
  "own_reservation d c g \<equiv>
     get_task_budget_reservation d (bc_task_id c) (task_kind_value (bc_kind c)) (bc_reservation_key c) g"

lemma verified_reserved:
  assumes "get_task_budget d (bc_task_id c) = Some b" "own_reservation d c (tb_incarnation_generation b) = Some r"
    "verify_reservation r (call_fingerprint c) = Inr ()"
  shows "reserved c b d"
proof -
  have "r = call_reservation c (tb_incarnation_generation b)"
    using get_tbr_SomeD [OF assms(2)] assms(3) by (cases r) (auto simp: call_reservation_def verify_reservation_def)
  then show ?thesis using assms(1) get_tbr_SomeD [OF assms(2)] by (auto simp: reserved_def)
qed

lemma replay_reservationE:
  assumes "replay_reservation c now locked record r = Inr b"
  obtains "verify_reservation r (call_fingerprint c) = Inr ()" "b = record" "task_budget_valid record"
    "recheck_fence c now locked = Inr ()"
  using assms by (auto simp: replay_reservation_def)

lemma load_idempotent_reserved:
  assumes "load_idempotent s c clock g d = Inr (Some b)"
  shows "reserved c b d"
  using assms
  by (auto simp: load_idempotent_def ofOption_def split: option.splits elim!: replay_reservationE intro: verified_reserved)

lemma apply_reservation_inv:
  assumes "apply_reservation env i c now locked b d = Inr (Some u, d')" "get_task_budget d (bc_task_id c) = Some b"
    "joint_env_ok env" "joint_inv d" "mutator_ok (bc_kind c) (bc_mutate c)"
  shows "joint_inv d' \<and> reserved c u d'"
proof -
  obtain f d1 where f: "bc_mutate c b = Inr f"
    and cas: "compare_and_set_task_budget (bc_task_id c) (tb_revision b) f (Some (tb_incarnation_generation b))
        (lock_wait env i d) = Inr (Some u, d1)"
    and save: "save_task_budget_reservation (bc_task_id c) (task_kind_value (bc_kind c)) (bc_reservation_key c)
        (call_fingerprint c) (Some (tb_incarnation_generation b)) d1 = Inr d'"
    and u: "task_budget_valid u"
    using assms(1) by (auto simp: apply_reservation_def Let_def split: option.splits)
  have dl: "task_budget_inv (lock_wait env i d)" "same_revision d (lock_wait env i d)" "budget_inv (lock_wait env i d)"
    and keys: "budget_keys d"
    using assms(3,4) by (auto simp: joint_env_ok_def joint_inv_def task_budget_inv_def)
  from reservation_committed [OF dl(1,2) keys assms(2,5) f cas save u] dl(3) show ?thesis by (simp add: joint_inv_def)
qed

lemma attempt_outcomeE:
  assumes "attempt_outcome result recovered d = Some (Inr (b, d'))"
  obtains (done_here) "result = Inr (Some b, d')"
  | (recovered) "result = Inl SqlIntegrityError" "recovered = Some (Inr (Some b))" "d' = d"
  using assms by (auto simp: attempt_outcome_def split: sum.splits option.splits if_splits prod.splits)

lemma read_incarnation_budget:
  "read_incarnation s c now g d = Inr (locked, record) \<Longrightarrow>
   get_task_budget d (bc_task_id c) = Some record \<and> g \<in> {None, Some (tb_incarnation_generation record)}"
  by (auto simp: read_incarnation_def split: option.splits)

lemma mutate_attempt_inv:
  assumes env: "joint_env_ok env" and inv: "joint_inv d" and m: "mutator_ok (bc_kind c) (bc_mutate c)"
    and r: "mutate_attempt s c clock env i g d = (g', Some (Inr (b, d')))"
  shows "joint_inv d' \<and> reserved c b d'"
proof -
  let ?dl = "lock_wait env i d"
  have dl: "joint_inv ?dl" using env inv by (auto simp: joint_env_ok_def)
  show ?thesis
  proof (cases "case write_intent env i of Some e \<Rightarrow> Inl e | None \<Rightarrow> read_incarnation s c (clock i 0) g d")
    case (Inl e)
    then show ?thesis
      using r dl by (auto simp: mutate_attempt_def elim!: attempt_outcomeE intro: load_idempotent_reserved)
  next
    case (Inr p)
    then obtain locked row where p: "p = (locked, row)" and b: "get_task_budget d (bc_task_id c) = Some row"
      by (cases p) (auto split: option.splits dest: read_incarnation_budget)
    from r Inr p have "attempt_outcome
        (case own_reservation d c (tb_incarnation_generation row) of
           Some existing \<Rightarrow> bindR (replay_reservation c (clock i 1) locked row existing) (\<lambda>b. Inr (Some b, d))
         | None \<Rightarrow> apply_reservation env i c (clock i 1) locked row d)
        (Some (load_idempotent s c (\<lambda>k. clock i (k + 2)) (tb_incarnation_generation row) ?dl)) ?dl = Some (Inr (b, d'))"
      by (simp add: mutate_attempt_def Let_def)
    then show ?thesis
    proof (cases rule: attempt_outcomeE)
      case done_here
      then show ?thesis
        using inv b by (cases "own_reservation d c (tb_incarnation_generation row)")
          (auto elim!: replay_reservationE intro: verified_reserved dest!: apply_reservation_inv [OF _ b env inv m])
    next
      case recovered
      then show ?thesis using dl by (auto intro: load_idempotent_reserved)
    qed
  qed
qed

interpretation task_mutation: continued_transaction "\<lambda>env. joint_env_ok env \<and> mutator_ok (bc_kind c) (bc_mutate c)" others
  "\<lambda>env (s, clock). mutate_attempt s c clock env" joint_inv "\<lambda>_ b d. reserved c b d" for c
proof unfold_locales
  show "\<And>env d i. joint_env_ok env \<and> mutator_ok (bc_kind c) (bc_mutate c) \<Longrightarrow> joint_inv d \<Longrightarrow> joint_inv (others env i d)"
    by (simp add: joint_env_ok_def)
  show "\<And>env d arg i g g' b d'. joint_env_ok env \<and> mutator_ok (bc_kind c) (bc_mutate c) \<Longrightarrow> joint_inv d \<Longrightarrow>
      (case arg of (s, clock) \<Rightarrow> mutate_attempt s c clock env) i g d = (g', Some (Inr (b, d'))) \<Longrightarrow>
      joint_inv d' \<and> reserved c b d'"
    by (auto split: prod.splits dest: mutate_attempt_inv)
qed

lemma mutate_with_reservation_inv:
  assumes "joint_env_ok env" "mutator_ok (bc_kind c) (bc_mutate c)" "joint_inv d"
  shows "joint_inv (snd (mutate_with_reservation s env clock c d))"
  using task_mutation.continued_inv [of env c d TaskBudgetConflictError "(s, clock)" 0 "max_attempts s" "bc_expected_generation c"] assms
  by (auto simp: mutate_with_reservation_def split: sum.splits)

lemma mutate_with_reservation_reserved:
  assumes "joint_env_ok env" "mutator_ok (bc_kind c) (bc_mutate c)" "joint_inv d"
    and "mutate_with_reservation s env clock c d = (Inr b, d')"
  shows "reserved c b d'"
  using task_mutation.continued_result [of env c d TaskBudgetConflictError "(s, clock)" 0 "max_attempts s" "bc_expected_generation c" b d'] assms
  by (auto simp: mutate_with_reservation_def split: sum.splits if_splits)

section \<open>Creation and closing\<close>

lemma save_task_budgetE:
  assumes "save_task_budget v d = Inr (b, d')"
  obtains "b = v\<lparr>tb_incarnation_generation := task_budget_next_generation d\<rparr>" "task_budget_fits b" "task_budget_row_ok b"
    "tb_task_id b \<notin> tb_task_id ` set (task_budgets d)"
    "d' = d\<lparr>task_budgets := task_budgets d @ [b], task_budget_next_generation := task_budget_next_generation d + 1\<rparr>"
  using assms by (auto simp: save_task_budget_def Let_def split: if_splits)

text \<open>A new budget has a fresh incarnation, so no reservation of an earlier one counts for it.\<close>

lemma fresh_incarnation_count:
  assumes "task_budget_inv d"
  shows "inference_count d t (task_budget_next_generation d) = 0"
proof -
  have "tbr_incarnation_generation r \<noteq> task_budget_next_generation d" if "r \<in> set (task_budget_reservations d)" for r
    using that assms by (fastforce simp: task_budget_inv_def reservation_rows_inv_def budget_row_inv_def)
  then show ?thesis by (auto simp: inference_count_def filter_empty_conv)
qed

lemma save_task_budget_inv:
  assumes "save_task_budget (new_budget_values t l p fp) d = Inr (b, d')" "task_budget_inv d" "task_budget_valid b"
  shows "task_budget_inv d' \<and> get_task_budget d' t = Some b"
  using assms(1)
proof (rule save_task_budgetE)
  assume b: "b = (new_budget_values t l p fp)\<lparr>tb_incarnation_generation := task_budget_next_generation d\<rparr>"
    and ok: "task_budget_fits b" "task_budget_row_ok b" and new: "tb_task_id b \<notin> tb_task_id ` set (task_budgets d)"
    and d': "d' = d\<lparr>task_budgets := task_budgets d @ [b], task_budget_next_generation := task_budget_next_generation d + 1\<rparr>"
  have keys: "budget_keys d'" using task_budget_invD(1) [OF assms(2)] new by (auto simp: budget_keys_def d')
  have count: "inference_count d' = inference_count d" by (rule ext)+ (simp add: inference_count_def d')
  have "budget_row_inv d' x" if "x \<in> set (task_budgets d')" for x
  proof (cases "x = b")
    case True
    have "0 < lim_total_inference_calls (tb_limits b)" using assms(3) by (simp add: task_budget_valid_def limits_valid_def)
    then show ?thesis
      using True assms(3) ok fresh_incarnation_count [OF assms(2)]
      by (simp add: budget_row_inv_def count) (simp add: b d' new_budget_values_def)
  next
    case False
    then have "x \<in> set (task_budgets d)" using that by (simp add: d')
    then have "budget_row_inv d x" using assms(2) by (simp add: task_budget_inv_def)
    then show ?thesis unfolding budget_row_inv_def count by (simp add: d')
  qed
  moreover have "reservation_rows_inv d'"
    using task_budget_invD(3) [OF assms(2)] by (auto simp: reservation_rows_inv_def d')
  moreover have "get_task_budget d' t = Some b"
    using keys by (simp add: get_task_budget_iff) (simp add: d' b new_budget_values_def)
  ultimately show ?thesis using keys by (simp add: task_budget_inv_def)
qed

lemma initialize_budget_inv:
  assumes "initialize_budget env t l p fp d = Inr (b, d')" "joint_inv d" "joint_env_ok env"
  shows "joint_inv d' \<and> get_task_budget d' t = Some b \<and> require_same_policy b p fp = Inr ()"
proof (cases "get_task_budget d t")
  case (Some x)
  with assms show ?thesis by (auto simp: initialize_budget_def existing_budget_def)
next
  case None
  then have s: "save_task_budget (new_budget_values t l p fp) (lock_wait env 0 d) = Inr (b, d')" "task_budget_valid b"
    using assms(1) by (auto simp: initialize_budget_def)
  have "joint_inv (lock_wait env 0 d)" using assms(2,3) by (simp add: joint_env_ok_def)
  moreover have "require_same_policy b p fp = Inr ()"
    using s(1) by (auto elim!: save_task_budgetE simp: require_same_policy_def new_budget_values_def)
  moreover have "budget_inv (lock_wait env 0 d) \<Longrightarrow> budget_inv d'" using s(1) by (auto elim!: save_task_budgetE)
  ultimately show ?thesis using save_task_budget_inv [OF s(1) _ s(2)] by (simp add: joint_inv_def)
qed

lemma ensure_budget_inv:
  assumes "joint_inv d" "joint_env_ok env"
  shows "joint_inv (snd (ensure_budget env t l p d))"
proof -
  have d0: "joint_inv (others env 0 d)" using assms by (simp add: joint_env_ok_def)
  then have "joint_inv (others env 1 (lock_wait env 0 (others env 0 d)))"
    using assms(2) by (simp add: joint_env_ok_def)
  with d0 show ?thesis
    by (auto simp: ensure_budget_def Let_def split: sum.splits dest: initialize_budget_inv [OF _ d0 assms(2)])
qed

lemma ensure_budget_result:
  assumes "ensure_budget env t l p d = (Inr b, d')" "joint_inv d" "joint_env_ok env"
  shows "get_task_budget d' t = Some b \<and> require_same_policy b p (task_budget_policy_fingerprint l p) = Inr ()"
proof -
  have d0: "joint_inv (others env 0 d)" using assms by (simp add: joint_env_ok_def)
  show ?thesis
    using assms(1)
    by (auto simp: ensure_budget_def existing_budget_def Let_def ofOption_def
        split: sum.splits if_splits option.splits dest!: initialize_budget_inv [OF _ d0 assms(3)])
qed

lemma close_attempt_inv:
  assumes env: "joint_env_ok env" and inv: "joint_inv d"
    and r: "close_attempt t clock env i g d = (g', Some (Inr (b, d')))"
  shows "joint_inv d' \<and> get_task_budget d' t = Some b \<and> tb_state b = TB_CLOSED"
proof -
  have dl: "task_budget_inv (lock_wait env i d)" "budget_inv (lock_wait env i d)"
    using env inv by (auto simp: joint_env_ok_def joint_inv_def)
  let ?f = "\<lambda>r. r\<lparr>tb_state := TB_CLOSED, tb_closed_at := Some (clock i)\<rparr>"
  from r obtain x where x: "get_task_budget d t = Some x" "task_budget_valid x"
    and c: "tb_state x = TB_CLOSED \<and> b = x \<and> d' = d \<or>
      compare_and_set_task_budget t (tb_revision x) ?f (Some (tb_incarnation_generation x)) (lock_wait env i d) = Inr (Some b, d') \<and>
      task_budget_valid b"
    by (auto simp: close_attempt_def ofOption_def split: option.splits sum.splits if_splits)
  have f: "keeps_identity ?f" by (simp add: keeps_identity_def)
  from c show ?thesis
  proof (elim disjE conjE)
    assume "tb_state x = TB_CLOSED" "b = x" "d' = d"
    with x inv show ?thesis by simp
  next
    assume cas: "compare_and_set_task_budget t (tb_revision x) ?f (Some (tb_incarnation_generation x)) (lock_wait env i d) = Inr (Some b, d')"
      and b: "task_budget_valid b"
    obtain y where y: "get_task_budget (lock_wait env i d) t = Some y" "b = (?f y)\<lparr>tb_revision := tb_revision x + 1\<rparr>" "tb_task_id b = t"
        "task_budget_fits b" "task_budget_row_ok b" "d' = put_budget b (lock_wait env i d)"
      by (rule compare_and_set_task_budgetE [OF cas task_budget_invD(1) [OF dl(1)] f])
    have "task_budget_inv d'"
      unfolding y(6) using y(1-3) get_task_budget_SomeD [OF y(1)]
      by (intro put_budget_inv [OF dl(1) _ _ b y(5,4)]) (auto simp: paid_change_def)
    moreover have "get_task_budget d' t = Some b"
      using get_put_budget [OF task_budget_invD(1) [OF dl(1)], of b y] y by simp
    ultimately show ?thesis using y(2,6) dl(2) by (simp add: joint_inv_def)
  qed
qed

interpretation budget_close: continued_transaction joint_env_ok others
  "\<lambda>env (t, clock). close_attempt t clock env" joint_inv
  "\<lambda>(t, clock) b d. get_task_budget d t = Some b \<and> tb_state b = TB_CLOSED"
proof unfold_locales
  show "\<And>env d i. joint_env_ok env \<Longrightarrow> joint_inv d \<Longrightarrow> joint_inv (others env i d)"
    by (simp add: joint_env_ok_def)
  show "\<And>env d arg i g g' b d'. joint_env_ok env \<Longrightarrow> joint_inv d \<Longrightarrow>
      (case arg of (t, clock) \<Rightarrow> close_attempt t clock env) i g d = (g', Some (Inr (b, d'))) \<Longrightarrow>
      joint_inv d' \<and> (case arg of (t, clock) \<Rightarrow> \<lambda>b d. get_task_budget d t = Some b \<and> tb_state b = TB_CLOSED) b d'"
    by (auto split: prod.splits dest: close_attempt_inv)
qed

lemma close_budget_inv:
  assumes "joint_env_ok env" "joint_inv d"
  shows "joint_inv (snd (close_budget s env clock t d))"
  using budget_close.continued_inv [OF assms, of TaskBudgetConflictError "(t, clock)" 0 "max_attempts s" "()"]
  by (simp add: close_budget_def)

lemma close_budget_closed:
  assumes "joint_env_ok env" "joint_inv d" "close_budget s env clock t d = (Inr b, d')"
  shows "get_task_budget d' t = Some b \<and> tb_state b = TB_CLOSED"
  using budget_close.continued_result [OF assms(1,2), of TaskBudgetConflictError "(t, clock)" 0 "max_attempts s" "()" b d'] assms(3)
  by (simp add: close_budget_def)

end
