(* ===== verification/Task_Mirror.thy ===== *)
theory Task_Mirror
  imports Task_Budget_Laws
begin

text \<open>
  The enrolled path of the task budget, which composes the task's reservation with the mirror in the
  user's budget in one transaction, and the system of all modelled operations of the service.
\<close>

section \<open>What the mirror leaves alone\<close>

definition task_tables :: "db \<Rightarrow> int \<times> task_budget_row list \<times> task_budget_reservation_row list" where
  "task_tables d = (task_budget_next_generation d, task_budgets d, task_budget_reservations d)"

named_theorems task_frame \<open>operations of the user budget that leave the task budget tables alone\<close>

lemma open_window_tables [task_frame]:
  "open_window owner v now a active d = Inr (w, d') \<Longrightarrow> task_tables d' = task_tables d"
  by (auto simp: task_tables_def open_window_def Let_def close_window_def advance_account_def insert_window_def
      update_windows_Inr update_accounts_Inr split: option.splits if_splits)

lemma rollover_window_tables [task_frame]: "rollover_window owner v now d = Inr (w, d') \<Longrightarrow> task_tables d' = task_tables d"
  by (auto simp: rollover_window_def split: option.splits if_splits dest: open_window_tables)

lemma create_policy_tables:
  "create_or_get_immutable_policy race p d = Inr (r, d') \<Longrightarrow> task_tables d' = task_tables d \<or> task_tables d' = task_tables (race d)"
  by (auto simp: task_tables_def create_or_get_immutable_policy_def create_or_get_def insert_policy_def
      split: option.splits sum.splits if_splits)

lemma create_account_tables:
  "create_or_get_account race owner d = Inr (r, d') \<Longrightarrow> task_tables d' = task_tables d \<or> task_tables d' = task_tables (race d)"
  by (auto simp: task_tables_def create_or_get_account_def create_or_get_def insert_account_def
      split: option.splits sum.splits if_splits)

lemma select_shadow_tables [task_frame]:
  "select_shadow_policy owner p a d = Inr (a', d') \<Longrightarrow> task_tables d' = task_tables d"
  by (auto simp: task_tables_def select_shadow_policy_def select_next_policy_def Let_def update_accounts_Inr
      split: option.splits if_splits)

lemma create_reservation_tables [task_frame]:
  "create_or_get_reservation id i d = Inr (r, d') \<Longrightarrow> task_tables d' = task_tables d"
  by (erule create_or_get_reservationE) (auto simp: task_tables_def insert_reservation_def split: if_splits)

lemma mutate_window_tables [task_frame]:
  "mutate_window_usage owner epoch v vs d = Inr (w, d') \<Longrightarrow> task_tables d' = task_tables d"
  by (auto simp: task_tables_def mutate_window_usage_def Let_def update_windows_Inr)

lemma charge_tool_usage_tables [task_frame]:
  "charge_tool_usage owner epoch cap n d = Inr d' \<Longrightarrow> task_tables d' = task_tables d"
  by (auto simp: task_tables_def charge_tool_usage_def mutate_tool_usage_def Let_def update_tool_usage_Inr
      insert_tool_usage_def elim!: create_or_get_tool_usageE split: if_splits)

lemma transition_tables [task_frame]:
  "transition_reservation owner key v target amount at d = Inr (r, d') \<Longrightarrow> task_tables d' = task_tables d"
  by (auto simp: task_tables_def transition_reservation_def Let_def update_reservations_Inr split: if_splits)

lemma create_receipt_tables [task_frame]:
  "create_or_get_dual_accounting_receipt id b d = Inr (r, d') \<Longrightarrow> task_tables d' = task_tables d"
  by (auto simp: task_tables_def create_or_get_dual_accounting_receipt_def create_or_get_def insert_receipt_def
      split: option.splits sum.splits if_splits)

lemma mirror_one_tables [task_frame]:
  assumes "mirror_one binding k key fp now dim w d = Inr (b, w', d')"
  shows "task_tables d' = task_tables d"
  using assms by (rule mirror_oneE) (auto dest!: task_frame split: if_splits)

lemma mirror_all_tables [task_frame]:
  "mirror_all binding k key fp now dims w d = Inr (bs, d') \<Longrightarrow> task_tables d' = task_tables d"
  by (induction dims arbitrary: w d bs) (auto dest!: task_frame)

text \<open>
  So whatever holds of the two tables, and is kept by the transactions that race with the creation of
  the user's policy and account, holds after the mirror.
\<close>

lemma ensure_window_tables:
  assumes "ensure_active_shadow_window s race owner now d = Inr (w, d')" "Q d"
    and cong: "\<And>x y. task_tables x = task_tables y \<Longrightarrow> Q x \<Longrightarrow> Q y" and race: "\<And>i x. Q x \<Longrightarrow> Q (race i x)"
  shows "Q d'"
proof -
  from assms(1) obtain expected p d1 a0 d2 a1 d3 where
    s: "create_or_get_immutable_policy (race 0) expected d = Inr (p, d1)"
    "create_or_get_account (race 1) owner d1 = Inr (a0, d2)" "select_shadow_policy owner p a0 d2 = Inr (a1, d3)"
    and r: "d' = d3 \<or> rollover_window owner (acc_revision a1) now d3 = Inr (w, d')"
    by (auto simp: ensure_active_shadow_window_def ensure_shadow_account_def split: option.splits if_splits)
  have "Q d1" using create_policy_tables [OF s(1)] assms(2) race cong by metis
  then have "Q d2" using create_account_tables [OF s(2)] race cong by metis
  then have "Q d3" using select_shadow_tables [OF s(3)] cong by metis
  with r show ?thesis using rollover_window_tables cong by metis
qed

lemma mirror_resource_tables:
  assumes "mirror_resource s race binding k key fp dims now d = Inr (bs, d')" "Q d"
    and cong: "\<And>x y. task_tables x = task_tables y \<Longrightarrow> Q x \<Longrightarrow> Q y" and race: "\<And>i x. Q x \<Longrightarrow> Q (race i x)"
  shows "Q d'"
  using assms(1)
proof (cases rule: mirror_resourceE)
  case (no_charge dim b)
  then show ?thesis using cong [OF create_receipt_tables [symmetric] assms(2)] by blast
next
  case (charged w d1)
  have "Q d1" by (rule ensure_window_tables [where Q = Q, OF charged(3) assms(2)]) (fact cong race)+
  then show ?thesis using cong [OF mirror_all_tables [OF charged(4), symmetric]] by blast
qed (use assms(2) in simp)

section \<open>Races inside the mirror\<close>

text \<open>
  While the transaction waits inside the mirror it holds the row of the task's budget, so no other
  transaction changes that row, adds a reservation for the task, or a receipt.
\<close>

definition task_race_ok :: "string \<Rightarrow> (nat \<Rightarrow> db \<Rightarrow> db) \<Rightarrow> bool" where
  "task_race_ok t race \<longleftrightarrow>
     race_ok t race \<and>
     (\<forall>i d. task_budget_inv d \<longrightarrow> task_budget_inv (race i d)) \<and>
     (\<forall>i d. get_task_budget (race i d) t = get_task_budget d t) \<and>
     (\<forall>i d r. tbr_task_id r = t \<longrightarrow> r \<in> set (task_budget_reservations d) \<longrightarrow> r \<in> set (task_budget_reservations (race i d)))"

lemma quiet_task_race_ok: "task_race_ok t (\<lambda>_ d. d)"
  by (simp add: task_race_ok_def race_ok_id)

lemma task_tables_eqD:
  assumes "task_tables x = task_tables y"
  shows "task_budget_inv x \<longleftrightarrow> task_budget_inv y" "reserved c b x \<longleftrightarrow> reserved c b y"
  using assms
  by (simp_all add: task_tables_def task_budget_inv_def budget_keys_def budget_row_inv_def reservation_rows_inv_def
      inference_count_def reserved_def get_task_budget_def)

definition mirrored_in :: "task_binding_snapshot \<Rightarrow> budget_call \<Rightarrow> mirror_dimension list \<Rightarrow> db \<Rightarrow> bool" where
  "mirrored_in binding c dims d \<longleftrightarrow>
     list_all (\<lambda>dim. case get_dual_accounting_receipt d
                         (tbs_task_id binding, task_kind_value (bc_kind c), bc_reservation_key c, md_resource_kind dim) of
                       None \<Rightarrow> False
                     | Some b \<Rightarrow> receipt_matches binding (call_fingerprint c) dim b) dims"

lemma replay_mirrored:
  "require_mirror_replay d binding (task_kind_value (bc_kind c)) (bc_reservation_key c) (call_fingerprint c) dims = Inr bs \<Longrightarrow>
   mirrored_in binding c dims d"
  unfolding require_mirror_replay_def mirrored_in_def
  by (induction dims arbitrary: bs) (auto simp: ofOption_def split: option.splits)

lemma existing_mirrored:
  "existing_receipts d binding (task_kind_value (bc_kind c)) (bc_reservation_key c) (call_fingerprint c) dims = Inr (map Some bs) \<Longrightarrow>
   mirrored_in binding c dims d"
  unfolding mirrored_in_def
  by (induction dims arbitrary: bs) (auto simp: Let_def split: option.splits)

section \<open>The enrolled transaction\<close>

lemma enrolled_transactionE:
  assumes "enrolled_transaction ds race binding c dims now env i d = Inr (Some u, d')"
  obtains (replay) b r bs where "get_task_budget d (bc_task_id c) = Some b" "tbs_task_id binding = bc_task_id c"
      "own_reservation d c (tb_incarnation_generation b) = Some r" "verify_reservation r (call_fingerprint c) = Inr ()"
      "require_mirror_replay d binding (task_kind_value (bc_kind c)) (bc_reservation_key c) (call_fingerprint c) dims = Inr bs"
      "u = b" "d' = d"
  | (fresh) b f d1 d2 bs where "get_task_budget d (bc_task_id c) = Some b" "tbs_task_id binding = bc_task_id c"
      "bc_mutate c b = Inr f"
      "compare_and_set_task_budget (bc_task_id c) (tb_revision b) f (Some (tb_incarnation_generation b)) (lock_wait env i d) =
         Inr (Some u, d1)"
      "save_task_budget_reservation (bc_task_id c) (task_kind_value (bc_kind c)) (bc_reservation_key c) (call_fingerprint c)
         (Some (tb_incarnation_generation b)) d1 = Inr d2"
      "mirror_resource ds race binding (task_kind_value (bc_kind c)) (bc_reservation_key c) (call_fingerprint c) dims now d2 = Inr (bs, d')"
      "task_budget_valid u"
proof -
  from assms obtain row b where row: "get_task_binding d (bc_task_id c) = Some row" "require_same_binding binding row = Inr ()"
    and b: "get_task_budget d (bc_task_id c) = Some b"
    by (auto simp: enrolled_transaction_def Let_def ofOption_def split: option.splits)
  have t: "tbs_task_id binding = bc_task_id c"
    using row by (auto simp: require_same_binding_def get_task_binding_def find_Some_iff)
  show thesis
  proof (cases "own_reservation d c (tb_incarnation_generation b)")
    case (Some r)
    with assms row b show thesis
      by (auto simp: enrolled_transaction_def Let_def ofOption_def split: option.splits intro: replay [OF b t Some])
  next
    case None
    with assms row b show thesis
      by (auto simp: enrolled_transaction_def Let_def ofOption_def split: option.splits intro: fresh [OF b t])
  qed
qed

lemma enrolled_transaction_inv:
  assumes r: "enrolled_transaction ds race binding c dims now env i d = Inr (Some u, d')"
    and env: "joint_env_ok env" "task_race_ok (bc_task_id c) race" and inv: "joint_inv d"
    and m: "mutator_ok (bc_kind c) (bc_mutate c)" and dims: "dims_ok dims"
  shows "joint_inv d' \<and> reserved c u d' \<and> mirrored_in binding c dims d'"
  using r
proof (cases rule: enrolled_transactionE)
  case (replay b r bs)
  with inv show ?thesis by (auto intro: verified_reserved replay_mirrored)
next
  case (fresh b f d1 d2 bs)
  let ?dl = "lock_wait env i d"
  have dl: "task_budget_inv ?dl" "budget_inv ?dl" "same_revision d ?dl"
    using env(1) inv by (auto simp: joint_env_ok_def joint_inv_def)
  have keys: "budget_keys d" using inv by (auto simp: joint_inv_def task_budget_inv_def)
  note com = reservation_committed [OF dl(1,3) keys fresh(1) m fresh(3,4,5,7)]
  have race: "race_ok (tbs_task_id binding) race" using env(2) fresh(2) by (simp add: task_race_ok_def)
  have d2: "budget_inv d2" using dl(2) by (simp add: com(5))
  have "task_budget_inv d' \<and> reserved c u d'"
    by (rule mirror_resource_tables [where Q = "\<lambda>x. task_budget_inv x \<and> reserved c u x", OF fresh(6)])
      (use env(2) com(1,2) in \<open>auto simp: task_race_ok_def reserved_def call_reservation_def dest: task_tables_eqD\<close>)
  with mirror_resource_inv [OF fresh(6) d2 dims race] mirror_resource_receipts [OF fresh(6) d2 dims race]
  show ?thesis by (auto simp: joint_inv_def intro: existing_mirrored)
qed

end
