(* ===== verification/Task_Service.thy ===== *)
theory Task_Service
  imports Task_Mirror
begin

text \<open>
  The task budget service as a system: every modelled operation is a step, and every reachable state
  satisfies the joint invariant. The single operations are then characterised: what they return on
  every branch when nothing interferes, that a repeated call is applied once, and that they write
  only under the incarnation and the lease they name.
\<close>

section \<open>The enrolled loop\<close>

interpretation enrolled_charge: continued_transaction
  "\<lambda>env. joint_env_ok env \<and> task_race_ok (bc_task_id c) race \<and> mutator_ok (bc_kind c) (bc_mutate c) \<and> dims_ok dims" others
  "\<lambda>env (ds, now). enrolled_attempt ds race binding c dims now env" joint_inv
  "\<lambda>_ b d. reserved c b d \<and> mirrored_in binding c dims d" for race binding c dims
proof unfold_locales
  show "\<And>env d i. joint_env_ok env \<and> task_race_ok (bc_task_id c) race \<and> mutator_ok (bc_kind c) (bc_mutate c) \<and> dims_ok dims \<Longrightarrow>
      joint_inv d \<Longrightarrow> joint_inv (others env i d)"
    by (simp add: joint_env_ok_def)
  show "\<And>env d arg i g g' b d'. joint_env_ok env \<and> task_race_ok (bc_task_id c) race \<and> mutator_ok (bc_kind c) (bc_mutate c) \<and> dims_ok dims \<Longrightarrow>
      joint_inv d \<Longrightarrow>
      (case arg of (ds, now) \<Rightarrow> enrolled_attempt ds race binding c dims now env) i g d = (g', Some (Inr (b, d'))) \<Longrightarrow>
      joint_inv d' \<and> reserved c b d' \<and> mirrored_in binding c dims d'"
    by (auto simp: enrolled_attempt_def split: prod.splits sum.splits option.splits if_splits dest: enrolled_transaction_inv)
qed

lemma mutate_enrolled_inv:
  assumes "joint_env_ok env" "task_race_ok (bc_task_id c) race" "mutator_ok (bc_kind c) (bc_mutate c)" "dims_ok dims" "joint_inv d"
  shows "joint_inv (snd (mutate_enrolled_resource s env race now binding c dims d))"
  using assms enrolled_charge.continued_inv
    [of env c race dims d TaskBudgetConflictError binding "(the (tsv_dual s), now)" 0 "max_attempts s" "()"]
  by (auto simp: mutate_enrolled_resource_def split: option.splits)

lemma mutate_enrolled_result:
  assumes "joint_env_ok env" "task_race_ok (bc_task_id c) race" "mutator_ok (bc_kind c) (bc_mutate c)" "dims_ok dims" "joint_inv d"
    and "mutate_enrolled_resource s env race now binding c dims d = (Inr b, d')"
  shows "reserved c b d' \<and> mirrored_in binding c dims d'"
  using assms enrolled_charge.continued_result
    [of env c race dims d TaskBudgetConflictError binding "(the (tsv_dual s), now)" 0 "max_attempts s" "()" b d']
  by (auto simp: mutate_enrolled_resource_def split: option.splits if_splits)

lemma mutate_resource_inv:
  assumes "joint_env_ok env" "task_race_ok (bc_task_id c) race" "mutator_ok (bc_kind c) (bc_mutate c)" "dims_ok dims" "joint_inv d"
  shows "joint_inv (snd (mutate_resource_with_reservation s env clock race now c dims d))"
  using assms mutate_enrolled_inv [OF assms]
    mutate_with_reservation_inv [OF assms(1), of "c\<lparr>bc_expected_generation := g, bc_require_legacy_unbound := u\<rparr>" d s clock for g u]
  by (auto simp: mutate_resource_with_reservation_def split: sum.splits option.splits)

section \<open>The system\<close>

inductive task_budget_step :: "task_budget_settings \<Rightarrow> db \<Rightarrow> db \<Rightarrow> bool" for s where
  step_ensure: "joint_env_ok env \<Longrightarrow> task_budget_step s d (snd (ensure_budget env t l p d))"
| step_close: "joint_env_ok env \<Longrightarrow> task_budget_step s d (snd (close_budget s env now t d))"
| step_resume: "joint_env_ok env \<Longrightarrow> task_budget_step s d (snd (reserve_resume_slot s env clock t ex v del d))"
| step_release: "joint_env_ok env \<Longrightarrow> task_budget_step s d (snd (release_active_execution s env clock t ex v del d))"
| step_tools: "joint_env_ok env \<Longrightarrow> task_budget_step s d (snd (reserve_tool_calls s env clock t key n d))"
| step_inference: "joint_env_ok env \<Longrightarrow> task_race_ok t race \<Longrightarrow>
    task_budget_step s d (snd (reserve_task_inference s env clock race at t key rex fence g d))"
| step_usage: "joint_env_ok env \<Longrightarrow> task_race_ok t race \<Longrightarrow>
    task_budget_step s d (snd (account_usage s env clock race at t key tokens cost rex fence g d))"
| step_branch: "joint_env_ok env \<Longrightarrow> task_budget_step s d (snd (reserve_branch_slot s env clock t key d))"
| step_release_branch: "joint_env_ok env \<Longrightarrow> task_budget_step s d (snd (release_branch_slot s env clock t key d))"

definition initial_tables :: "db \<Rightarrow> bool" where
  "initial_tables d \<longleftrightarrow> task_budgets d = [] \<and> task_budget_reservations d = [] \<and> budget_inv d"

lemma initial_joint_inv: "initial_tables d \<Longrightarrow> joint_inv d"
  by (simp add: initial_tables_def joint_inv_def task_budget_inv_def budget_keys_def reservation_rows_inv_def)

lemmas call_defs = plain_call_def recovery_call_def

lemma usage_op_inv:
  assumes "joint_env_ok env" "task_race_ok t race" "joint_inv d"
  shows "joint_inv (snd (account_usage s env clock race at t key tokens cost rex fence g d))"
  using assms
  by (auto simp: account_usage_def Let_def call_defs split: sum.splits
      intro!: mutate_with_reservation_inv mutate_resource_inv usage_dimensions_ok)

lemma inference_op_inv:
  assumes "joint_env_ok env" "task_race_ok t race" "joint_inv d"
  shows "joint_inv (snd (reserve_task_inference s env clock race at t key rex fence g d))"
  using assms
  by (auto simp: reserve_task_inference_def Let_def call_defs
      intro!: mutate_with_reservation_inv mutate_resource_inv inference_dimensions_ok)

lemma slot_ops_inv:
  assumes "joint_env_ok env" "joint_inv d"
  shows "joint_inv (snd (reserve_resume_slot s env clock t ex v del d))"
    "joint_inv (snd (release_active_execution s env clock t ex v del d))"
    "joint_inv (snd (reserve_tool_calls s env clock t key n d))"
    "joint_inv (snd (reserve_branch_slot s env clock t key d))"
    "joint_inv (snd (release_branch_slot s env clock t key d))"
  using assms
  by (auto simp: reserve_resume_slot_def release_active_execution_def reserve_tool_calls_def reserve_branch_slot_def
      release_branch_slot_def call_defs split: sum.splits option.splits intro!: mutate_with_reservation_inv)

interpretation task_system: invariant_system initial_tables "task_budget_step s" joint_inv for s
proof unfold_locales
  show "\<And>d. initial_tables d \<Longrightarrow> joint_inv d" by (rule initial_joint_inv)
  fix d d' assume "joint_inv d" "task_budget_step s d d'"
  from this(2,1) show "joint_inv d'"
    by cases (auto intro: ensure_budget_inv close_budget_inv slot_ops_inv inference_op_inv usage_op_inv)
qed

section \<open>What a call does when nothing interferes\<close>

lemma quiet_simps [simp]: "others quiet_env i d = d" "lock_wait quiet_env i d = d" "write_intent quiet_env i = None"
  by (simp_all add: quiet_env_def)

lemma max_attempts_Suc: obtains n where "max_attempts s = Suc n"
proof -
  have "0 < max_attempts s" by (simp add: max_attempts_def)
  then show thesis by (cases "max_attempts s") (auto intro: that)
qed

text \<open>A call without recovery authority, on a task whose budget it may address.\<close>

definition plain_on :: "task_budget_settings \<Rightarrow> budget_call \<Rightarrow> task_budget_row \<Rightarrow> db \<Rightarrow> bool" where
  "plain_on s c b d \<longleftrightarrow>
     bc_reservation_key c \<noteq> [] \<and> bc_recovery_execution_id c = None \<and> bc_recovery_fence c = None \<and>
     require_unbound s c d = Inr () \<and> get_task_budget d (bc_task_id c) = Some b \<and>
     bc_expected_generation c \<in> {None, Some (tb_incarnation_generation b)}"

lemma plain_on_first_attempt:
  assumes "plain_on s c b d"
  shows "mutate_with_reservation s quiet_env clock c d =
    (case attempt_outcome
            (case own_reservation d c (tb_incarnation_generation b) of
               Some r \<Rightarrow> bindR (replay_reservation c (clock 0 1) None b r) (\<lambda>b. Inr (Some b, d))
             | None \<Rightarrow> apply_reservation quiet_env 0 c (clock 0 1) None b d)
            (Some (load_idempotent s c (\<lambda>k. clock 0 (k + 2)) (tb_incarnation_generation b) d)) d of
       Some (Inr (b, d')) \<Rightarrow> (Inr b, d')
     | Some (Inl e) \<Rightarrow> (Inl e, d)
     | None \<Rightarrow> continue_loop TaskBudgetConflictError (others quiet_env) (mutate_attempt s c clock quiet_env) 1 (max_attempts s - 1)
                 (Some (tb_incarnation_generation b)) d)"
proof -
  obtain n where n: "max_attempts s = Suc n" by (rule max_attempts_Suc)
  have "read_incarnation s c now (bc_expected_generation c) d = Inr (None, b)" for now
    using assms by (auto simp: plain_on_def read_incarnation_def lock_fence_def)
  then show ?thesis
    using assms
    by (auto simp: plain_on_def mutate_with_reservation_def validate_recovery_mutation_authority_def n mutate_attempt_def
        Let_def split: option.splits sum.splits)
qed

lemma plain_replay:
  assumes "plain_on s c b d" "own_reservation d c (tb_incarnation_generation b) = Some r" "task_budget_valid b"
  shows "mutate_with_reservation s quiet_env clock c d =
    (if tbr_payload_fingerprint r = call_fingerprint c then Inr b else Inl TaskBudgetConflictError, d)"
  using assms(2,3) assms(1) [unfolded plain_on_def]
  by (simp add: plain_on_first_attempt [OF assms(1)] replay_reservation_def verify_reservation_def recheck_fence_def
      attempt_outcome_def budget_from_record_def)

lemma plain_refused:
  assumes "plain_on s c b d" "own_reservation d c (tb_incarnation_generation b) = None" "task_budget_valid b"
    and "bc_mutate c b = Inl e" "e \<notin> {SqlIntegrityError, SqlLockedError}"
  shows "mutate_with_reservation s quiet_env clock c d = (Inl e, d)"
  using assms(2-5)
  by (simp add: plain_on_first_attempt [OF assms(1)] apply_reservation_def attempt_outcome_def budget_from_record_def)

text \<open>The compare-and-set of an unchanged row succeeds when the new row satisfies the constraints.\<close>

lemma filter_unique: "distinct xs \<Longrightarrow> b \<in> set xs \<Longrightarrow> filter (\<lambda>x. x = b) xs = [b]"
  by (induction xs) (auto simp: filter_empty_conv)

lemma compare_and_set_hit:
  assumes "budget_keys d" "get_task_budget d t = Some b" "keeps_identity f"
    and "task_budget_fits ((f b)\<lparr>tb_revision := tb_revision b + 1\<rparr>)" "task_budget_row_ok ((f b)\<lparr>tb_revision := tb_revision b + 1\<rparr>)"
  shows "compare_and_set_task_budget t (tb_revision b) f (Some (tb_incarnation_generation b)) d =
    Inr (Some ((f b)\<lparr>tb_revision := tb_revision b + 1\<rparr>), put_budget ((f b)\<lparr>tb_revision := tb_revision b + 1\<rparr>) d)"
proof -
  let ?u = "(f b)\<lparr>tb_revision := tb_revision b + 1\<rparr>"
  let ?hit = "\<lambda>x. tb_task_id x = t \<and> tb_revision x = tb_revision b \<and> tb_incarnation_generation x = tb_incarnation_generation b"
  note b = get_task_budget_SomeD [OF assms(2)]
  have hit: "?hit x \<longleftrightarrow> x = b" if "x \<in> set (task_budgets d)" for x
    using other_row_same [OF assms(1,2) that] b by auto
  then have "filter ?hit (task_budgets d) = filter (\<lambda>x. x = b) (task_budgets d)" by (simp cong: filter_cong)
  also have "\<dots> = [b]"
    using b assms(1) by (intro filter_unique) (auto simp: budget_keys_def distinct_map)
  finally have one: "filter ?hit (task_budgets d) = [b]" .
  have u: "tb_task_id ?u = t" using assms(3) b by (simp add: keeps_identity_def)
  have "(if ?hit x then (f x)\<lparr>tb_revision := tb_revision b + 1\<rparr> else x) = (if tb_task_id x = tb_task_id ?u then ?u else x)"
    if "x \<in> set (task_budgets d)" for x
    using hit [OF that] other_row_same [OF assms(1,2) that] u by auto
  then have put: "d\<lparr>task_budgets := upd_where ?hit (\<lambda>x. (f x)\<lparr>tb_revision := tb_revision b + 1\<rparr>) (task_budgets d)\<rparr> = put_budget ?u d"
    unfolding upd_where_def put_budget_def by (simp cong: map_cong)
  have "get_task_budget (put_budget ?u d) t = Some ?u"
    using get_put_budget [OF assms(1), of ?u b] assms(2) u by simp
  with one put assms(4,5) show ?thesis
    unfolding compare_and_set_task_budget_def Let_def by simp
qed

definition changed :: "budget_call \<Rightarrow> task_budget_row \<Rightarrow> db \<Rightarrow> db" where
  "changed c u d = add_tbr (call_reservation c (tb_incarnation_generation u)) (put_budget u d)"

definition fresh_key :: "budget_call \<Rightarrow> db \<Rightarrow> bool" where
  "fresh_key c d \<longleftrightarrow> (bc_task_id c, task_kind_value (bc_kind c), bc_reservation_key c) \<notin> tbr_key ` set (task_budget_reservations d)"

lemma fresh_key_none: "fresh_key c d \<Longrightarrow> own_reservation d c g = None"
  using get_tbr_SomeD [of d "bc_task_id c" "task_kind_value (bc_kind c)" "bc_reservation_key c" g]
  by (cases "own_reservation d c g") (force simp: fresh_key_def tbr_key_def)+

lemma plain_fresh:
  assumes on: "plain_on s c b d" and inv: "joint_inv d" and new: "fresh_key c d"
    and m: "mutator_ok (bc_kind c) (bc_mutate c)" "bc_mutate c b = Inr f"
    and u: "u = (f b)\<lparr>tb_revision := tb_revision b + 1\<rparr>" "task_budget_fits u" "task_budget_row_ok u" "task_budget_valid u"
  shows "mutate_with_reservation s quiet_env clock c d = (Inr u, changed c u d)"
proof -
  have keys: "budget_keys d" and b: "get_task_budget d (bc_task_id c) = Some b" and vb: "task_budget_valid b"
    using on inv task_budget_invD(2) [of d "bc_task_id c" b]
    by (auto simp: plain_on_def joint_inv_def task_budget_inv_def budget_row_inv_def)
  have f: "keeps_identity f" using m unfolding mutator_ok_def by blast
  have ug: "tb_incarnation_generation u = tb_incarnation_generation b" "tb_task_id u = bc_task_id c"
    using f get_task_budget_SomeD [OF b] by (auto simp: u(1) keeps_identity_def)
  have "get_task_budget (put_budget u d) (bc_task_id c) = Some u"
    using get_put_budget [OF keys, of u b] b ug by simp
  then have save: "save_task_budget_reservation (bc_task_id c) (task_kind_value (bc_kind c)) (bc_reservation_key c) (call_fingerprint c)
      (Some (tb_incarnation_generation b)) (put_budget u d) = Inr (changed c u d)"
    using new ug by (simp add: save_task_budget_reservation_def changed_def add_tbr_def call_reservation_def fresh_key_def
        tbr_key_def [abs_def] ofOption_def)
  have "apply_reservation quiet_env 0 c (clock 0 1) None b d = Inr (Some u, changed c u d)"
    using on vb m(2) save u(4) compare_and_set_hit [OF keys b f, folded u(1), OF u(2,3)]
    by (simp add: apply_reservation_def Let_def plain_on_def recheck_fence_def budget_from_record_def)
  then show ?thesis
    by (simp add: plain_on_first_attempt [OF on] fresh_key_none [OF new] attempt_outcome_def)
qed

text \<open>A durable reservation is found again, and replayed.\<close>

lemma reserved_own:
  assumes "reserved c b d" "joint_inv d"
  shows "own_reservation d c (tb_incarnation_generation b) = Some (call_reservation c (tb_incarnation_generation b))"
proof -
  let ?r = "call_reservation c (tb_incarnation_generation b)"
  have r: "?r \<in> set (task_budget_reservations d)" using assms(1) by (simp add: reserved_def)
  have keys: "inj_on tbr_key (set (task_budget_reservations d))"
    using assms(2) by (simp add: joint_inv_def task_budget_inv_def reservation_rows_inv_def distinct_map)
  show ?thesis
  proof (cases "own_reservation d c (tb_incarnation_generation b)")
    case None
    then have "\<not> (tbr_task_id ?r = bc_task_id c \<and> tbr_kind ?r = task_kind_value (bc_kind c) \<and>
        tbr_reservation_key ?r = bc_reservation_key c \<and> tbr_incarnation_generation ?r = tb_incarnation_generation b)"
      using r unfolding get_task_budget_reservation_def find_None_iff by blast
    then show ?thesis by (simp add: call_reservation_def)
  next
    case (Some x)
    with get_tbr_SomeD [OF Some] r have "x = ?r"
      by (intro inj_onD [OF keys]) (auto simp: tbr_key_def call_reservation_def)
    with Some show ?thesis by simp
  qed
qed

lemma reserved_replay:
  assumes "reserved c b d" "joint_inv d" "plain_on s c b d"
  shows "mutate_with_reservation s quiet_env clock c d = (Inr b, d)"
proof -
  have "task_budget_valid b"
    using assms task_budget_invD(2) [of d "bc_task_id c" b] by (auto simp: joint_inv_def reserved_def budget_row_inv_def)
  from plain_replay [OF assms(3) reserved_own [OF assms(1,2)] this] show ?thesis by (simp add: call_reservation_def)
qed

section \<open>Properties\<close>

text \<open>
  C11. Invariant of the task budget service. In every state that the modelled operations reach from
  empty tables, in any environment that keeps the invariants, every budget is within all its limits,
  its inference counter is exactly the number of inference reservations made under its incarnation,
  saturated at the limit, and the user's budget keeps its own invariant.
\<close>

theorem task_budget_system_invariant:
  assumes "reach initial_tables (task_budget_step s) d" "b \<in> set (task_budgets d)"
  shows "counters_within b \<and> closed_at_matches b \<and> budget_inv d \<and>
    tb_used_inference_calls b =
      min (lim_total_inference_calls (tb_limits b)) (inference_count d (tb_task_id b) (tb_incarnation_generation b))"
  using task_system.reach_inv [OF assms(1)] assms(2)
  by (auto simp: joint_inv_def task_budget_inv_def budget_row_inv_def task_budget_valid_def)

lemma inference_call_cases:
  assumes "tsv_dual s = None \<or> tsv_inference_quota_enabled s"
  shows "reserve_task_inference s env clock race at t rid None None None d =
    mutate_with_reservation s env clock (plain_call t INFERENCE rid [] (mutate_inference s)) d"
  using assms by (auto simp: reserve_task_inference_def Let_def call_defs)

lemma plain_call_on:
  assumes "get_task_budget d t = Some b" "key \<noteq> []"
  shows "plain_on s (plain_call t kind key payload m) b d"
  using assms by (simp add: plain_on_def plain_call_def require_unbound_def)

lemma mutate_with_reservation_key:
  "mutate_with_reservation s env clock c d = (Inr b, d') \<Longrightarrow> bc_reservation_key c \<noteq> []"
  by (auto simp: mutate_with_reservation_def)

text \<open>
  C14. An inference is reserved once. When the reservation of a request has succeeded, under whatever
  interference, repeating the call for the same request returns the same budget and changes nothing.
\<close>

theorem task_inference_reserved_once:
  assumes "joint_env_ok env" "joint_inv d" "tsv_dual s = None \<or> tsv_inference_quota_enabled s"
    and "reserve_task_inference s env clock race at t rid None None None d = (Inr b, d')"
  shows "reserve_task_inference s quiet_env clock' race' at' t rid None None None d' = (Inr b, d')"
proof -
  let ?c = "plain_call t INFERENCE rid [] (mutate_inference s)"
  have m: "mutator_ok (bc_kind ?c) (bc_mutate ?c)" by (simp add: plain_call_def)
  have r: "mutate_with_reservation s env clock ?c d = (Inr b, d')"
    using assms(4) by (simp add: inference_call_cases [OF assms(3)])
  have res: "reserved ?c b d'" by (rule mutate_with_reservation_reserved [OF assms(1) m assms(2) r])
  have inv: "joint_inv d'" using mutate_with_reservation_inv [OF assms(1) m assms(2), of s clock] r by simp
  have "plain_on s ?c b d'"
    using res mutate_with_reservation_key [OF r] by (intro plain_call_on) (auto simp: reserved_def plain_call_def)
  with reserved_replay [OF res inv] show ?thesis by (simp add: inference_call_cases [OF assms(3)])
qed

definition inference_exhausted :: "task_budget_row \<Rightarrow> bool" where
  "inference_exhausted b \<longleftrightarrow>
     (let l = tb_limits b in
      lim_total_inference_calls l \<le> tb_used_inference_calls b \<or>
      (case lim_total_tokens l of None \<Rightarrow> False | Some m \<Rightarrow> m \<le> tb_used_tokens b) \<or>
      (case lim_total_cost l of None \<Rightarrow> False | Some m \<Rightarrow> m \<le> tb_used_cost b))"

lemma mutate_inference_cases:
  "mutate_inference s b =
     (if tb_state b \<noteq> TB_OPEN then Inl TaskBudgetClosedError
      else if \<not> tsv_inference_quota_enabled s \<and> inference_exhausted b then Inl TaskBudgetExceededError
      else Inr (\<lambda>r. r\<lparr>tb_used_inference_calls := min (tb_used_inference_calls b + 1) (lim_total_inference_calls (tb_limits b))\<rparr>))"
  by (auto simp: mutate_inference_def require_open_def inference_exhausted_def Let_def requireR_def bindR_def min_def
      split: option.splits)

lemma updated_row_ok:
  assumes "joint_inv d" "get_task_budget d t = Some b" "tb_revision b < 2 ^ 31 - 1" "counters_within u"
    and same: "tb_limits u = tb_limits b" "tb_state u = tb_state b" "tb_closed_at u = tb_closed_at b"
      "tb_policy_version u = tb_policy_version b" "tb_policy_fingerprint u = tb_policy_fingerprint b"
      "tb_incarnation_generation u = tb_incarnation_generation b" "tb_revision u = tb_revision b + 1"
    and "tb_used_tokens u < 2 ^ 63" "tb_used_cost u < 10 ^ 20"
  shows "task_budget_fits u" "task_budget_row_ok u" "task_budget_valid u"
proof -
  have b: "task_budget_valid b" "task_budget_row_ok b" "task_budget_fits b"
    using assms(1) task_budget_invD(2) [OF _ assms(2)] by (auto simp: joint_inv_def budget_row_inv_def)
  have "closed_at_matches u"
    using b(1) same(2,3) by (auto simp: task_budget_valid_def closed_at_matches_def split: task_budget_state.splits)
  then show "task_budget_fits u" "task_budget_row_ok u" "task_budget_valid u"
    using b assms(3,4,12,13) same
    by (simp_all add: task_budget_fits_def task_budget_row_ok_def task_budget_valid_def Let_def)
qed

lemma valid_row:
  assumes "joint_inv d" "get_task_budget d t = Some b"
  shows "task_budget_valid b" "counters_within b" "tb_used_tokens b < 2 ^ 63" "tb_used_cost b < 10 ^ 20"
  using assms(1) task_budget_invD(2) [OF _ assms(2)]
  by (auto simp: joint_inv_def budget_row_inv_def task_budget_valid_def task_budget_fits_def)

text \<open>
  C13. What reserving an inference does on every branch: a closed budget refuses it; without the
  user-level inference quota a budget whose call, token or cost limit is reached refuses it; otherwise
  the counter goes up by one (with the user-level quota: saturated at the limit, never refusing), the
  revision goes up by one, and the reservation is recorded, in one transaction.
\<close>

theorem task_inference_charge:
  assumes "joint_inv d" "get_task_budget d t = Some b" "rid \<noteq> []" "tb_revision b < 2 ^ 31 - 1"
    and "tsv_dual s = None \<or> tsv_inference_quota_enabled s"
    and "c = plain_call t INFERENCE rid [] (mutate_inference s)" "fresh_key c d"
    and "u = b\<lparr>tb_used_inference_calls := min (tb_used_inference_calls b + 1) (lim_total_inference_calls (tb_limits b)),
               tb_revision := tb_revision b + 1\<rparr>"
  shows "reserve_task_inference s quiet_env clock race at t rid None None None d =
    (if tb_state b = TB_CLOSED then (Inl TaskBudgetClosedError, d)
     else if \<not> tsv_inference_quota_enabled s \<and> inference_exhausted b then (Inl TaskBudgetExceededError, d)
     else (Inr u, changed c u d))"
proof -
  have on: "plain_on s c b d" using plain_call_on [OF assms(2,3)] assms(6) by simp
  have m: "bc_mutate c = mutate_inference s" "mutator_ok (bc_kind c) (bc_mutate c)" by (simp_all add: assms(6) plain_call_def)
  note row = valid_row [OF assms(1,2)]
  have "counters_within u" using row(2) by (auto simp: counters_within_def assms(8) Let_def)
  note ok = updated_row_ok [OF assms(1,2,4) this]
  note refuse = plain_refused [OF on fresh_key_none [OF assms(7)] row(1)]
  show ?thesis
  proof (cases "tb_state b = TB_CLOSED \<or> \<not> tsv_inference_quota_enabled s \<and> inference_exhausted b")
    case True
    then show ?thesis
      using refuse [of TaskBudgetClosedError] refuse [of TaskBudgetExceededError] m(1)
      by (cases "tb_state b") (auto simp: inference_call_cases [OF assms(5)] assms(6) [symmetric] mutate_inference_cases)
  next
    case False
    then have "tb_state b = TB_OPEN" by (cases "tb_state b") auto
    with False plain_fresh [OF on assms(1,7) m(2) _ _ ok] row(3,4) m(1) assms(8) show ?thesis
      by (simp add: inference_call_cases [OF assms(5)] assms(6) [symmetric] mutate_inference_cases)
  qed
qed

text \<open>
  C18. Usage is accounted exactly and never refused for want of budget: tokens and cost are added to the
  counters even when the budget is closed or its limits are passed, and the revision and the
  reservation go with them.
\<close>

theorem task_usage_accounted:
  assumes "joint_inv d" "get_task_budget d t = Some b" "key \<noteq> []" "tb_revision b < 2 ^ 31 - 1"
    and "tsv_dual s = None \<or> tsv_inference_quota_enabled s"
    and "0 \<le> tokens" "normalize_task_budget_cost cost = Inr n" "0 \<le> scaled_int n"
    and "tb_used_tokens b + tokens < 2 ^ 63" "tb_used_cost b + scaled_int n < 10 ^ 20"
    and "c = plain_call t USAGE key [(''tokens'', JInt tokens), (''cost_usd'', JStr (cost_text (dec_neg n) (dec_coeff n)))]
              (mutate_usage tokens (scaled_int n))" "fresh_key c d"
    and "u = b\<lparr>tb_used_tokens := tb_used_tokens b + tokens, tb_used_cost := tb_used_cost b + scaled_int n,
               tb_revision := tb_revision b + 1\<rparr>"
  shows "account_usage s quiet_env clock race at t key tokens cost None None None d = (Inr u, changed c u d)"
proof -
  have on: "plain_on s c b d" using plain_call_on [OF assms(2,3)] assms(11) by simp
  have m: "bc_mutate c = mutate_usage tokens (scaled_int n)" "mutator_ok (bc_kind c) (bc_mutate c)"
    by (simp_all add: assms(11) plain_call_def)
  note row = valid_row [OF assms(1,2)]
  have "counters_within u" using row(2) assms(6,8) by (auto simp: counters_within_def assms(13) Let_def)
  note ok = updated_row_ok [OF assms(1,2,4) this]
  have "mutate_with_reservation s quiet_env clock c d = (Inr u, changed c u d)"
    using plain_fresh [OF on assms(1,12) m(2) _ _ ok] assms(9,10) by (simp add: m(1) mutate_usage_def assms(13))
  then show ?thesis
    using assms(5-8) by (auto simp: account_usage_def Let_def assms(11) call_defs)
qed



text \<open>A call that names an incarnation keeps naming it from attempt to attempt.\<close>

lemma apply_reservation_generation:
  assumes "apply_reservation env i c now locked b d = Inr (Some u, d')" "joint_env_ok env" "joint_inv d"
    and "get_task_budget d (bc_task_id c) = Some b" "mutator_ok (bc_kind c) (bc_mutate c)"
  shows "tb_incarnation_generation u = tb_incarnation_generation b"
proof -
  obtain f d1 where f: "bc_mutate c b = Inr f"
    and cas: "compare_and_set_task_budget (bc_task_id c) (tb_revision b) f (Some (tb_incarnation_generation b))
        (lock_wait env i d) = Inr (Some u, d1)"
    using assms(1) by (auto simp: apply_reservation_def Let_def split: option.splits)
  have k: "keeps_identity f" using assms(5) f unfolding mutator_ok_def by blast
  have "budget_keys (lock_wait env i d)"
    using assms(2,3) by (auto simp: joint_env_ok_def joint_inv_def task_budget_inv_def)
  with cas k show ?thesis
    by (auto elim!: compare_and_set_task_budgetE simp: keeps_identity_def)
qed

lemma mutate_attempt_generation:
  assumes "joint_env_ok env" "joint_inv d" "mutator_ok (bc_kind c) (bc_mutate c)"
    and r: "mutate_attempt s c clock env i (Some g) d = (g', out)"
  shows "g' = Some g \<and> (\<forall>b d'. out = Some (Inr (b, d')) \<longrightarrow> tb_incarnation_generation b = g)"
proof -
  have load: "tb_incarnation_generation b = g" if "load_idempotent s c clk g x = Inr (Some b)" for clk x b
    using that by (auto simp: load_idempotent_def ofOption_def split: option.splits elim!: replay_reservationE)
  show ?thesis
  proof (cases "case write_intent env i of Some e \<Rightarrow> Inl e | None \<Rightarrow> read_incarnation s c (clock i 0) (Some g) d")
    case (Inl e)
    with r load show ?thesis by (auto simp: mutate_attempt_def elim!: attempt_outcomeE)
  next
    case (Inr p)
    then obtain locked row where p: "p = (locked, row)" and b: "get_task_budget d (bc_task_id c) = Some row"
      and g: "tb_incarnation_generation row = g"
      by (cases p) (auto split: option.splits dest: read_incarnation_budget)
    show ?thesis
      using r Inr p g load apply_reservation_generation [OF _ assms(1,2) b assms(3)]
      by (cases "own_reservation d c g") (auto simp: mutate_attempt_def Let_def elim!: attempt_outcomeE replay_reservationE)
  qed
qed

lemma continue_generation:
  assumes env: "joint_env_ok env" and m: "mutator_ok (bc_kind c) (bc_mutate c)" and "joint_inv d"
    and "continue_loop e (others env) (mutate_attempt s c clock env) i n (Some g) d = (Inr b, d')"
  shows "tb_incarnation_generation b = g"
  using assms(3,4)
proof (induction n arbitrary: i d)
  case 0
  then show ?case by simp
next
  case (Suc n)
  have inv: "joint_inv (others env i d)" using env Suc.prems(1) by (simp add: joint_env_ok_def)
  obtain g' out where a: "mutate_attempt s c clock env i (Some g) (others env i d) = (g', out)" by fastforce
  note gen = mutate_attempt_generation [OF env inv m a]
  with Suc.prems(2) Suc.IH [OF inv] a show ?case
    by (auto simp: Let_def split: option.splits sum.splits)
qed



text \<open>
  C12. The two budgets are charged together. When the inference of an enrolled task is reserved, in any
  environment, the task's reservation and the receipt of the user's charge of one inference, carrying
  the fingerprint of that reservation, are durable in the same state, and both budgets satisfy their
  invariants there: the user's counters are still the sums of the recorded charges.
\<close>

theorem enrolled_inference_charged_together:
  assumes "joint_env_ok env" "task_race_ok t race" "joint_inv d"
    and "tsv_dual s = Some ds" "\<not> tsv_inference_quota_enabled s" "get_task_binding d t = Some row"
    and "reserve_task_inference s env clock race at t rid None None None d = (Inr b, d')"
    and "c = plain_call t INFERENCE rid [] (mutate_inference s)"
  shows "joint_inv d' \<and> reserved c b d' \<and> mirrored_in (binding_snapshot row) c inference_dimensions d'"
proof -
  have c: "mutator_ok (bc_kind c) (bc_mutate c)" "bc_task_id c = t" by (simp_all add: assms(8) plain_call_def)
  have r: "mutate_enrolled_resource s env race at (binding_snapshot row) c inference_dimensions d = (Inr b, d')"
    using assms(4-8)
    by (simp add: reserve_task_inference_def mutate_resource_with_reservation_def preflight_resource_accounting_def plain_call_def)
  show ?thesis
    using mutate_enrolled_inv [OF assms(1) _ c(1) inference_dimensions_ok assms(3), of race s at "binding_snapshot row"]
      mutate_enrolled_result [OF assms(1) _ c(1) inference_dimensions_ok assms(3) r] assms(2) c(2) r
    by simp
qed

definition policy_identity_of :: "task_budget_limits \<Rightarrow> task_budget_policy \<Rightarrow> string \<times> string \<times> bool" where
  "policy_identity_of l p = (tbp_version p, task_budget_policy_fingerprint l p, tbp_deny_recursive_agent_cycle p)"

lemma same_policy_iff:
  "require_same_policy b p (task_budget_policy_fingerprint l p) =
     (if (tb_policy_version b, tb_policy_fingerprint b, tb_deny_recursive_agent_cycle b) = policy_identity_of l p then Inr ()
      else Inl TaskBudgetConflictError)"
  by (auto simp: require_same_policy_def policy_identity_of_def requireR_def)

lemma ensure_existing:
  assumes "get_task_budget d t = Some b" "task_budget_valid b"
  shows "ensure_budget quiet_env t l p d =
    (if (tb_policy_version b, tb_policy_fingerprint b, tb_deny_recursive_agent_cycle b) = policy_identity_of l p then Inr b
     else Inl TaskBudgetConflictError, d)"
  using assms
  by (simp add: ensure_budget_def initialize_budget_def existing_budget_def budget_from_record_def same_policy_iff Let_def
      requireR_def bindR_def)

text \<open>
  C17. Creating a budget is idempotent and its policy is immutable: a successful \<open>ensure_budget\<close>, won or
  lost against a concurrent one, returns the durable budget with exactly the policy and limits asked
  for; asking again returns it unchanged; asking for any other policy or limits is a conflict and
  changes nothing.
\<close>

theorem ensure_budget_immutable:
  assumes "joint_env_ok env" "joint_inv d" "ensure_budget env t l p d = (Inr b, d')"
    and "policy_identity_of l' p' \<noteq> policy_identity_of l p"
  shows "get_task_budget d' t = Some b \<and>
    (tb_policy_version b, tb_policy_fingerprint b, tb_deny_recursive_agent_cycle b) = policy_identity_of l p \<and>
    ensure_budget quiet_env t l p d' = (Inr b, d') \<and>
    ensure_budget quiet_env t l' p' d' = (Inl TaskBudgetConflictError, d')"
proof -
  have b: "get_task_budget d' t = Some b"
      "(tb_policy_version b, tb_policy_fingerprint b, tb_deny_recursive_agent_cycle b) = policy_identity_of l p"
    using ensure_budget_result [OF assms(3,2,1)] by (auto simp: same_policy_iff split: if_splits)
  have "joint_inv d'" using ensure_budget_inv [OF assms(2,1), of t l p] assms(3) by simp
  from ensure_existing [OF b(1) valid_row(1) [OF this b(1)]] b assms(4) show ?thesis by auto
qed

end
