(* ===== verification/Sample_Task.thy ===== *)
theory Sample_Task
  imports Sample_Mirror Task_Service
begin

text \<open>
  The task budget service on a concrete database: a task with an open budget of three
  inferences, none used yet, whose user is enrolled in dual accounting. The digests stay symbolic. The conditional theorems of \<open>Task_Service\<close> are applied
  to calls on it.
\<close>

section \<open>The database\<close>

lemma hex_digit_hex:
  assumes "d < 16"
  shows "hex_digit d \<in> set ''0123456789abcdef''"
proof -
  have "\<forall>d \<in> set [0..<16]. hex_digit d \<in> set ''0123456789abcdef''" by code_simp
  then show ?thesis using assms by (metis atLeastLessThan_iff less_eq_nat.simps(1) set_upt)
qed

lemma unat_and_15: "unat (w AND (15 :: w32)) < 16"
proof -
  have "w AND 15 = take_bit 4 w" by (simp add: take_bit_eq_mask mask_eq_exp_minus_1)
  then show ?thesis using take_bit_nat_less_exp [of 4 "unat w"] by (simp add: unsigned_take_bit_eq)
qed

lemma hex_word_chars: "c \<in> set (hex_word w) \<Longrightarrow> \<exists>d < 16. c = hex_digit d"
  unfolding hex_word_def using unat_and_15 by auto

lemma digest_chars: "c \<in> set (sha256_hexdigest s) \<Longrightarrow> \<exists>d < 16. c = hex_digit d"
  by (auto simp: sha256_hexdigest_def dest!: hex_word_chars split: prod.splits)

lemma is_hex64_digest: "is_hex64 (sha256_hexdigest s)"
proof -
  have "c \<in> set ''0123456789abcdef''" if "c \<in> set (sha256_hexdigest s)" for c
    using digest_chars [OF that] hex_digit_hex by blast
  then show ?thesis unfolding is_hex64_def list_all_iff by (intro conjI length_sha256_hexdigest ballI)
qed

definition tx_limits :: task_budget_limits where
  "tx_limits = \<lparr>lim_total_executions = 5, lim_active_executions = 2, lim_active_branches = 2, lim_parallel_agents = 2,
                lim_total_tool_calls = 10, lim_total_inference_calls = 3, lim_delegation_depth = 2,
                lim_total_tokens = Some 1000, lim_total_cost = None\<rparr>"

definition tx_policy :: task_budget_policy where
  "tx_policy = \<lparr>tbp_version = ''r5-v1'', tbp_deny_recursive_agent_cycle = True\<rparr>"

definition tx_budget :: task_budget_row where
  "tx_budget = (new_budget_values ''t1'' tx_limits tx_policy (task_budget_policy_fingerprint tx_limits tx_policy))
     \<lparr>tb_incarnation_generation := 1\<rparr>"

definition tx_settings :: task_budget_settings where
  "tx_settings = \<lparr>tsv_max_conflict_retries = 3, tsv_dual = None, tsv_inference_quota_enabled = False\<rparr>"

definition tx_clock :: "nat \<Rightarrow> nat \<Rightarrow> pydatetime" where
  "tx_clock i j = PyDT 1000 (Some 0)"

abbreviation tx_race :: "nat \<Rightarrow> db \<Rightarrow> db" where
  "tx_race \<equiv> \<lambda>_ d. d"

definition tx_db :: db where
  "tx_db = mx_db [tx_budget] []"

lemmas tx_row_defs = tx_budget_def new_budget_values_def tx_limits_def tx_policy_def

lemma tx_budget_ok: "task_budget_valid tx_budget" "task_budget_row_ok tx_budget" "task_budget_fits tx_budget"
proof -
  have fp: "is_hex64 (task_budget_policy_fingerprint l p)" for l p
    unfolding task_budget_policy_fingerprint_def by (rule is_hex64_digest)
  show "task_budget_valid tx_budget"
    using fp by (simp add: task_budget_valid_def counters_within_def closed_at_matches_def limits_valid_def positive_opt_def
        py_len_simps Let_def) (simp add: tx_row_defs positive_opt_def py_len_def)
  show "task_budget_row_ok tx_budget"
    by (simp add: task_budget_row_ok_def counters_within_def closed_at_matches_def limits_valid_def positive_opt_def Let_def)
      (simp add: tx_row_defs positive_opt_def)
  show "task_budget_fits tx_budget"
    by (simp add: task_budget_fits_def fits_opt_def Let_def) (simp add: tx_row_defs fits_opt_def)
qed

lemma tx_tables:
  "task_budgets tx_db = [tx_budget]" "task_budget_reservations tx_db = []" "task_budget_next_generation tx_db = 2"
  "tb_task_id tx_budget = ''t1''" "tb_incarnation_generation tx_budget = 1" "tb_used_inference_calls tx_budget = 0"
  "tb_revision tx_budget = 0" "tb_state tx_budget = TB_OPEN" "tb_limits tx_budget = tx_limits"
  "tb_used_tokens tx_budget = 0" "tb_used_cost tx_budget = 0" "lim_total_inference_calls tx_limits = 3"
  "lim_total_tokens tx_limits = Some 1000" "lim_total_cost tx_limits = None"
  by (simp_all add: tx_db_def mx_db_def tx_row_defs)

lemma tx_db_inv: "joint_inv tx_db"
proof -
  have "budget_inv tx_db" by (simp add: tx_db_def mx_db_inv)
  then show ?thesis
    using tx_budget_ok
    by (simp add: joint_inv_def task_budget_inv_def budget_keys_def budget_row_inv_def reservation_rows_inv_def
        inference_count_def tx_tables)
qed

lemma tx_get: "get_task_budget tx_db ''t1'' = Some tx_budget"
  by (simp add: get_task_budget_def tx_tables)

section \<open>A reserved inference\<close>

definition tx_call :: budget_call where
  "tx_call = plain_call ''t1'' INFERENCE ''k1'' [] (mutate_inference tx_settings)"

definition tx_charged :: task_budget_row where
  "tx_charged = tx_budget\<lparr>tb_used_inference_calls := 1, tb_revision := 1\<rparr>"

lemma tx_open: "\<not> inference_exhausted tx_budget"
  by (simp add: inference_exhausted_def tx_tables)

lemma tx_charged_ok: "task_budget_fits tx_charged" "task_budget_row_ok tx_charged" "task_budget_valid tx_charged"
proof -
  have "counters_within tx_charged"
    using tx_budget_ok(1) by (simp add: task_budget_valid_def counters_within_def tx_charged_def Let_def tx_tables)
  from updated_row_ok [OF tx_db_inv tx_get _ this]
  show "task_budget_fits tx_charged" "task_budget_row_ok tx_charged" "task_budget_valid tx_charged"
    by (simp_all add: tx_charged_def tx_tables)
qed

lemma tx_fresh: "fresh_key c tx_db"
  by (simp add: fresh_key_def tx_tables)

lemma tx_mutate:
  "mutate_inference tx_settings tx_budget = Inr (\<lambda>r. r\<lparr>tb_used_inference_calls := 1\<rparr>)"
  by (simp add: mutate_inference_cases tx_open tx_tables)

lemma tx_reserve:
  assumes "g \<in> {None, Some 1}"
  shows "reserve_task_inference tx_settings quiet_env tx_clock tx_race at ''t1'' ''k1'' None None g tx_db =
    (Inr tx_charged, changed (recovery_call None None g tx_call) tx_charged tx_db)"
proof -
  let ?c = "recovery_call None None g tx_call"
  have on: "plain_on tx_settings ?c tx_budget tx_db"
    using assms by (auto simp: plain_on_def tx_call_def call_defs require_unbound_def tx_get tx_tables)
  have "mutate_with_reservation tx_settings quiet_env tx_clock ?c tx_db = (Inr tx_charged, changed ?c tx_charged tx_db)"
    by (rule plain_fresh [OF on tx_db_inv tx_fresh _ _ _ tx_charged_ok])
      (simp_all add: tx_call_def call_defs tx_mutate tx_charged_def tx_tables)
  then show ?thesis by (simp add: reserve_task_inference_def Let_def tx_settings_def tx_call_def)
qed

theorem task_inference_reserved_once_witness:
  "\<exists>d'. reserve_task_inference tx_settings quiet_env tx_clock tx_race mx_now ''t1'' ''k1'' None None None tx_db = (Inr tx_charged, d') \<and>
        reserve_task_inference tx_settings quiet_env tx_clock tx_race mx_now ''t1'' ''k1'' None None None d' = (Inr tx_charged, d')"
proof (intro exI conjI)
  show r: "reserve_task_inference tx_settings quiet_env tx_clock tx_race mx_now ''t1'' ''k1'' None None None tx_db =
      (Inr tx_charged, changed (recovery_call None None None tx_call) tx_charged tx_db)"
    by (rule tx_reserve) simp
  show "reserve_task_inference tx_settings quiet_env tx_clock tx_race mx_now ''t1'' ''k1'' None None None
      (changed (recovery_call None None None tx_call) tx_charged tx_db) =
      (Inr tx_charged, changed (recovery_call None None None tx_call) tx_charged tx_db)"
    by (rule task_inference_reserved_once [OF quiet_joint_env_ok tx_db_inv _ r]) (simp add: tx_settings_def)
qed

theorem task_inference_charge_witness:
  "reserve_task_inference tx_settings quiet_env tx_clock tx_race mx_now ''t1'' ''k1'' None None None tx_db =
     (Inr tx_charged, changed tx_call tx_charged tx_db)"
  using task_inference_charge [OF tx_db_inv tx_get _ _ _ tx_call_def tx_fresh refl, of tx_clock tx_race mx_now]
  by (simp add: tx_tables tx_open) (simp add: tx_settings_def tx_charged_def tx_tables)


definition tx_execution :: execution_row where
  "tx_execution =
     \<lparr>exe_id = ''e1'', exe_task_id = Some ''t1'', exe_branch_id = None, exe_retry_of_execution_id = None,
      exe_base_execution_id = None, exe_base_checkpoint_id = None, exe_state = ''RUNNING'', exe_wait_reason = None,
      exe_revision = 1, exe_owner_instance_id = Some ''i1'', exe_lease_expires_at = Some (PyDT 5000 (Some 0)),
      exe_lease_generation = 5, exe_current_checkpoint_id = None, exe_bound_client_id = None,
      exe_bound_connection_id = None, exe_wait_expires_at = None, exe_context_state = None, exe_error = None,
      exe_started_at = None, exe_completed_at = None\<rparr>"


section \<open>Usage, reuse and closing\<close>

definition tx_used :: task_budget_row where
  "tx_used = tx_budget\<lparr>tb_used_tokens := 10, tb_used_cost := 50000000, tb_revision := 1\<rparr>"

lemma tx_cost: "normalize_task_budget_cost (VDec (Fin False 5 (-1))) = Inr (Fin False 50000000 (-8))" "scaled_int (Fin False 50000000 (-8)) = 50000000"
  by (simp_all add: normalize_task_budget_cost_def decimal_of_def quantize_def rescale_def scaled_int_def dec_int_def
      USER_BUDGET_ATOMIC_SCALE_def Let_def)

theorem task_usage_accounted_witness:
  "\<exists>c. account_usage tx_settings quiet_env tx_clock tx_race mx_now ''t1'' ''k1'' 10 (VDec (Fin False 5 (-1))) None None None tx_db =
     (Inr tx_used, changed c tx_used tx_db)"
  using task_usage_accounted [OF tx_db_inv tx_get _ _ _ _ tx_cost(1) _ _ _ refl tx_fresh refl,
      of "''k1''" tx_settings 10 tx_clock tx_race mx_now]
  by (auto simp: tx_cost tx_tables tx_settings_def tx_used_def)

definition tx_taken :: db where
  "tx_taken = mx_db [tx_budget]
     [\<lparr>tbr_task_id = ''t1'', tbr_kind = ''TOOL_CALL'', tbr_reservation_key = ''k1'', tbr_incarnation_generation = 1,
       tbr_payload_fingerprint = ''other''\<rparr>]"

lemma tx_taken_inv: "joint_inv tx_taken"
proof -
  have "budget_inv tx_taken" by (simp add: tx_taken_def mx_db_inv)
  then show ?thesis
    using tx_budget_ok
    by (simp add: joint_inv_def task_budget_inv_def budget_keys_def budget_row_inv_def reservation_rows_inv_def
        inference_count_def tx_tables tx_taken_def mx_db_def)
qed


definition tx_closed :: task_budget_row where
  "tx_closed = tx_budget\<lparr>tb_state := TB_CLOSED, tb_closed_at := Some mx_now\<rparr>"

definition tx_closed_db :: db where
  "tx_closed_db = mx_db [tx_closed] []"

lemma tx_closed_inv: "joint_inv tx_closed_db"
proof -
  have "budget_inv tx_closed_db" by (simp add: tx_closed_db_def mx_db_inv)
  moreover have "budget_row_inv tx_closed_db tx_closed"
    using tx_budget_ok
    by (simp add: budget_row_inv_def task_budget_valid_def task_budget_row_ok_def task_budget_fits_def counters_within_def
        closed_at_matches_def inference_count_def tx_closed_def tx_closed_db_def mx_db_def tx_tables Let_def)
  ultimately show ?thesis
    by (simp add: joint_inv_def task_budget_inv_def budget_keys_def reservation_rows_inv_def)
      (simp add: tx_closed_db_def mx_db_def)
qed


section \<open>Creation\<close>

definition tx_created :: task_budget_row where
  "tx_created = tx_budget\<lparr>tb_incarnation_generation := 2\<rparr>"

definition tx_created_db :: db where
  "tx_created_db = (mx_db [tx_created] [])\<lparr>task_budget_next_generation := 3\<rparr>"

lemma tx_empty: "initial_tables (mx_db [] [])"
  by (simp add: initial_tables_def mx_db_inv) (simp add: mx_db_def)

lemma tx_created_ok: "task_budget_valid tx_created" "task_budget_row_ok tx_created" "task_budget_fits tx_created"
  using tx_budget_ok
  by (simp_all add: task_budget_valid_def task_budget_row_ok_def task_budget_fits_def counters_within_def closed_at_matches_def
      tx_created_def Let_def tx_tables)

lemma tx_ensure: "ensure_budget quiet_env ''t1'' tx_limits tx_policy (mx_db [] []) = (Inr tx_created, tx_created_db)"
proof -
  have v: "(new_budget_values ''t1'' tx_limits tx_policy (task_budget_policy_fingerprint tx_limits tx_policy))
      \<lparr>tb_incarnation_generation := 2\<rparr> = tx_created"
    by (simp add: tx_created_def tx_budget_def)
  have "save_task_budget (new_budget_values ''t1'' tx_limits tx_policy (task_budget_policy_fingerprint tx_limits tx_policy)) (mx_db [] []) =
      Inr (tx_created, tx_created_db)"
    using tx_created_ok v
    by (simp add: save_task_budget_def mx_db_def tx_created_db_def get_task_def Let_def) (simp add: tx_created_def tx_tables)
  moreover have "get_task_budget (mx_db [] []) ''t1'' = None" "\<not> has_execution_for_task (mx_db [] []) ''t1''"
    "get_task (mx_db [] []) ''t1'' = Some \<lparr>tsk_id = ''t1'', tsk_status = ''RUNNING''\<rparr>"
    by (simp_all add: get_task_budget_def get_task_def has_execution_for_task_def mx_db_def)
  ultimately show ?thesis
    by (simp add: ensure_budget_def initialize_budget_def Let_def budget_from_record_def tx_created_ok ofOption_def)
qed

theorem task_budget_system_invariant_witness:
  "reach initial_tables (task_budget_step tx_settings) tx_created_db \<and> tx_created \<in> set (task_budgets tx_created_db) \<and>
   counters_within tx_created \<and> tb_used_inference_calls tx_created = 0"
proof -
  have "task_budget_step tx_settings (mx_db [] []) tx_created_db"
    using step_ensure [OF quiet_joint_env_ok, of tx_settings "mx_db [] []" "''t1''" tx_limits tx_policy] tx_ensure by simp
  then have r: "reach initial_tables (task_budget_step tx_settings) tx_created_db"
    using reach_init [of initial_tables, OF tx_empty] by (blast intro: reach_step)
  have b: "tx_created \<in> set (task_budgets tx_created_db)" by (simp add: tx_created_db_def mx_db_def)
  from task_budget_system_invariant [OF r b] r b show ?thesis by (simp add: tx_created_def tx_tables)
qed

theorem ensure_budget_immutable_witness:
  "ensure_budget quiet_env ''t1'' tx_limits tx_policy (mx_db [] []) = (Inr tx_created, tx_created_db) \<and>
   get_task_budget tx_created_db ''t1'' = Some tx_created \<and>
   ensure_budget quiet_env ''t1'' tx_limits tx_policy tx_created_db = (Inr tx_created, tx_created_db) \<and>
   ensure_budget quiet_env ''t1'' tx_limits (tx_policy\<lparr>tbp_version := ''r6''\<rparr>) tx_created_db =
     (Inl TaskBudgetConflictError, tx_created_db)"
proof -
  have "policy_identity_of tx_limits (tx_policy\<lparr>tbp_version := ''r6''\<rparr>) \<noteq> policy_identity_of tx_limits tx_policy"
    by (simp add: policy_identity_of_def tx_policy_def)
  from ensure_budget_immutable [OF quiet_joint_env_ok initial_joint_inv [OF tx_empty] tx_ensure this] tx_ensure
  show ?thesis by simp
qed

section \<open>The enrolled task\<close>

definition tx_dual :: task_budget_settings where
  "tx_dual = tx_settings\<lparr>tsv_dual := Some mx_settings\<rparr>"

definition tx_dual_call :: budget_call where
  "tx_dual_call = plain_call ''t1'' INFERENCE ''k1'' [] (mutate_inference tx_dual)"

definition tx_mirrored :: db where
  "tx_mirrored = mx_done [tx_charged] [call_reservation tx_dual_call 1] (call_fingerprint tx_dual_call)"

lemma tx_enrolled_transaction:
  "enrolled_transaction mx_settings (\<lambda>_. id) mx_binding tx_dual_call inference_dimensions mx_now quiet_env 0 tx_db =
     Inr (Some tx_charged, tx_mirrored)"
proof -
  have c: "bc_task_id tx_dual_call = ''t1''" "bc_kind tx_dual_call = INFERENCE" "bc_reservation_key tx_dual_call = ''k1''"
    "bc_mutate tx_dual_call tx_budget = Inr (\<lambda>r. r\<lparr>tb_used_inference_calls := 1\<rparr>)"
    by (simp_all add: tx_dual_call_def plain_call_def mutate_inference_cases tx_open tx_tables)
  have bound: "get_task_binding tx_db ''t1'' = Some mx_binding_row" "require_same_binding mx_binding mx_binding_row = Inr ()"
    by (simp_all add: get_task_binding_def tx_db_def mx_db_def require_same_binding_def mx_binding_def binding_snapshot_def
        mx_binding_row_def)
  have none: "get_task_budget_reservation tx_db ''t1'' ''INFERENCE'' ''k1'' 1 = None"
    by (simp add: get_task_budget_reservation_def tx_tables)
  have keys: "budget_keys tx_db" by (simp add: budget_keys_def tx_tables)
  have u: "(tx_budget\<lparr>tb_used_inference_calls := 1\<rparr>)\<lparr>tb_revision := tb_revision tx_budget + 1\<rparr> = tx_charged"
    by (simp add: tx_charged_def tx_tables)
  have cas: "compare_and_set_task_budget ''t1'' (tb_revision tx_budget) (\<lambda>r. r\<lparr>tb_used_inference_calls := 1\<rparr>)
      (Some (tb_incarnation_generation tx_budget)) tx_db = Inr (Some tx_charged, mx_db [tx_charged] [])"
    using compare_and_set_hit [OF keys tx_get, of "\<lambda>r. r\<lparr>tb_used_inference_calls := 1\<rparr>", unfolded u] tx_charged_ok
    by (simp add: keeps_identity_def put_budget_def tx_tables tx_db_def mx_db_def tx_charged_def)
  have save: "save_task_budget_reservation ''t1'' ''INFERENCE'' ''k1'' (call_fingerprint tx_dual_call) (Some 1) (mx_db [tx_charged] []) =
      Inr (mx_db [tx_charged] [call_reservation tx_dual_call 1])"
    by (simp add: save_task_budget_reservation_def get_task_budget_def mx_db_def ofOption_def tx_charged_def tx_tables
        call_reservation_def c Let_def)
  show ?thesis
    using tx_budget_ok tx_charged_ok cas
    by (simp add: enrolled_transaction_def Let_def c bound tx_get none tx_tables budget_from_record_def save mx_mirror ofOption_def
        tx_mirrored_def)
qed

theorem enrolled_inference_charged_together_witness:
  "reserve_task_inference tx_dual quiet_env tx_clock (\<lambda>_. id) mx_now ''t1'' ''k1'' None None None tx_db = (Inr tx_charged, tx_mirrored) \<and>
   joint_inv tx_mirrored \<and> reserved tx_dual_call tx_charged tx_mirrored \<and>
   mirrored_in (binding_snapshot mx_binding_row) tx_dual_call inference_dimensions tx_mirrored"
proof -
  have b: "get_task_binding tx_db ''t1'' = Some mx_binding_row" by (simp add: get_task_binding_def tx_db_def mx_db_def mx_binding_row_def)
  have race: "task_race_ok ''t1'' (\<lambda>_. id)" using quiet_task_race_ok by (simp add: id_def)
  have s: "tsv_dual tx_dual = Some mx_settings" "\<not> tsv_inference_quota_enabled tx_dual"
    by (simp_all add: tx_dual_def tx_settings_def)
  obtain n where n: "max_attempts tx_dual = Suc n" by (rule max_attempts_Suc)
  have r: "reserve_task_inference tx_dual quiet_env tx_clock (\<lambda>_. id) mx_now ''t1'' ''k1'' None None None tx_db = (Inr tx_charged, tx_mirrored)"
    by (simp add: reserve_task_inference_def s n mutate_resource_with_reservation_def preflight_resource_accounting_def
        plain_call_def mutate_enrolled_resource_def b enrolled_attempt_def Let_def
        tx_enrolled_transaction [unfolded tx_dual_call_def plain_call_def mx_binding_def])
  from enrolled_inference_charged_together [OF quiet_joint_env_ok race tx_db_inv s(1,2) b r tx_dual_call_def] r
  show ?thesis by simp
qed

end
