(* ===== verification/Execution_Store.thy ===== *)
theory Execution_Store
  imports Task_Budget
begin

text \<open>
  The rows of agent executions and their leases: the methods of
  \<open>src/se/src/infrastructure/storage/repositories/agent.py\<close> that write \<open>agent_executions\<close>, and the
  operations of the durable store (\<open>src/se/src/runtimes/agent/persistence.py\<close>) that wrap them in a
  transaction.

  A lease is three columns of the row: the owner, the expiry and the generation, which is the fencing
  token. A method that finds no row to update returns \<open>None\<close>; the store turns that into an error, which
  rolls the transaction back. The dictionary of columns that the generic methods take is a list of
  assignments with distinct keys. The JSON columns hold JSON values already, so their normalisation is
  the identity.
\<close>

section \<open>Column values\<close>

datatype execution_value =
    V_state string
  | V_wait_reason "string option"
  | V_revision int
  | V_owner_instance_id "string option"
  | V_lease_expires_at "pydatetime option"
  | V_lease_generation int
  | V_current_checkpoint_id "string option"
  | V_wait_expires_at "pydatetime option"
  | V_context_state "(string \<times> json) list option"
  | V_error "string option"
  | V_started_at "pydatetime option"
  | V_completed_at "pydatetime option"
  | V_other string json

fun value_key :: "execution_value \<Rightarrow> string" where
  "value_key (V_state _) = ''state''"
| "value_key (V_wait_reason _) = ''wait_reason''"
| "value_key (V_revision _) = ''revision''"
| "value_key (V_owner_instance_id _) = ''owner_instance_id''"
| "value_key (V_lease_expires_at _) = ''lease_expires_at''"
| "value_key (V_lease_generation _) = ''lease_generation''"
| "value_key (V_current_checkpoint_id _) = ''current_checkpoint_id''"
| "value_key (V_wait_expires_at _) = ''wait_expires_at''"
| "value_key (V_context_state _) = ''context_state''"
| "value_key (V_error _) = ''error''"
| "value_key (V_started_at _) = ''started_at''"
| "value_key (V_completed_at _) = ''completed_at''"
| "value_key (V_other k _) = k"

text \<open>The lease expiry is stored in UTC (\<open>UTCLeaseDateTime\<close>); a naive one is refused when it is bound.\<close>

fun set_value :: "execution_value \<Rightarrow> execution_row \<Rightarrow> execution_row" where
  "set_value (V_state x) e = e\<lparr>exe_state := x\<rparr>"
| "set_value (V_wait_reason x) e = e\<lparr>exe_wait_reason := x\<rparr>"
| "set_value (V_revision x) e = e\<lparr>exe_revision := x\<rparr>"
| "set_value (V_owner_instance_id x) e = e\<lparr>exe_owner_instance_id := x\<rparr>"
| "set_value (V_lease_expires_at x) e = e\<lparr>exe_lease_expires_at := map_option record_utc x\<rparr>"
| "set_value (V_lease_generation x) e = e\<lparr>exe_lease_generation := x\<rparr>"
| "set_value (V_current_checkpoint_id x) e = e\<lparr>exe_current_checkpoint_id := x\<rparr>"
| "set_value (V_wait_expires_at x) e = e\<lparr>exe_wait_expires_at := x\<rparr>"
| "set_value (V_context_state x) e = e\<lparr>exe_context_state := x\<rparr>"
| "set_value (V_error x) e = e\<lparr>exe_error := x\<rparr>"
| "set_value (V_started_at x) e = e\<lparr>exe_started_at := x\<rparr>"
| "set_value (V_completed_at x) e = e\<lparr>exe_completed_at := x\<rparr>"
| "set_value (V_other k x) e = e"

definition set_values :: "execution_value list \<Rightarrow> execution_row \<Rightarrow> execution_row" where
  "set_values vs e = fold set_value vs e"

fun bindable :: "execution_value \<Rightarrow> bool" where
  "bindable (V_lease_expires_at (Some t)) = (utcoffset t \<noteq> None)"
| "bindable _ = True"

text \<open>The CHECK constraints of the table.\<close>

definition execution_row_ok :: "execution_row \<Rightarrow> bool" where
  "execution_row_ok e \<longleftrightarrow>
     (exe_owner_instance_id e = None) = (exe_lease_expires_at e = None) \<and>
     0 \<le> exe_lease_generation e \<and>
     (exe_owner_instance_id e = None \<or> 0 < exe_lease_generation e)"

section \<open>The repository\<close>

definition insert_execution :: "execution_row \<Rightarrow> db \<Rightarrow> err + execution_row \<times> db" where
  "insert_execution e d =
     (let e' = e\<lparr>exe_lease_expires_at := map_option record_utc (exe_lease_expires_at e)\<rparr> in
      bindR (requireR (bindable (V_lease_expires_at (exe_lease_expires_at e))) SqlStatementError) (\<lambda>_.
      bindR (requireR (exe_id e \<notin> exe_id ` set (executions d) \<and> execution_row_ok e) SqlIntegrityError) (\<lambda>_.
      Inr (e', d\<lparr>executions := executions d @ [e']\<rparr>))))"

text \<open>
  An UPDATE by primary key with a further condition, and the SELECT of the updated row. The new values
  may be computed from the old row.
\<close>

definition update_execution_where :: "string \<Rightarrow> (execution_row \<Rightarrow> bool) \<Rightarrow> (execution_row \<Rightarrow> execution_value list) \<Rightarrow> db \<Rightarrow>
    err + execution_row option \<times> db" where
  "update_execution_where execution_id P vs d =
     (let hit = (\<lambda>e. exe_id e = execution_id \<and> P e);
          d' = d\<lparr>executions := upd_where hit (\<lambda>e. set_values (vs e) e) (executions d)\<rparr> in
      bindR (requireR (\<forall>e \<in> set (executions d). hit e \<longrightarrow> execution_row_ok (set_values (vs e) e)) SqlIntegrityError) (\<lambda>_.
      Inr (if length (filter hit (executions d)) \<noteq> 1 then None else get_execution d' execution_id, d')))"

definition require_lease_utc_datetime :: "pydatetime \<Rightarrow> err + unit" where
  "require_lease_utc_datetime t = requireR (utcoffset t = Some 0) ValueError"

definition require_lease_owner :: "string \<Rightarrow> err + unit" where
  "require_lease_owner owner = requireR (py_strip owner \<noteq> []) ValueError"

definition require_lease_generation :: "int \<Rightarrow> err + unit" where
  "require_lease_generation generation = requireR (0 < generation) ValueError"

text \<open>A condition on the expiry column, as an instant: NULL satisfies none.\<close>

definition expiry_is :: "(int \<Rightarrow> bool) \<Rightarrow> execution_row \<Rightarrow> bool" where
  "expiry_is Q e = (case exe_lease_expires_at e of None \<Rightarrow> False | Some x \<Rightarrow> Q (wall (record_utc x)))"

definition held_by :: "string \<Rightarrow> int \<Rightarrow> execution_row \<Rightarrow> bool" where
  "held_by owner generation e \<longleftrightarrow>
     exe_state e = ''RUNNING'' \<and> exe_owner_instance_id e = Some owner \<and> exe_lease_generation e = generation"

definition acquire_execution_lease :: "string \<Rightarrow> string \<Rightarrow> pydatetime \<Rightarrow> pydatetime \<Rightarrow> db \<Rightarrow> err + execution_row option \<times> db" where
  "acquire_execution_lease execution_id owner now lease_expires_at d =
     bindR (require_lease_owner owner) (\<lambda>_.
     bindR (require_lease_utc_datetime now) (\<lambda>_.
     bindR (require_lease_utc_datetime lease_expires_at) (\<lambda>_.
     bindR (requireR (wall now < wall lease_expires_at) ValueError) (\<lambda>_.
       update_execution_where execution_id
         (\<lambda>e. exe_state e = ''RUNNING'' \<and> exe_owner_instance_id e = None \<and> exe_lease_expires_at e = None)
         (\<lambda>e. [V_owner_instance_id (Some owner), V_lease_expires_at (Some lease_expires_at),
               V_lease_generation (exe_lease_generation e + 1)]) d))))"

definition renew_execution_lease :: "string \<Rightarrow> string \<Rightarrow> int \<Rightarrow> pydatetime \<Rightarrow> pydatetime \<Rightarrow> db \<Rightarrow>
    err + execution_row option \<times> db" where
  "renew_execution_lease execution_id owner generation now new_lease_expires_at d =
     bindR (require_lease_owner owner) (\<lambda>_.
     bindR (require_lease_generation generation) (\<lambda>_.
     bindR (require_lease_utc_datetime now) (\<lambda>_.
     bindR (require_lease_utc_datetime new_lease_expires_at) (\<lambda>_.
     bindR (requireR (wall now < wall new_lease_expires_at) ValueError) (\<lambda>_.
       update_execution_where execution_id
         (\<lambda>e. held_by owner generation e \<and> expiry_is (\<lambda>x. wall now < x \<and> x < wall new_lease_expires_at) e)
         (\<lambda>_. [V_lease_expires_at (Some new_lease_expires_at)]) d)))))"

definition release_execution_lease :: "string \<Rightarrow> string \<Rightarrow> int \<Rightarrow> db \<Rightarrow> err + execution_row option \<times> db" where
  "release_execution_lease execution_id owner generation d =
     bindR (require_lease_owner owner) (\<lambda>_.
     bindR (require_lease_generation generation) (\<lambda>_.
       update_execution_where execution_id
         (\<lambda>e. held_by owner generation e \<and> exe_lease_expires_at e \<noteq> None)
         (\<lambda>_. [V_owner_instance_id None, V_lease_expires_at None]) d))"

subsection \<open>Taking over an expired lease\<close>

record lease_observation =
  lo_owner_instance_id :: string
  lo_lease_generation :: int
  lo_lease_expires_at :: pydatetime

definition require_observation :: "lease_observation \<Rightarrow> pydatetime \<Rightarrow> int \<Rightarrow> err + unit" where
  "require_observation ob takeover_now expected_revision =
     bindR (require_lease_owner (lo_owner_instance_id ob)) (\<lambda>_.
     bindR (require_lease_generation (lo_lease_generation ob)) (\<lambda>_.
     bindR (require_lease_utc_datetime (lo_lease_expires_at ob)) (\<lambda>_.
     bindR (require_lease_utc_datetime takeover_now) (\<lambda>_.
     requireR (0 \<le> expected_revision) ValueError))))"

definition observed_expired :: "lease_observation \<Rightarrow> pydatetime \<Rightarrow> int \<Rightarrow> execution_row \<Rightarrow> bool" where
  "observed_expired ob takeover_now expected_revision e \<longleftrightarrow>
     exe_revision e = expected_revision \<and>
     held_by (lo_owner_instance_id ob) (lo_lease_generation ob) e \<and>
     expiry_is (\<lambda>x. x = wall (lo_lease_expires_at ob) \<and> x \<le> wall takeover_now) e"

definition FENCED_KEYS :: "string list" where
  "FENCED_KEYS = [''revision'', ''owner_instance_id'', ''lease_expires_at'', ''lease_generation'']"

definition checkpoint_identity :: "string \<Rightarrow> int \<Rightarrow> string" where
  "checkpoint_identity execution_id revision = execution_id @ '':checkpoint:'' @ int_text revision"

fun keeps_recovery_state :: "execution_value \<Rightarrow> bool" where
  "keeps_recovery_state (V_state s) = (s = ''WAITING'')"
| "keeps_recovery_state (V_wait_reason r) = (r = Some ''RECOVERY'')"
| "keeps_recovery_state _ = True"

fun checkpoint_value :: "execution_value \<Rightarrow> string option" where
  "checkpoint_value (V_current_checkpoint_id c) = c"
| "checkpoint_value _ = None"

definition compare_and_set_recovery_waiting_execution ::
    "string \<Rightarrow> int \<Rightarrow> lease_observation \<Rightarrow> pydatetime \<Rightarrow> execution_value list \<Rightarrow> db \<Rightarrow> err + execution_row option \<times> db" where
  "compare_and_set_recovery_waiting_execution execution_id expected_revision ob takeover_now values d =
     bindR (require_observation ob takeover_now expected_revision) (\<lambda>_.
     bindR (requireR (list_all (\<lambda>v. value_key v \<notin> set FENCED_KEYS) values) ValueError) (\<lambda>_.
     bindR (requireR (list_all keeps_recovery_state values) ValueError) (\<lambda>_.
     bindR (requireR (list_ex (\<lambda>v. checkpoint_value v = Some (checkpoint_identity execution_id (expected_revision + 1))) values)
              ValueError) (\<lambda>_.
       update_execution_where execution_id (observed_expired ob takeover_now expected_revision)
         (\<lambda>_. filter (\<lambda>v. value_key v \<notin> {''state'', ''wait_reason''}) values @
           [V_revision (expected_revision + 1), V_state ''WAITING'', V_wait_reason (Some ''RECOVERY''),
            V_owner_instance_id None, V_lease_expires_at None, V_lease_generation (lo_lease_generation ob + 1)]) d))))"

text \<open>\<open>isalnum\<close> on ASCII.\<close>

definition ascii_alnum :: "char \<Rightarrow> bool" where
  "ascii_alnum c \<longleftrightarrow>
     (let n = (of_char c :: nat) in 48 \<le> n \<and> n \<le> 57 \<or> 65 \<le> n \<and> n \<le> 90 \<or> 97 \<le> n \<and> n \<le> 122)"

definition reason_token :: "string \<Rightarrow> bool" where
  "reason_token s \<longleftrightarrow> (let t = filter (\<lambda>c. c \<noteq> CHR ''_'') s in t \<noteq> [] \<and> list_all ascii_alnum t)"

definition unrecoverable_error :: "string \<Rightarrow> string" where
  "unrecoverable_error reason_code = ''R12_STALE_RECOVERY_UNRECOVERABLE:'' @ reason_code"

definition compare_and_set_expired_execution_terminal ::
    "string \<Rightarrow> int \<Rightarrow> lease_observation \<Rightarrow> pydatetime \<Rightarrow> string \<Rightarrow> (string \<times> json) list option \<Rightarrow> db \<Rightarrow>
     err + execution_row option \<times> db" where
  "compare_and_set_expired_execution_terminal execution_id expected_revision ob takeover_now reason_code terminal_context_state d =
     bindR (require_observation ob takeover_now expected_revision) (\<lambda>_.
     bindR (requireR (reason_token reason_code) ValueError) (\<lambda>_.
       update_execution_where execution_id (observed_expired ob takeover_now expected_revision)
         (\<lambda>_. [V_revision (expected_revision + 1), V_state ''FAILED'', V_wait_reason None, V_wait_expires_at None,
               V_owner_instance_id None, V_lease_expires_at None, V_lease_generation (lo_lease_generation ob + 1),
               V_completed_at (Some takeover_now), V_error (Some (unrecoverable_error reason_code))] @
              (case terminal_context_state of None \<Rightarrow> [] | Some c \<Rightarrow> [V_context_state (Some c)])) d))"

definition has_active_execution_lease_fence :: "string \<Rightarrow> string \<Rightarrow> int \<Rightarrow> pydatetime \<Rightarrow> pydatetime option \<Rightarrow> db \<Rightarrow> err + bool" where
  "has_active_execution_lease_fence execution_id owner generation now expected_expires_at d =
     bindR (require_lease_owner owner) (\<lambda>_.
     bindR (require_lease_generation generation) (\<lambda>_.
     bindR (require_lease_utc_datetime now) (\<lambda>_.
     bindR (case expected_expires_at of None \<Rightarrow> Inr () | Some x \<Rightarrow> require_lease_utc_datetime x) (\<lambda>_.
       Inr (list_ex (\<lambda>e. exe_id e = execution_id \<and> held_by owner generation e \<and>
         expiry_is (\<lambda>x. wall now < x \<and> (case expected_expires_at of None \<Rightarrow> True | Some y \<Rightarrow> x = wall y)) e)
         (executions d))))))"

subsection \<open>Compare and set on the revision\<close>

definition update_values :: "string \<Rightarrow> (execution_row \<Rightarrow> bool) \<Rightarrow> execution_value list \<Rightarrow> db \<Rightarrow> err + execution_row option \<times> db" where
  "update_values execution_id P values d =
     bindR (requireR (list_all bindable values) SqlStatementError) (\<lambda>_. update_execution_where execution_id P (\<lambda>_. values) d)"

definition update_execution :: "string \<Rightarrow> execution_value list \<Rightarrow> db \<Rightarrow> err + execution_row option \<times> db" where
  "update_execution execution_id values d =
     (case get_execution d execution_id of
        None \<Rightarrow> Inr (None, d)
      | Some _ \<Rightarrow> update_values execution_id (\<lambda>_. True) values d)"

definition compare_and_set_execution :: "string \<Rightarrow> int \<Rightarrow> execution_value list \<Rightarrow> db \<Rightarrow> err + execution_row option \<times> db" where
  "compare_and_set_execution execution_id expected_revision values d =
     update_values execution_id (\<lambda>e. exe_revision e = expected_revision) (values @ [V_revision (expected_revision + 1)]) d"

definition compare_and_set_waiting_execution ::
    "string \<Rightarrow> int \<Rightarrow> string \<Rightarrow> string \<Rightarrow> execution_value list \<Rightarrow> db \<Rightarrow> err + execution_row option \<times> db" where
  "compare_and_set_waiting_execution execution_id expected_revision expected_checkpoint_id expected_wait_reason values d =
     update_values execution_id
       (\<lambda>e. exe_revision e = expected_revision \<and> exe_state e = ''WAITING'' \<and>
            exe_current_checkpoint_id e = Some expected_checkpoint_id \<and> exe_wait_reason e = Some expected_wait_reason)
       (values @ [V_revision (expected_revision + 1)]) d"

subsection \<open>Activation of a forked, retried or aggregating execution\<close>

text \<open>The lineage columns an activation and the cancellation that races with it compare.\<close>

datatype lineage =
    Fork (lin_base_execution: string) (lin_base_checkpoint: string)
  | Aggregate string "string option"
  | Retry string

fun of_lineage :: "lineage \<Rightarrow> execution_row \<Rightarrow> bool" where
  "of_lineage (Fork base_execution base_checkpoint) e \<longleftrightarrow>
     exe_base_execution_id e = Some base_execution \<and> exe_base_checkpoint_id e = Some base_checkpoint \<and>
     exe_retry_of_execution_id e = None"
| "of_lineage (Aggregate base_execution base_checkpoint) e \<longleftrightarrow>
     exe_base_execution_id e = Some base_execution \<and> exe_base_checkpoint_id e = base_checkpoint \<and>
     exe_retry_of_execution_id e = None"
| "of_lineage (Retry source) e \<longleftrightarrow> exe_retry_of_execution_id e = Some source"

definition preactivated :: "string \<Rightarrow> string \<Rightarrow> lineage \<Rightarrow> execution_row \<Rightarrow> bool" where
  "preactivated task_id branch_id lin e \<longleftrightarrow>
     exe_revision e = 1 \<and> exe_state e = ''RUNNING'' \<and> exe_current_checkpoint_id e = None \<and>
     exe_task_id e = Some task_id \<and> exe_branch_id e = Some branch_id \<and> of_lineage lin e \<and>
     exe_bound_client_id e = None \<and> exe_bound_connection_id e = None"

definition activate_row :: "string \<Rightarrow> string \<Rightarrow> string \<Rightarrow> lineage \<Rightarrow> pydatetime \<Rightarrow> db \<Rightarrow> err + execution_row option \<times> db" where
  "activate_row execution_id task_id branch_id lin started_at d =
     update_execution_where execution_id (preactivated task_id branch_id lin)
       (\<lambda>_. [V_revision 2, V_state ''RUNNING'', V_started_at (Some started_at)]) d"

definition compare_and_set_fork_activation ::
    "string \<Rightarrow> string \<Rightarrow> string \<Rightarrow> string \<Rightarrow> string \<Rightarrow> pydatetime \<Rightarrow> db \<Rightarrow> err + execution_row option \<times> db" where
  "compare_and_set_fork_activation execution_id task_id branch_id base_execution_id base_checkpoint_id started_at d =
     activate_row execution_id task_id branch_id (Fork base_execution_id base_checkpoint_id) started_at d"

definition compare_and_set_aggregate_activation ::
    "string \<Rightarrow> string \<Rightarrow> string \<Rightarrow> string \<Rightarrow> string option \<Rightarrow> pydatetime \<Rightarrow> db \<Rightarrow> err + execution_row option \<times> db" where
  "compare_and_set_aggregate_activation execution_id task_id branch_id base_execution_id base_checkpoint_id started_at d =
     activate_row execution_id task_id branch_id (Aggregate base_execution_id base_checkpoint_id) started_at d"

definition compare_and_set_retry_activation ::
    "string \<Rightarrow> string \<Rightarrow> string \<Rightarrow> string \<Rightarrow> pydatetime \<Rightarrow> db \<Rightarrow> err + execution_row option \<times> db" where
  "compare_and_set_retry_activation execution_id task_id branch_id source_execution_id started_at d =
     activate_row execution_id task_id branch_id (Retry source_execution_id) started_at d"

definition cancel_row :: "string \<Rightarrow> string \<Rightarrow> string \<Rightarrow> lineage \<Rightarrow> pydatetime \<Rightarrow> string \<Rightarrow> db \<Rightarrow> err + execution_row option \<times> db" where
  "cancel_row execution_id task_id branch_id lin completed_at reason d =
     update_execution_where execution_id (preactivated task_id branch_id lin)
       (\<lambda>_. [V_revision 2, V_state ''CANCELLED'', V_wait_reason None, V_wait_expires_at None, V_error (Some reason),
             V_completed_at (Some completed_at)]) d"

definition compare_and_set_retry_preactivation_cancel ::
    "string \<Rightarrow> string \<Rightarrow> string \<Rightarrow> string \<Rightarrow> pydatetime \<Rightarrow> string \<Rightarrow> db \<Rightarrow> err + execution_row option \<times> db" where
  "compare_and_set_retry_preactivation_cancel execution_id task_id branch_id source_execution_id completed_at reason d =
     cancel_row execution_id task_id branch_id (Retry source_execution_id) completed_at reason d"

definition compare_and_set_fork_preactivation_cancel ::
    "string \<Rightarrow> string \<Rightarrow> string \<Rightarrow> string \<Rightarrow> string \<Rightarrow> pydatetime \<Rightarrow> string \<Rightarrow> db \<Rightarrow> err + execution_row option \<times> db" where
  "compare_and_set_fork_preactivation_cancel execution_id task_id branch_id base_execution_id base_checkpoint_id completed_at reason d =
     cancel_row execution_id task_id branch_id (Fork base_execution_id base_checkpoint_id) completed_at reason d"

section \<open>The durable store\<close>

text \<open>A transaction whose row is missing raises; what an exception leaves is the state before.\<close>

definition require_row :: "err \<Rightarrow> err + execution_row option \<times> db \<Rightarrow> err + execution_row \<times> db" where
  "require_row missing m = bindR m (\<lambda>(r, d). bindR (ofOption missing r) (\<lambda>e. Inr (e, d)))"

definition store_acquire_execution_lease :: "string \<Rightarrow> string \<Rightarrow> pydatetime \<Rightarrow> pydatetime \<Rightarrow> db \<Rightarrow> err + execution_row \<times> db" where
  "store_acquire_execution_lease execution_id owner now lease_expires_at d =
     require_row LeaseAuthorityConflictError (acquire_execution_lease execution_id owner now lease_expires_at d)"

definition store_renew_execution_lease :: "string \<Rightarrow> string \<Rightarrow> int \<Rightarrow> pydatetime \<Rightarrow> pydatetime \<Rightarrow> db \<Rightarrow> err + execution_row \<times> db" where
  "store_renew_execution_lease execution_id owner generation now new_lease_expires_at d =
     require_row LeaseAuthorityConflictError (renew_execution_lease execution_id owner generation now new_lease_expires_at d)"

definition store_release_execution_lease :: "string \<Rightarrow> string \<Rightarrow> int \<Rightarrow> db \<Rightarrow> err + execution_row \<times> db" where
  "store_release_execution_lease execution_id owner generation d =
     require_row LeaseAuthorityConflictError (release_execution_lease execution_id owner generation d)"

definition dt_eq :: "pydatetime \<Rightarrow> pydatetime \<Rightarrow> bool" where
  "dt_eq a b = (case (utcoffset a, utcoffset b) of
      (Some x, Some y) \<Rightarrow> wall a - x = wall b - y
    | (None, None) \<Rightarrow> wall a = wall b
    | _ \<Rightarrow> False)"

text \<open>\<open>recovery_fence\<close> is the mapping of \<open>Task_Budget\<close>; the store also accepts a naive expiry, as UTC.\<close>

definition require_recovery_projection_fence_now :: "pydatetime \<Rightarrow> recovery_fence \<Rightarrow> execution_row option \<Rightarrow> err + unit" where
  "require_recovery_projection_fence_now now fence execution =
     (let owner = py_strip (or_empty (rf_owner_instance_id fence)) in
      bindR (ofOption ExecutionConflictError (rf_lease_generation fence)) (\<lambda>generation.
      bindR (ofOption ExecutionConflictError (rf_lease_expires_at fence)) (\<lambda>expected_expiry.
      bindR (requireR (owner \<noteq> [] \<and> 0 < generation) ExecutionConflictError) (\<lambda>_.
      requireR
        (case execution of
           None \<Rightarrow> False
         | Some e \<Rightarrow>
             exe_state e = ''RUNNING'' \<and> or_empty (exe_owner_instance_id e) = owner \<and> exe_lease_generation e = generation \<and>
             expiry_is (\<lambda>x. x = wall (record_utc expected_expiry) \<and> wall (record_utc now) < x) e) ExecutionConflictError))))"

definition lock_recovery_projection_fence :: "pydatetime \<Rightarrow> string \<Rightarrow> recovery_fence \<Rightarrow> db \<Rightarrow> err + execution_row option" where
  "lock_recovery_projection_fence now execution_id fence d =
     (let execution = get_execution d execution_id in
      bindR (require_recovery_projection_fence_now now fence execution) (\<lambda>_. Inr execution))"

definition store_compare_and_set_execution ::
    "(nat \<Rightarrow> pydatetime) \<Rightarrow> string \<Rightarrow> int \<Rightarrow> execution_value list \<Rightarrow> recovery_fence option \<Rightarrow> db \<Rightarrow> err + execution_row \<times> db" where
  "store_compare_and_set_execution clock execution_id expected_revision values fence d =
     bindR (case fence of
              None \<Rightarrow> Inr ()
            | Some f \<Rightarrow>
                bindR (lock_recovery_projection_fence (clock 0) execution_id f d) (\<lambda>execution.
                bindR (requireR (map_option exe_revision execution = Some expected_revision) ExecutionConflictError) (\<lambda>_.
                require_recovery_projection_fence_now (clock 1) f execution))) (\<lambda>_.
     require_row ExecutionConflictError (compare_and_set_execution execution_id expected_revision values d))"

fun context_value :: "execution_value \<Rightarrow> (string \<times> json) list option" where
  "context_value (V_context_state c) = c"
| "context_value _ = None"

definition dict_update :: "(string \<times> 'v) list \<Rightarrow> (string \<times> 'v) list \<Rightarrow> (string \<times> 'v) list" where
  "dict_update a b = fold (\<lambda>(k, v). dict_set k v) b a"

definition merge_context :: "(string \<times> json) list option \<Rightarrow> execution_value \<Rightarrow> execution_value" where
  "merge_context current v =
     (case context_value v of
        None \<Rightarrow> v
      | Some incoming \<Rightarrow> V_context_state (Some (dict_update (case current of None \<Rightarrow> [] | Some c \<Rightarrow> c) incoming)))"

definition update_checkpoint ::
    "(nat \<Rightarrow> pydatetime) \<Rightarrow> string \<Rightarrow> execution_value list \<Rightarrow> recovery_fence option \<Rightarrow> db \<Rightarrow> err + execution_row option \<times> db" where
  "update_checkpoint clock execution_id values fence d =
     bindR (case fence of
              None \<Rightarrow> Inr (get_execution d execution_id)
            | Some f \<Rightarrow> lock_recovery_projection_fence (clock 0) execution_id f d) (\<lambda>execution.
     bindR (ofOption KeyError execution) (\<lambda>e.
     bindR (requireR (\<not> list_ex (\<lambda>v. case context_value v of None \<Rightarrow> False
                                  | Some incoming \<Rightarrow> ''continuation'' \<in> fst ` set incoming) values) ExecutionConflictError) (\<lambda>_.
     bindR (case fence of None \<Rightarrow> Inr () | Some f \<Rightarrow> require_recovery_projection_fence_now (clock 1) f execution) (\<lambda>_.
     update_execution execution_id (map (merge_context (exe_context_state e)) values) d))))"

definition store_save_execution :: "execution_row \<Rightarrow> db \<Rightarrow> err + execution_row \<times> db" where
  "store_save_execution e d =
     bindR (requireR (case exe_context_state e of None \<Rightarrow> True | Some c \<Rightarrow> ''continuation'' \<notin> fst ` set c)
              ExecutionConflictError) (\<lambda>_. insert_execution e d)"

section \<open>The schema\<close>

text \<open>The validators of the model \<open>AgentExecution\<close> on the lease.\<close>

definition validate_lease_representation :: "string option \<Rightarrow> pydatetime option \<Rightarrow> int \<Rightarrow> err + pydatetime option" where
  "validate_lease_representation owner lease_expires_at generation =
     bindR (requireR (0 \<le> generation) ValidationError) (\<lambda>_.
     bindR (requireR (case lease_expires_at of None \<Rightarrow> True | Some t \<Rightarrow> utcoffset t \<noteq> None) ValidationError) (\<lambda>_.
     bindR (requireR ((owner \<noteq> None) = (lease_expires_at \<noteq> None)) ValidationError) (\<lambda>_.
     bindR (requireR (owner = None \<or> 0 < generation) ValidationError) (\<lambda>_.
     Inr (map_option record_utc lease_expires_at)))))"

section \<open>Ending an execution whose owner is gone\<close>

text \<open>\<open>datetime.isoformat\<close>, with the proleptic Gregorian calendar.\<close>

definition pad :: "nat \<Rightarrow> int \<Rightarrow> string" where
  "pad w n = (let t = int_text n in replicate (w - length t) CHR ''0'' @ t)"

definition civil_from_days :: "int \<Rightarrow> int \<times> int \<times> int" where
  "civil_from_days days =
     (let z = days + 719468; era = z div 146097; doe = z mod 146097;
          yoe = (doe - doe div 1460 + doe div 36524 - doe div 146096) div 365;
          doy = doe - (365 * yoe + yoe div 4 - yoe div 100);
          mp = (5 * doy + 2) div 153;
          m = (if mp < 10 then mp + 3 else mp - 9)
      in (yoe + era * 400 + (if m \<le> 2 then 1 else 0), m, doy - (153 * mp + 2) div 5 + 1))"

definition clock_text :: "int \<Rightarrow> string" where
  "clock_text us =
     (let secs = us div 1000000 in
      pad 2 (secs div 3600) @ '':'' @ pad 2 (secs div 60 mod 60) @ '':'' @ pad 2 (secs mod 60) @
      (if us mod 1000000 = 0 then [] else ''.'' @ pad 6 (us mod 1000000)))"

definition offset_text :: "int \<Rightarrow> string" where
  "offset_text off =
     (let us = \<bar>off\<bar>; secs = us div 1000000 in
      (if off < 0 then ''-'' else ''+'') @
      (if us mod 60000000 = 0 then pad 2 (secs div 3600) @ '':'' @ pad 2 (secs div 60 mod 60) else clock_text us))"

definition isoformat :: "pydatetime \<Rightarrow> string" where
  "isoformat t =
     (let (y, m, d) = civil_from_days (wall t div 86400000000) in
      pad 4 y @ ''-'' @ pad 2 m @ ''-'' @ pad 2 d @ ''T'' @ clock_text (wall t mod 86400000000) @
      (case utcoffset t of None \<Rightarrow> [] | Some off \<Rightarrow> offset_text off))"

definition H1A_TERMINAL_RECEIPT_CONTEXT_KEY :: string where
  "H1A_TERMINAL_RECEIPT_CONTEXT_KEY = ''r12_h1a_terminal_receipt_v1''"

definition terminal_receipt :: "string \<Rightarrow> int \<Rightarrow> lease_observation \<Rightarrow> pydatetime \<Rightarrow> string \<Rightarrow> (string \<times> json) list" where
  "terminal_receipt execution_id source_revision ob takeover_now reason_code =
     [(''execution_id'', JStr execution_id),
      (''source_revision'', JInt source_revision),
      (''target_revision'', JInt (source_revision + 1)),
      (''target_state'', JStr ''FAILED''),
      (''reason_code'', JStr reason_code),
      (''observed_owner_instance_id'', JStr (lo_owner_instance_id ob)),
      (''observed_lease_generation'', JInt (lo_lease_generation ob)),
      (''observed_lease_expires_at'', JStr (isoformat (lo_lease_expires_at ob))),
      (''takeover_now_utc'', JStr (isoformat takeover_now))]"

definition json_is_dict :: "json option \<Rightarrow> (string \<times> json) list \<Rightarrow> bool" where
  "json_is_dict v kvs = (case v of Some (JObj kvs') \<Rightarrow> dict_eq kvs' kvs | _ \<Rightarrow> False)"

definition terminal_replay :: "int \<Rightarrow> lease_observation \<Rightarrow> string \<Rightarrow> (string \<times> json) list \<Rightarrow> execution_row \<Rightarrow> bool" where
  "terminal_replay source_revision ob reason_code receipt e \<longleftrightarrow>
     exe_state e = ''FAILED'' \<and> exe_revision e = source_revision + 1 \<and>
     or_empty (exe_error e) = unrecoverable_error reason_code \<and>
     exe_owner_instance_id e = None \<and> exe_lease_expires_at e = None \<and>
     exe_lease_generation e = lo_lease_generation ob + 1 \<and>
     json_is_dict (dict_get (case exe_context_state e of None \<Rightarrow> [] | Some c \<Rightarrow> c) H1A_TERMINAL_RECEIPT_CONTEXT_KEY) receipt"

text \<open>The comparison of the stored expiry with the instant of the takeover raises for a naive instant.\<close>

definition matches_expired :: "int \<Rightarrow> lease_observation \<Rightarrow> pydatetime \<Rightarrow> execution_row \<Rightarrow> err + bool" where
  "matches_expired source_revision ob takeover_now e =
     (case map_option record_utc (exe_lease_expires_at e) of
        None \<Rightarrow> Inr False
      | Some durable_expiry \<Rightarrow>
          if held_by (lo_owner_instance_id ob) (lo_lease_generation ob) e \<and> exe_revision e = source_revision \<and>
             dt_eq durable_expiry (lo_lease_expires_at ob)
          then bindR (dt_less takeover_now durable_expiry) (\<lambda>later. Inr (\<not> later))
          else Inr False)"

definition fail_expired_execution_unrecoverable ::
    "string \<Rightarrow> int \<Rightarrow> lease_observation \<Rightarrow> pydatetime \<Rightarrow> string \<Rightarrow> db \<Rightarrow> err + execution_row \<times> db" where
  "fail_expired_execution_unrecoverable execution_id source_revision ob takeover_now reason_code d =
     bindR (requireR (0 \<le> source_revision) ValueError) (\<lambda>_.
     bindR (requireR (reason_token reason_code) ValueError) (\<lambda>_.
     bindR (ofOption LeaseAuthorityConflictError (get_execution d execution_id)) (\<lambda>e.
     bindR (requireR (exe_task_id e = None) ExecutionConflictError) (\<lambda>_.
       (let receipt = terminal_receipt execution_id source_revision ob takeover_now reason_code;
            context = (case exe_context_state e of None \<Rightarrow> [] | Some c \<Rightarrow> c);
            existing = dict_get context H1A_TERMINAL_RECEIPT_CONTEXT_KEY in
        if terminal_replay source_revision ob reason_code receipt e then Inr (e, d)
        else
          bindR (matches_expired source_revision ob takeover_now e) (\<lambda>expired.
          bindR (requireR expired LeaseAuthorityConflictError) (\<lambda>_.
          bindR (requireR (existing \<in> {None, Some JNull} \<or> json_is_dict existing receipt) ExecutionConflictError) (\<lambda>_.
          require_row LeaseAuthorityConflictError
            (compare_and_set_expired_execution_terminal execution_id source_revision ob takeover_now reason_code
              (Some (dict_set H1A_TERMINAL_RECEIPT_CONTEXT_KEY (JObj receipt) context)) d)))))))))"

end
