(* ===== verification/Execution_Lease.thy ===== *)
theory Execution_Lease
  imports Execution_Store
begin

text \<open>
  What the leases of executions promise. Every write of \<open>agent_executions\<close> is a step of one system; the
  generic writes are taken with values that leave the lease columns alone, as all their callers do.
  Rows are not deleted by these methods. The generation of a row never decreases and every change of
  owner increases it, so a lease that was lost is never honoured again, and an unexpired lease ends
  only by its owner's release.
\<close>

section \<open>One update\<close>

lemma set_value_frame [simp]:
  "exe_id (set_value v e) = exe_id e" "exe_task_id (set_value v e) = exe_task_id e"
  "exe_branch_id (set_value v e) = exe_branch_id e"
  by (cases v; simp)+

lemma set_values_simps [simp]:
  "set_values [] e = e" "set_values (v # vs) e = set_values vs (set_value v e)"
  "set_values (vs @ vs') e = set_values vs' (set_values vs e)"
  by (simp_all add: set_values_def)

lemma set_values_frame [simp]:
  "exe_id (set_values vs e) = exe_id e" "exe_task_id (set_values vs e) = exe_task_id e"
  "exe_branch_id (set_values vs e) = exe_branch_id e"
  by (induction vs arbitrary: e) auto

definition lease_free :: "execution_value list \<Rightarrow> bool" where
  "lease_free vs \<longleftrightarrow> list_all (\<lambda>v. value_key v \<notin> {''owner_instance_id'', ''lease_expires_at'', ''lease_generation''}) vs"

lemma lease_free_simps [simp]:
  "lease_free []" "lease_free (v # vs) \<longleftrightarrow> value_key v \<notin> {''owner_instance_id'', ''lease_expires_at'', ''lease_generation''} \<and> lease_free vs"
  "lease_free (vs @ vs') \<longleftrightarrow> lease_free vs \<and> lease_free vs'"
  by (simp_all add: lease_free_def)

lemma set_values_lease_free:
  "lease_free vs \<Longrightarrow> exe_owner_instance_id (set_values vs e) = exe_owner_instance_id e \<and>
     exe_lease_expires_at (set_values vs e) = exe_lease_expires_at e \<and>
     exe_lease_generation (set_values vs e) = exe_lease_generation e"
proof (induction vs arbitrary: e)
  case (Cons v vs)
  then show ?case by (cases v) auto
qed simp

definition execution_keys :: "db \<Rightarrow> bool" where
  "execution_keys d \<longleftrightarrow> distinct (map exe_id (executions d))"

lemma get_execution_replace:
  assumes "execution_keys d" "get_execution d i = Some e" "exe_id e' = exe_id e"
  shows "get_execution (d\<lparr>executions := replace_row exe_id e' (executions d)\<rparr>) k = (if k = i then Some e' else get_execution d k)"
proof -
  have e: "e \<in> set (executions d)" "exe_id e = i"
    using assms(2) by (auto simp: get_execution_def dest: find_SomeD)
  have "List.find (\<lambda>x. exe_id x = k) (replace_row exe_id e' (executions d)) =
      map_option (\<lambda>r. if exe_id r = exe_id e' then e' else r) (List.find (\<lambda>x. exe_id x = k) (executions d))"
    unfolding replace_row_def by (rule find_upd_where) simp
  with e assms show ?thesis by (cases "List.find (\<lambda>x. exe_id x = k) (executions d)") (auto simp: get_execution_def dest: find_SomeD)
qed

lemma length_filter_key: "distinct (map k rows) \<Longrightarrow> r \<in> set rows \<Longrightarrow> length (filter (\<lambda>x. k x = k r) rows) = 1"
  by (induction rows) (auto simp: filter_empty_conv rev_image_eqI)

lemma update_execution_whereE:
  assumes "execution_keys d" "update_execution_where i P vs d = Inr (r, d')"
  obtains (missed) "r = None" "d' = d" "\<And>e. get_execution d i = Some e \<Longrightarrow> \<not> P e"
  | (hit) e where "get_execution d i = Some e" "P e" "r = Some (set_values (vs e) e)"
      "d' = d\<lparr>executions := replace_row exe_id (set_values (vs e) e) (executions d)\<rparr>"
      "execution_row_ok (set_values (vs e) e)"
proof (cases "\<exists>e. get_execution d i = Some e \<and> P e")
  case True
  then obtain e where e: "get_execution d i = Some e" "P e" by blast
  then have m: "e \<in> set (executions d)" "exe_id e = i" by (auto simp: get_execution_def dest: find_SomeD)
  let ?hit = "\<lambda>e. exe_id e = i \<and> P e"
  have "filter ?hit (executions d) = filter (\<lambda>x. exe_id x = exe_id e) (executions d)"
    using assms(1) m e(2) by (intro filter_cong) (auto simp: execution_keys_def dest: distinct_key_eq)
  also have "length \<dots> = 1"
    using assms(1) m(1) by (simp add: execution_keys_def length_filter_key del: One_nat_def)
  finally have n: "length (filter ?hit (executions d)) = 1" .
  have u: "upd_where ?hit (\<lambda>e. set_values (vs e) e) (executions d) = replace_row exe_id (set_values (vs e) e) (executions d)"
    using upd_where_replace_row [of exe_id "executions d" e P "\<lambda>e. set_values (vs e) e"] assms(1) m e(2)
    by (simp add: execution_keys_def)
  show thesis
  proof (rule hit [OF e])
    show "d' = d\<lparr>executions := replace_row exe_id (set_values (vs e) e) (executions d)\<rparr>"
      using assms(2) u by (auto simp: update_execution_where_def Let_def)
    show "r = Some (set_values (vs e) e)"
      using assms(2) u n get_execution_replace [OF assms(1) e(1), of "set_values (vs e) e" i]
      by (auto simp: update_execution_where_def Let_def)
    show "execution_row_ok (set_values (vs e) e)"
      using assms(2) m e(2) by (auto simp: update_execution_where_def Let_def requireR_def split: if_splits)
  qed
next
  case False
  then have no: "\<not> (exe_id e = i \<and> P e)" if "e \<in> set (executions d)" for e
    using assms(1) that find_key [of exe_id "executions d" e] by (auto simp: execution_keys_def get_execution_def)
  have "upd_where (\<lambda>e. exe_id e = i \<and> P e) (\<lambda>e. set_values (vs e) e) (executions d) = executions d"
    by (rule upd_where_none) (use no in blast)
  moreover have "filter (\<lambda>e. exe_id e = i \<and> P e) (executions d) = []" using no by (auto simp: filter_empty_conv)
  ultimately show thesis using assms(2) False by (intro missed) (auto simp: update_execution_where_def Let_def)
qed

section \<open>The system of all writes\<close>

definition executions_ok :: "db \<Rightarrow> bool" where
  "executions_ok d \<longleftrightarrow> execution_keys d \<and>
     (\<forall>e \<in> set (executions d). execution_row_ok e \<and>
        (\<forall>x. exe_lease_expires_at e = Some x \<longrightarrow> utcoffset x = Some 0))"

datatype execution_event =
    Acquired string string
  | Renewed string
  | Released string string int
  | TakenOver string lease_observation pydatetime
  | Written string
  | Created string
  | Elsewhere

inductive execution_step :: "execution_event \<Rightarrow> db \<Rightarrow> db \<Rightarrow> bool" where
  step_acquire: "acquire_execution_lease i owner now expiry d = Inr (Some e, d') \<Longrightarrow> execution_step (Acquired i owner) d d'"
| step_renew: "renew_execution_lease i owner g now expiry d = Inr (Some e, d') \<Longrightarrow> execution_step (Renewed i) d d'"
| step_release: "release_execution_lease i owner g d = Inr (Some e, d') \<Longrightarrow> execution_step (Released i owner g) d d'"
| step_recovery: "compare_and_set_recovery_waiting_execution i v ob now vs d = Inr (Some e, d') \<Longrightarrow>
    execution_step (TakenOver i ob now) d d'"
| step_terminal: "compare_and_set_expired_execution_terminal i v ob now reason ctx d = Inr (Some e, d') \<Longrightarrow>
    execution_step (TakenOver i ob now) d d'"
| step_update: "update_execution i vs d = Inr (Some e, d') \<Longrightarrow> lease_free vs \<Longrightarrow> execution_step (Written i) d d'"
| step_cas: "compare_and_set_execution i v vs d = Inr (Some e, d') \<Longrightarrow> lease_free vs \<Longrightarrow> execution_step (Written i) d d'"
| step_waiting: "compare_and_set_waiting_execution i v checkpoint reason vs d = Inr (Some e, d') \<Longrightarrow> lease_free vs \<Longrightarrow>
    execution_step (Written i) d d'"
| step_activate: "activate_row i task branch lin t d = Inr (Some e, d') \<Longrightarrow> execution_step (Written i) d d'"
| step_cancel: "cancel_row i task branch lin t reason d = Inr (Some e, d') \<Longrightarrow> execution_step (Written i) d d'"
| step_insert: "insert_execution e d = Inr (e', d') \<Longrightarrow> execution_step (Created (exe_id e)) d d'"
| step_elsewhere: "executions d' = executions d \<Longrightarrow> execution_step Elsewhere d d'"

text \<open>Every step changes one row as its event says, and every other row stays.\<close>

definition row_change :: "execution_event \<Rightarrow> execution_row \<Rightarrow> execution_row \<Rightarrow> bool" where
  "row_change ev e e' \<longleftrightarrow>
     exe_id e' = exe_id e \<and> exe_task_id e' = exe_task_id e \<and> execution_row_ok e' \<and>
     (case ev of
        Acquired i owner \<Rightarrow> i = exe_id e \<and> exe_owner_instance_id e = None \<and> exe_owner_instance_id e' = Some owner \<and>
          exe_lease_generation e' = exe_lease_generation e + 1 \<and> (\<exists>x. exe_lease_expires_at e' = Some x \<and> utcoffset x = Some 0)
      | Renewed i \<Rightarrow> i = exe_id e \<and> exe_owner_instance_id e' = exe_owner_instance_id e \<and>
          exe_lease_generation e' = exe_lease_generation e \<and>
          (\<exists>x y. exe_lease_expires_at e = Some x \<and> exe_lease_expires_at e' = Some y \<and> utcoffset y = Some 0 \<and> wall (record_utc x) < wall y)
      | Released i owner g \<Rightarrow> i = exe_id e \<and> exe_owner_instance_id e = Some owner \<and> exe_lease_generation e = g \<and>
          exe_owner_instance_id e' = None \<and> exe_lease_expires_at e' = None \<and> exe_lease_generation e' = g
      | TakenOver i ob now \<Rightarrow> i = exe_id e \<and> held_by (lo_owner_instance_id ob) (lo_lease_generation ob) e \<and>
          expiry_is (\<lambda>x. x = wall (lo_lease_expires_at ob) \<and> x \<le> wall now) e \<and> utcoffset now = Some 0 \<and>
          exe_owner_instance_id e' = None \<and> exe_lease_expires_at e' = None \<and> exe_lease_generation e' = lo_lease_generation ob + 1
      | Written i \<Rightarrow> i = exe_id e \<and> exe_owner_instance_id e' = exe_owner_instance_id e \<and>
          exe_lease_expires_at e' = exe_lease_expires_at e \<and> exe_lease_generation e' = exe_lease_generation e
      | _ \<Rightarrow> False)"

lemma updated_row:
  assumes "execution_keys d" "update_execution_where i P vs d = Inr (Some r, d')"
    and "\<And>e. P e \<Longrightarrow> exe_id e = i \<Longrightarrow> execution_row_ok (set_values (vs e) e) \<Longrightarrow> row_change ev e (set_values (vs e) e)"
  shows "\<exists>e e'. get_execution d i = Some e \<and> row_change ev e e' \<and>
    d' = d\<lparr>executions := replace_row exe_id e' (executions d)\<rparr>"
  using assms(1,2)
proof (cases rule: update_execution_whereE)
  case (hit e)
  then have "exe_id e = i" by (auto simp: get_execution_def dest: find_SomeD)
  with hit assms(3) show ?thesis by blast
qed simp

lemmas lease_ops_def = acquire_execution_lease_def renew_execution_lease_def release_execution_lease_def
  compare_and_set_recovery_waiting_execution_def compare_and_set_expired_execution_terminal_def
  require_lease_utc_datetime_def require_lease_owner_def require_lease_generation_def require_observation_def

lemmas write_ops_def = update_execution_def compare_and_set_execution_def compare_and_set_waiting_execution_def
  activate_row_def cancel_row_def update_values_def

lemma written_row:
  "lease_free vs \<Longrightarrow> execution_row_ok (set_values vs e) \<Longrightarrow> exe_id e = i \<Longrightarrow> row_change (Written i) e (set_values vs e)"
  using set_values_lease_free [of vs e] by (simp add: row_change_def)

lemma taken_over_row:
  assumes "observed_expired ob now v e" "utcoffset now = Some 0" "exe_id e = i" "execution_row_ok (set_values (vs @ ws) e)"
    and "ws = V_revision (v + 1) # V_state st # V_wait_reason w # us @ [V_owner_instance_id None, V_lease_expires_at None,
      V_lease_generation (lo_lease_generation ob + 1)] @ xs" "lease_free us" "lease_free xs"
  shows "row_change (TakenOver i ob now) e (set_values (vs @ ws) e)"
  using assms by (auto simp: row_change_def observed_expired_def set_values_lease_free)

lemma record_utc_aware [simp]: "utcoffset x = Some 0 \<Longrightarrow> record_utc x = x"
  by (cases x) (simp add: record_utc_def)

lemma renewed_row:
  assumes "utcoffset expiry = Some 0" "held_by owner g e \<and> expiry_is (\<lambda>x. wall now < x \<and> x < wall expiry) e"
    and "exe_id e = i" "execution_row_ok (set_values [V_lease_expires_at (Some expiry)] e)"
  shows "row_change (Renewed i) e (set_values [V_lease_expires_at (Some expiry)] e)"
  using assms by (auto simp: row_change_def expiry_is_def split: option.splits)

lemma step_row:
  assumes "execution_keys d" "execution_step ev d d'"
  shows "(\<exists>i e e'. get_execution d i = Some e \<and> row_change ev e e' \<and> d' = d\<lparr>executions := replace_row exe_id e' (executions d)\<rparr>) \<or>
    (\<exists>e e'. ev = Created (exe_id e) \<and> insert_execution e d = Inr (e', d')) \<or> executions d' = executions d"
  using assms(2)
proof cases
  case (step_acquire i owner now expiry e)
  then have "update_execution_where i
         (\<lambda>e. exe_state e = ''RUNNING'' \<and> exe_owner_instance_id e = None \<and> exe_lease_expires_at e = None)
         (\<lambda>e. [V_owner_instance_id (Some owner), V_lease_expires_at (Some expiry),
               V_lease_generation (exe_lease_generation e + 1)]) d = Inr (Some e, d')" "utcoffset expiry = Some 0"
    by (auto simp: lease_ops_def requireR_def split: if_splits)
  from updated_row [OF assms(1) this(1), of ev] this(2) step_acquire(1) show ?thesis
    by (auto simp: row_change_def record_utc_def)
next
  case (step_renew i owner g now expiry e)
  then have u: "update_execution_where i
         (\<lambda>e. held_by owner g e \<and> expiry_is (\<lambda>x. wall now < x \<and> x < wall expiry) e)
         (\<lambda>_. [V_lease_expires_at (Some expiry)]) d = Inr (Some e, d')" and x: "utcoffset expiry = Some 0"
    by (auto simp: lease_ops_def requireR_def split: if_splits)
  show ?thesis
    using updated_row [OF assms(1) u, where ev = ev] step_renew(1) renewed_row [OF x, where owner = owner and g = g and now = now and i = i]
    by blast
next
  case (step_release i owner g e)
  then have "update_execution_where i (\<lambda>e. held_by owner g e \<and> exe_lease_expires_at e \<noteq> None)
         (\<lambda>_. [V_owner_instance_id None, V_lease_expires_at None]) d = Inr (Some e, d')"
    by (auto simp: lease_ops_def requireR_def split: if_splits)
  from updated_row [OF assms(1) this(1), of ev] step_release(1) show ?thesis
    by (auto simp: row_change_def held_by_def)
next
  case (step_recovery i v ob now vs e)
  let ?vs = "filter (\<lambda>v. value_key v \<notin> {''state'', ''wait_reason''}) vs"
  let ?ws = "[V_revision (v + 1), V_state ''WAITING'', V_wait_reason (Some ''RECOVERY''),
            V_owner_instance_id None, V_lease_expires_at None, V_lease_generation (lo_lease_generation ob + 1)]"
  from step_recovery have u: "update_execution_where i (observed_expired ob now v) (\<lambda>_. ?vs @ ?ws) d = Inr (Some e, d')"
    and t: "utcoffset now = Some 0"
    by (auto simp: lease_ops_def requireR_def split: if_splits)
  show ?thesis
    using updated_row [OF assms(1) u, where ev = ev] step_recovery(1)
      taken_over_row [OF _ t, where v = v and vs = ?vs and ws = ?ws and us = "[]" and xs = "[]" and ob = ob and i = i] by simp blast
next
  case (step_terminal i v ob now reason ctx e)
  let ?xs = "[V_completed_at (Some now), V_error (Some (unrecoverable_error reason))] @
              (case ctx of None \<Rightarrow> [] | Some c \<Rightarrow> [V_context_state (Some c)])"
  let ?ws = "[V_revision (v + 1), V_state ''FAILED'', V_wait_reason None, V_wait_expires_at None,
               V_owner_instance_id None, V_lease_expires_at None, V_lease_generation (lo_lease_generation ob + 1)] @ ?xs"
  from step_terminal have u: "update_execution_where i (observed_expired ob now v) (\<lambda>_. [] @ ?ws) d = Inr (Some e, d')"
    and t: "utcoffset now = Some 0"
    by (auto simp: lease_ops_def requireR_def split: if_splits)
  have l: "lease_free ?xs" by (simp split: option.split)
  have rc: "row_change ev e0 (set_values ([] @ ?ws) e0)"
    if "observed_expired ob now v e0" "exe_id e0 = i" "execution_row_ok (set_values ([] @ ?ws) e0)" for e0
    unfolding step_terminal(1) by (rule taken_over_row [OF that(1) t that(2,3) _ _ l, of _ _ "[V_wait_expires_at None]"]) simp_all
  show ?thesis using updated_row [OF assms(1) u, where ev = ev] rc by blast
next
  case (step_update i vs e)
  then have "update_execution_where i (\<lambda>_. True) (\<lambda>_. vs) d = Inr (Some e, d')"
    by (auto simp: write_ops_def requireR_def split: if_splits option.splits)
  from updated_row [OF assms(1) this, of ev] step_update show ?thesis by (auto intro: written_row)
next
  case (step_cas i v vs e)
  then have "update_execution_where i (\<lambda>e. exe_revision e = v) (\<lambda>_. vs @ [V_revision (v + 1)]) d = Inr (Some e, d')"
    by (auto simp: write_ops_def requireR_def split: if_splits)
  from updated_row [OF assms(1) this, of ev] step_cas show ?thesis using written_row [of "vs @ [V_revision (v + 1)]"] by auto
next
  case (step_waiting i v checkpoint reason vs e)
  then have "update_execution_where i (\<lambda>e. exe_revision e = v \<and> exe_state e = ''WAITING'' \<and>
            exe_current_checkpoint_id e = Some checkpoint \<and> exe_wait_reason e = Some reason) (\<lambda>_. vs @ [V_revision (v + 1)]) d = Inr (Some e, d')"
    by (auto simp: write_ops_def requireR_def split: if_splits)
  from updated_row [OF assms(1) this, of ev] step_waiting show ?thesis using written_row [of "vs @ [V_revision (v + 1)]"] by auto
next
  case (step_activate i task branch lin t e)
  from updated_row [OF assms(1) step_activate(2) [unfolded activate_row_def], of ev] step_activate(1) show ?thesis
    by (auto simp: row_change_def)
next
  case (step_cancel i task branch lin t reason e)
  from updated_row [OF assms(1) step_cancel(2) [unfolded cancel_row_def], of ev] step_cancel(1) show ?thesis
    by (auto simp: row_change_def)
qed auto

text \<open>The same, read as what happens to the row of one execution.\<close>

lemma step_get:
  assumes "execution_keys d" "execution_step ev d d'" "get_execution d i = Some e"
  obtains e' where "get_execution d' i = Some e'" "e' = e \<or> row_change ev e e'"
  using step_row [OF assms(1,2)]
proof (elim disjE exE conjE)
  fix j e0 e1 assume "get_execution d j = Some e0" "row_change ev e0 e1"
    "d' = d\<lparr>executions := replace_row exe_id e1 (executions d)\<rparr>"
  with assms(3) get_execution_replace [OF assms(1), of j e0 e1 i] show thesis
    by (cases "i = j") (auto simp: row_change_def intro: that)
next
  fix e0 e1 assume "insert_execution e0 d = Inr (e1, d')"
  then have "get_execution d' i = Some e"
    using assms(3) by (auto simp: insert_execution_def Let_def get_execution_def find_append)
  then show thesis by (rule that) simp
next
  assume "executions d' = executions d"
  with assms(3) show thesis by (intro that) (auto simp: get_execution_def)
qed

lemma row_changeD: "row_change ev e e' \<Longrightarrow> exe_id e' = exe_id e \<and> exe_task_id e' = exe_task_id e \<and> execution_row_ok e'"
  by (simp add: row_change_def)

lemma row_change_utc:
  assumes "row_change ev e e'" "\<forall>x. exe_lease_expires_at e = Some x \<longrightarrow> utcoffset x = Some 0"
  shows "\<forall>x. exe_lease_expires_at e' = Some x \<longrightarrow> utcoffset x = Some 0"
  using assms by (cases ev) (auto simp: row_change_def)

lemma insert_executionD:
  assumes "insert_execution e d = Inr (e', d')"
  shows "executions d' = executions d @ [e']" "exe_id e' \<notin> exe_id ` set (executions d)" "execution_row_ok e'"
    "\<forall>x. exe_lease_expires_at e' = Some x \<longrightarrow> utcoffset x = Some 0" "exe_id e' = exe_id e"
proof -
  have e': "e' = e\<lparr>exe_lease_expires_at := map_option record_utc (exe_lease_expires_at e)\<rparr>"
    and d': "d' = d\<lparr>executions := executions d @ [e']\<rparr>" and ok: "exe_id e \<notin> exe_id ` set (executions d)" "execution_row_ok e"
    using assms by (auto simp: insert_execution_def Let_def requireR_def split: if_splits)
  show "executions d' = executions d @ [e']" by (simp add: d')
  show "exe_id e' \<notin> exe_id ` set (executions d)" "exe_id e' = exe_id e" "execution_row_ok e'"
    using ok by (auto simp: e' execution_row_ok_def)
  show "\<forall>x. exe_lease_expires_at e' = Some x \<longrightarrow> utcoffset x = Some 0" by (auto simp: e' record_utc_def split: option.splits)
qed

lemma step_executions_ok:
  assumes "executions_ok d" "execution_step ev d d'"
  shows "executions_ok d'"
proof -
  have k: "execution_keys d" using assms(1) by (simp add: executions_ok_def)
  from step_row [OF k assms(2)] show ?thesis
  proof (elim disjE exE conjE)
    fix j e0 e1 assume g: "get_execution d j = Some e0" "row_change ev e0 e1"
      and d': "d' = d\<lparr>executions := replace_row exe_id e1 (executions d)\<rparr>"
    have "e0 \<in> set (executions d)" using g(1) by (auto simp: get_execution_def dest: find_SomeD)
    then have e1: "execution_row_ok e1" "\<forall>x. exe_lease_expires_at e1 = Some x \<longrightarrow> utcoffset x = Some 0"
      using assms(1) row_change_utc [OF g(2)] row_changeD [OF g(2)] unfolding executions_ok_def by blast+
    have "x = e1 \<or> x \<in> set (executions d)" if "x \<in> set (executions d')" for x
      using in_replace_row [of x exe_id e1 "executions d"] that by (auto simp: d')
    moreover have "execution_keys d'" using k by (simp add: execution_keys_def d')
    ultimately show ?thesis using assms(1) e1 unfolding executions_ok_def by blast
  next
    fix e0 e1 assume "insert_execution e0 d = Inr (e1, d')"
    note insert_executionD [OF this]
    moreover from this k have "execution_keys d'" by (simp add: execution_keys_def)
    ultimately show ?thesis using assms(1) unfolding executions_ok_def by fastforce
  next
    assume "executions d' = executions d"
    with assms(1) show ?thesis by (simp add: executions_ok_def execution_keys_def)
  qed
qed

definition any_execution_step :: "db \<Rightarrow> db \<Rightarrow> bool" where
  "any_execution_step d d' \<longleftrightarrow> (\<exists>ev. execution_step ev d d')"

interpretation execution_system: invariant_system "\<lambda>d. executions d = []" any_execution_step executions_ok
proof unfold_locales
  show "executions_ok d" if "executions d = []" for d using that by (simp add: executions_ok_def execution_keys_def)
  show "executions_ok d'" if "executions_ok d" "any_execution_step d d'" for d d'
    using that unfolding any_execution_step_def by (blast intro: step_executions_ok)
qed

section \<open>Fencing\<close>

definition lease_lost :: "int \<Rightarrow> execution_row \<Rightarrow> bool" where
  "lease_lost g e \<longleftrightarrow> g < exe_lease_generation e \<or> g = exe_lease_generation e \<and> exe_owner_instance_id e = None"

lemma row_change_lost: "row_change ev e e' \<Longrightarrow> lease_lost g e \<Longrightarrow> lease_lost g e'"
  by (cases ev) (auto simp: row_change_def lease_lost_def held_by_def)

lemma steps_lost:
  assumes "any_execution_step\<^sup>*\<^sup>* d d'" "executions_ok d" "get_execution d i = Some e" "lease_lost g e"
  shows "\<exists>e'. get_execution d' i = Some e' \<and> lease_lost g e'"
  using assms
proof (induction rule: rtranclp_induct)
  case (step d1 d2)
  then obtain e1 where e1: "get_execution d1 i = Some e1" "lease_lost g e1" by blast
  have k: "execution_keys d1"
    using execution_system.steps_inv [OF step.hyps(1)] step.prems(1) by (simp add: executions_ok_def)
  from step.hyps(2) obtain ev where ev: "execution_step ev d1 d2" by (auto simp: any_execution_step_def)
  obtain e2 where "get_execution d2 i = Some e2" "e2 = e1 \<or> row_change ev e1 e2" by (rule step_get [OF k ev e1(1)])
  with e1(2) row_change_lost show ?case by blast
qed auto

lemma ok_row:
  "executions_ok d \<Longrightarrow> get_execution d i = Some e \<Longrightarrow> execution_row_ok e"
  by (auto simp: executions_ok_def get_execution_def dest: find_SomeD)

lemma lost_not_held:
  assumes "execution_row_ok e" "lease_lost g e"
  shows "\<not> held_by owner g e" "exe_lease_generation e = g \<Longrightarrow> exe_lease_expires_at e = None"
  using assms by (auto simp: lease_lost_def held_by_def execution_row_ok_def)

section \<open>What a client can rely on\<close>

lemma store_cas_hit:
  assumes "execution_keys d" "store_compare_and_set_execution clock i v vs None d = Inr (e', d')"
  shows "\<exists>e. get_execution d i = Some e \<and> exe_revision e = v \<and> e' = (set_values vs e)\<lparr>exe_revision := v + 1\<rparr> \<and>
    d' = d\<lparr>executions := replace_row exe_id e' (executions d)\<rparr>"
proof -
  have "update_execution_where i (\<lambda>e. exe_revision e = v) (\<lambda>_. vs @ [V_revision (v + 1)]) d = Inr (Some e', d')"
    using assms(2) by (auto simp: store_compare_and_set_execution_def require_row_def ofOption_def write_ops_def requireR_def
        split: if_splits option.splits)
  with assms(1) show ?thesis by (cases rule: update_execution_whereE) auto
qed

interpretation execution_cas: cas_store execution_keys get_execution exe_revision
  "\<lambda>i v vs d. store_compare_and_set_execution clock i v vs None d" for clock
proof unfold_locales
  fix d i v vs r d' assume k: "execution_keys d" and c: "store_compare_and_set_execution clock i v vs None d = Inr (r, d')"
  from store_cas_hit [OF k c] obtain e where e: "get_execution d i = Some e" "exe_revision e = v"
    "r = (set_values vs e)\<lparr>exe_revision := v + 1\<rparr>" "d' = d\<lparr>executions := replace_row exe_id r (executions d)\<rparr>" by blast
  have id: "exe_id r = exe_id e" by (simp add: e(3))
  show "execution_keys d' \<and> (\<exists>r0. get_execution d i = Some r0 \<and> exe_revision r0 = v) \<and>
      get_execution d' i = Some r \<and> exe_revision r = v + 1"
    using e(1,2,3) get_execution_replace [OF k e(1) id, of i] k by (simp add: e(4) execution_keys_def)
  show "get_execution d' j = get_execution d j" if "j \<noteq> i" for j
    using get_execution_replace [OF k e(1) id, of j] that by (simp add: e(4))
qed

lemma missed_update:
  assumes "execution_keys d" "\<And>e. get_execution d i = Some e \<Longrightarrow> \<not> P e"
  shows "update_execution_where i P vs d = Inr (None, d)"
proof -
  have no: "\<not> (exe_id e = i \<and> P e)" if "e \<in> set (executions d)" for e
    using assms that find_key [of exe_id "executions d" e] by (auto simp: execution_keys_def get_execution_def)
  then have "upd_where (\<lambda>e. exe_id e = i \<and> P e) (\<lambda>e. set_values (vs e) e) (executions d) = executions d"
    by (intro upd_where_none) blast
  moreover have "filter (\<lambda>e. exe_id e = i \<and> P e) (executions d) = []" using no by (auto simp: filter_empty_conv)
  moreover have "\<forall>e \<in> set (executions d). exe_id e = i \<and> P e \<longrightarrow> execution_row_ok (set_values (vs e) e)" using no by blast
  ultimately show ?thesis by (simp add: update_execution_where_def Let_def requireR_def)
qed

text \<open>Activation and cancellation of an execution race on revision 1: at most one of them happens.\<close>

lemma revised_missed:
  assumes "execution_keys d" "get_execution d i = Some e" "exe_revision e' = 2" "exe_id e' = exe_id e"
  shows "update_execution_where i (preactivated task branch lin) vs (d\<lparr>executions := replace_row exe_id e' (executions d)\<rparr>) =
    Inr (None, d\<lparr>executions := replace_row exe_id e' (executions d)\<rparr>)"
  using assms get_execution_replace [OF assms(1,2,4), of i]
  by (intro missed_update) (auto simp: execution_keys_def preactivated_def)

lemma activation_or_cancellation:
  assumes "execution_keys d"
  shows "activate_row i task branch lin t d = Inr (Some e, d') \<Longrightarrow>
      cancel_row i task' branch' lin' t' reason d' = Inr (None, d')"
    "cancel_row i task branch lin t reason d = Inr (Some e, d') \<Longrightarrow>
      activate_row i task' branch' lin' t' d' = Inr (None, d')"
proof -
  show "cancel_row i task' branch' lin' t' reason d' = Inr (None, d')" if "activate_row i task branch lin t d = Inr (Some e, d')"
    using assms that [unfolded activate_row_def]
    by (cases rule: update_execution_whereE) (auto simp: cancel_row_def intro!: revised_missed [OF assms])
  show "activate_row i task' branch' lin' t' d' = Inr (None, d')" if "cancel_row i task branch lin t reason d = Inr (Some e, d')"
    using assms that [unfolded cancel_row_def]
    by (cases rule: update_execution_whereE) (auto simp: activate_row_def intro!: revised_missed [OF assms])
qed

lemma dict_eq_refl [simp]: "dict_eq a a"
  by (simp add: dict_eq_def)

lemma terminal_cas_row:
  assumes "execution_keys d"
    and "compare_and_set_expired_execution_terminal i v ob now reason (Some c) d = Inr (Some e', d')"
  shows "\<exists>e. get_execution d i = Some e \<and> exe_task_id e' = exe_task_id e \<and> exe_state e' = ''FAILED'' \<and> exe_revision e' = v + 1 \<and>
    exe_error e' = Some (unrecoverable_error reason) \<and> exe_owner_instance_id e' = None \<and> exe_lease_expires_at e' = None \<and>
    exe_lease_generation e' = lo_lease_generation ob + 1 \<and> exe_context_state e' = Some c \<and>
    get_execution d' i = Some e' \<and> 0 \<le> v \<and> reason_token reason"
proof -
  let ?vs = "[V_revision (v + 1), V_state ''FAILED'', V_wait_reason None, V_wait_expires_at None,
               V_owner_instance_id None, V_lease_expires_at None, V_lease_generation (lo_lease_generation ob + 1),
               V_completed_at (Some now), V_error (Some (unrecoverable_error reason)), V_context_state (Some c)]"
  have u: "update_execution_where i (observed_expired ob now v) (\<lambda>_. ?vs) d = Inr (Some e', d')"
    and g: "0 \<le> v" "reason_token reason"
    using assms(2) by (auto simp: lease_ops_def requireR_def split: if_splits)
  from assms(1) u show ?thesis
  proof (cases rule: update_execution_whereE)
    case (hit e)
    have "get_execution d' i = Some e'"
      using get_execution_replace [OF assms(1) hit(1), of "set_values ?vs e" i] hit(3,4) by simp
    with hit(1,3) g show ?thesis by auto
  qed simp
qed

text \<open>
  Ending the execution of a vanished owner is idempotent: the call that succeeded, repeated, returns
  the same row and writes nothing; and the owner's lease is lost.
\<close>

lemma terminal_takeover_replays:
  assumes "execution_keys d" "fail_expired_execution_unrecoverable i v ob now reason d = Inr (e, d')"
  shows "fail_expired_execution_unrecoverable i v ob now reason d' = Inr (e, d') \<and>
    exe_state e = ''FAILED'' \<and> lease_lost (lo_lease_generation ob) e"
proof -
  let ?receipt = "terminal_receipt i v ob now reason"
  have g: "0 \<le> v" "reason_token reason"
    using assms(2) by (auto simp: fail_expired_execution_unrecoverable_def requireR_def split: if_splits)
  obtain e0 where e0: "get_execution d i = Some e0" "exe_task_id e0 = None"
    using assms(2) by (auto simp: fail_expired_execution_unrecoverable_def requireR_def ofOption_def split: if_splits option.splits)
  have "get_execution d' i = Some e \<and> exe_task_id e = None \<and> terminal_replay v ob reason ?receipt e"
  proof (cases "terminal_replay v ob reason ?receipt e0")
    case True
    then show ?thesis using assms(2) e0 g
      by (simp add: fail_expired_execution_unrecoverable_def requireR_def ofOption_def Let_def)
  next
    case False
    then have "compare_and_set_expired_execution_terminal i v ob now reason
        (Some (dict_set H1A_TERMINAL_RECEIPT_CONTEXT_KEY (JObj ?receipt)
          (case exe_context_state e0 of None \<Rightarrow> [] | Some c \<Rightarrow> c))) d = Inr (Some e, d')"
      using assms(2) e0 g
      by (auto simp: fail_expired_execution_unrecoverable_def require_row_def ofOption_def Let_def split: option.splits)
    from terminal_cas_row [OF assms(1) this] e0 show ?thesis
      by (auto simp: terminal_replay_def or_empty_def json_is_dict_def dict_get_def map_of_dict_set)
  qed
  then show ?thesis using g
    by (auto simp: fail_expired_execution_unrecoverable_def requireR_def ofOption_def Let_def terminal_replay_def lease_lost_def)
qed

text \<open>
  C21. A lease that was lost is never honoured again. Once the generation has moved on, or the lease of
  this generation was given back, then whatever writes follow: the fence check of the runtime fails,
  the lease can be neither renewed nor released, no checkpoint or transition can be written under it, and
  the task budget refuses to charge under it.
\<close>

theorem lost_lease_is_fenced:
  assumes "executions_ok d" "get_execution d i = Some e" "lease_lost g e" "any_execution_step\<^sup>*\<^sup>* d d'"
    and "rf_lease_generation f = Some g"
  shows "has_active_execution_lease_fence i owner g now x d' \<noteq> Inr True \<and>
    store_renew_execution_lease i owner g now y d' \<in> {Inl ValueError, Inl LeaseAuthorityConflictError} \<and>
    store_release_execution_lease i owner g d' \<in> {Inl ValueError, Inl LeaseAuthorityConflictError} \<and>
    store_compare_and_set_execution clock i v vs (Some f) d' = Inl ExecutionConflictError \<and>
    update_checkpoint clock i vs (Some f) d' = Inl ExecutionConflictError \<and>
    lock_recovery_mutation_fence now task i f d' = Inl TaskBudgetConflictError"
proof -
  have ok: "executions_ok d'" by (rule execution_system.steps_inv [OF assms(4,1)])
  then have k: "execution_keys d'" by (simp add: executions_ok_def)
  obtain e' where e': "get_execution d' i = Some e'" "lease_lost g e'" using steps_lost [OF assms(4,1,2,3)] by blast
  note lost = lost_not_held [OF ok_row [OF ok e'(1)] e'(2)]
  have missed: "update_execution_where i (\<lambda>e. held_by owner g e \<and> Q e) vs d' = Inr (None, d')" for Q vs
    using e'(1) lost(1) by (intro missed_update [OF k]) simp
  have fence: "require_recovery_projection_fence_now t f (Some e') = Inl ExecutionConflictError" for t
    using lost(2) assms(5)
    by (auto simp: require_recovery_projection_fence_now_def ofOption_def requireR_def expiry_is_def bindR_eq_Inl Let_def
        split: option.splits)
  have "has_active_execution_lease_fence i owner g now x d' \<noteq> Inr True"
  proof
    assume "has_active_execution_lease_fence i owner g now x d' = Inr True"
    then obtain z where "z \<in> set (executions d')" "exe_id z = i" "held_by owner g z"
      by (auto simp: has_active_execution_lease_fence_def list_ex_iff)
    with k e'(1) lost(1) find_key [of exe_id "executions d'" z] show False by (auto simp: execution_keys_def get_execution_def)
  qed
  moreover have "store_renew_execution_lease i owner g now y d' \<in> {Inl ValueError, Inl LeaseAuthorityConflictError}"
    by (simp add: store_renew_execution_lease_def require_row_def lease_ops_def requireR_def ofOption_def missed)
  moreover have "store_release_execution_lease i owner g d' \<in> {Inl ValueError, Inl LeaseAuthorityConflictError}"
    by (simp add: store_release_execution_lease_def require_row_def lease_ops_def requireR_def ofOption_def missed)
  moreover have "lock_recovery_mutation_fence now task i f d' = Inl TaskBudgetConflictError"
    using lost(2) assms(5) e'(1)
    by (auto simp: lock_recovery_mutation_fence_def require_recovery_mutation_fence_now_def requireR_def Let_def
        split: option.split)
  ultimately show ?thesis
    using e'(1) fence by (simp add: store_compare_and_set_execution_def update_checkpoint_def lock_recovery_projection_fence_def)
qed

text \<open>
  C22. A lease ends by its owner's release or after it expired. In any step the owner and the generation
  of an owned row stay and its expiry does not move back, unless the step is the release by this owner
  under this generation, or a takeover at an instant not before the expiry.
\<close>

theorem unexpired_lease_protected:
  assumes "executions_ok d" "execution_step ev d d'" "get_execution d i = Some e"
    and "exe_owner_instance_id e = Some owner" "exe_lease_expires_at e = Some x"
  shows "\<exists>e'. get_execution d' i = Some e' \<and>
    (exe_owner_instance_id e' = Some owner \<and> exe_lease_generation e' = exe_lease_generation e \<and>
       (\<exists>y. exe_lease_expires_at e' = Some y \<and> wall x \<le> wall y) \<or>
     lease_lost (exe_lease_generation e) e' \<and>
       (ev = Released i owner (exe_lease_generation e) \<or> (\<exists>ob now. ev = TakenOver i ob now \<and> wall x \<le> wall now)))"
proof -
  have "e \<in> set (executions d)" "exe_id e = i" using assms(3) by (auto simp: get_execution_def dest: find_SomeD)
  then have x: "utcoffset x = Some 0" "exe_id e = i" using assms(1,5) by (auto simp: executions_ok_def)
  have k: "execution_keys d" using assms(1) by (simp add: executions_ok_def)
  obtain e' where e': "get_execution d' i = Some e'" "e' = e \<or> row_change ev e e'" by (rule step_get [OF k assms(2,3)])
  from e'(2) show ?thesis
  proof
    assume "e' = e"
    with e'(1) assms(4,5) show ?thesis by auto
  next
    assume "row_change ev e e'"
    with e'(1) x assms(4,5) show ?thesis
      by (cases ev) (auto simp: row_change_def lease_lost_def held_by_def expiry_is_def)
  qed
qed

text \<open>
  C23. The rows that the database holds in any reachable state are rows the schema accepts: the lease of
  each passes the validators of the execution model and is returned unchanged.
\<close>

theorem stored_lease_well_typed:
  assumes "reach (\<lambda>d. executions d = []) any_execution_step d" "e \<in> set (executions d)"
  shows "validate_lease_representation (exe_owner_instance_id e) (exe_lease_expires_at e) (exe_lease_generation e) =
    Inr (exe_lease_expires_at e)"
proof -
  have "execution_row_ok e" "\<forall>x. exe_lease_expires_at e = Some x \<longrightarrow> utcoffset x = Some 0"
    using execution_system.reach_inv [OF assms(1)] assms(2) by (auto simp: executions_ok_def)
  then show ?thesis
    by (auto simp: validate_lease_representation_def execution_row_ok_def requireR_def split: option.splits)
qed

end
