(* ===== verification/Lease_Scanner.thy ===== *)
theory Lease_Scanner
  imports Complex_Main Execution_Lease "HOL-Library.Product_Lexorder"
begin

text \<open>
  The scanner of stale leases (\<open>src/se/src/runtimes/agent/stale_lease_scanner.py\<close>) and the query it pages
  through (\<open>list_expired_execution_leases\<close> of
  \<open>src/se/src/infrastructure/storage/repositories/agent.py\<close>).

  A sweep reads bounded pages of expired leases in the order of expiry and identifier and keeps a
  cursor between sweeps. \<open>ticks\<close> gives the successive readings of the monotonic clock, \<open>snap n\<close> the
  database that page \<open>n\<close> is read from, or \<open>None\<close> when the read times out. Identifiers compare by code
  point. Only the identifier of a row that cannot be observed is kept of its error text.
\<close>

section \<open>The query\<close>

definition MAX_EXPIRED_EXECUTION_LEASE_SCAN_LIMIT :: int where
  "MAX_EXPIRED_EXECUTION_LEASE_SCAN_LIMIT = 100"

type_synonym lease_cursor = "(pydatetime \<times> string) option"

definition lease_key :: "execution_row \<Rightarrow> int \<times> string" where
  "lease_key e = (case exe_lease_expires_at e of None \<Rightarrow> 0 | Some x \<Rightarrow> wall (record_utc x), exe_id e)"

definition expired_owned :: "pydatetime \<Rightarrow> execution_row \<Rightarrow> bool" where
  "expired_owned cutoff e \<longleftrightarrow>
     exe_state e = ''RUNNING'' \<and> exe_owner_instance_id e \<noteq> None \<and> expiry_is (\<lambda>x. x \<le> wall cutoff) e"

definition list_expired_execution_leases ::
    "pydatetime \<Rightarrow> int \<Rightarrow> pydatetime option \<Rightarrow> string option \<Rightarrow> db \<Rightarrow> err + execution_row list" where
  "list_expired_execution_leases cutoff page_limit after_expiry after_execution_id d =
     bindR (require_lease_utc_datetime cutoff) (\<lambda>_.
     bindR (requireR (0 < page_limit \<and> page_limit \<le> MAX_EXPIRED_EXECUTION_LEASE_SCAN_LIMIT) ValueError) (\<lambda>_.
     bindR (requireR ((after_expiry = None) = (after_execution_id = None)) ValueError) (\<lambda>_.
     (let rows = filter (expired_owned cutoff) (executions d);
          page = (\<lambda>rows. take (nat page_limit) (sort_key lease_key rows)) in
      case (after_expiry, after_execution_id) of
        (Some t, Some i) \<Rightarrow>
          bindR (require_lease_utc_datetime t) (\<lambda>_.
          bindR (requireR (i \<noteq> []) ValueError) (\<lambda>_.
          Inr (page (filter (\<lambda>e. (wall t, i) < lease_key e) rows))))
      | _ \<Rightarrow> Inr (page rows)))))"

section \<open>The scanner\<close>

record scan_policy =
  sp_page_size :: int
  sp_max_pages :: int
  sp_max_rows :: int
  sp_max_duration_seconds :: rat

definition MAX_STALE_LEASE_SCAN_PAGE_SIZE :: int where
  "MAX_STALE_LEASE_SCAN_PAGE_SIZE = 100"

definition new_scan_policy :: "int \<Rightarrow> int \<Rightarrow> int \<Rightarrow> rat \<Rightarrow> err + scan_policy" where
  "new_scan_policy page_size max_pages max_rows max_duration_seconds =
     bindR (requireR (0 < page_size \<and> page_size \<le> MAX_STALE_LEASE_SCAN_PAGE_SIZE) ValueError) (\<lambda>_.
     bindR (requireR (0 < max_pages) ValueError) (\<lambda>_.
     bindR (requireR (0 < max_rows) ValueError) (\<lambda>_.
     bindR (requireR (0 < max_duration_seconds) ValueError) (\<lambda>_.
     Inr \<lparr>sp_page_size = page_size, sp_max_pages = max_pages, sp_max_rows = max_rows,
          sp_max_duration_seconds = max_duration_seconds\<rparr>))))"

record stale_observation =
  so_execution_id :: string
  so_owner_instance_id :: string
  so_lease_generation :: int
  so_lease_expires_at :: pydatetime
  so_state :: string
  so_revision :: int

definition aware_utc :: "pydatetime option \<Rightarrow> err + pydatetime" where
  "aware_utc t =
     bindR (ofOption TypeError t) (\<lambda>t.
     bindR (requireR (utcoffset t = Some 0) ValueError) (\<lambda>_. Inr t))"

definition from_record :: "execution_row \<Rightarrow> err + stale_observation" where
  "from_record e =
     bindR (requireR (exe_id e \<noteq> []) ValueError) (\<lambda>_.
     bindR (requireR (or_empty (exe_owner_instance_id e) \<noteq> []) ValueError) (\<lambda>_.
     bindR (requireR (0 < exe_lease_generation e) ValueError) (\<lambda>_.
     bindR (aware_utc (exe_lease_expires_at e)) (\<lambda>t.
     Inr \<lparr>so_execution_id = exe_id e, so_owner_instance_id = or_empty (exe_owner_instance_id e),
          so_lease_generation = exe_lease_generation e, so_lease_expires_at = t, so_state = exe_state e,
          so_revision = exe_revision e\<rparr>))))"

datatype stop_reason = EXHAUSTED | MAX_PAGES | MAX_ROWS | MAX_DURATION

record sweep =
  sw_pages_fetched :: int
  sw_rows_returned :: int
  sw_after :: lease_cursor
  sw_last :: lease_cursor
  sw_observations :: "stale_observation list"
  sw_errors :: "string list"

fun observe_page :: "execution_row list \<Rightarrow> sweep \<Rightarrow> err + sweep" where
  "observe_page [] w = Inr w"
| "observe_page (e # es) w =
     bindR (aware_utc (exe_lease_expires_at e)) (\<lambda>raw_expiry.
     bindR (requireR (exe_id e \<noteq> []) ValueError) (\<lambda>_.
       (let w1 = w\<lparr>sw_after := Some (raw_expiry, exe_id e), sw_last := Some (raw_expiry, exe_id e)\<rparr> in
        observe_page es
          (case from_record e of
             Inr ob \<Rightarrow> w1\<lparr>sw_observations := sw_observations w1 @ [ob]\<rparr>
           | Inl _ \<Rightarrow> w1\<lparr>sw_errors := sw_errors w1 @ [exe_id e]\<rparr>))))"

function scan_loop :: "scan_policy \<Rightarrow> pydatetime \<Rightarrow> (nat \<Rightarrow> rat) \<Rightarrow> (nat \<Rightarrow> db option) \<Rightarrow> sweep \<Rightarrow> err + sweep \<times> stop_reason" where
  "scan_loop p cutoff ticks snap w =
     (let n = nat (sw_pages_fetched w);
          remaining_rows = sp_max_rows p - sw_rows_returned w;
          request_limit = min (sp_page_size p) remaining_rows in
      if sp_max_duration_seconds p \<le> ticks (2 * n + 1) - ticks 0 then Inr (w, MAX_DURATION)
      else if sp_max_pages p \<le> sw_pages_fetched w then Inr (w, MAX_PAGES)
      else if remaining_rows \<le> 0 then Inr (w, MAX_ROWS)
      else case snap n of
             None \<Rightarrow> Inr (w, MAX_DURATION)
           | Some d \<Rightarrow>
               bindR (list_expired_execution_leases cutoff request_limit (map_option fst (sw_after w)) (map_option snd (sw_after w)) d)
                 (\<lambda>rows.
                 (let w1 = w\<lparr>sw_pages_fetched := sw_pages_fetched w + 1\<rparr> in
                  if sp_max_duration_seconds p \<le> ticks (2 * n + 2) - ticks 0 then Inr (w1, MAX_DURATION)
                  else
                    bindR (observe_page rows (w1\<lparr>sw_rows_returned := sw_rows_returned w + int (length rows)\<rparr>)) (\<lambda>w2.
                    if int (length rows) < request_limit then Inr (w2, EXHAUSTED)
                    else if sp_max_rows p \<le> sw_rows_returned w2 then Inr (w2, MAX_ROWS)
                    else if sp_max_pages p \<le> sw_pages_fetched w2 then Inr (w2, MAX_PAGES)
                    else scan_loop p cutoff ticks snap w2))))"
  by pat_completeness auto

lemma observe_page_counters:
  "observe_page es w = Inr w' \<Longrightarrow> sw_pages_fetched w' = sw_pages_fetched w \<and> sw_rows_returned w' = sw_rows_returned w"
proof (induction es arbitrary: w)
  case (Cons e es)
  then show ?case by (cases "from_record e") (auto simp: Let_def)
qed simp

termination scan_loop
  by (relation "measure (\<lambda>(p, _, _, _, w). nat (sp_max_pages p - sw_pages_fetched w))")
    (auto dest!: observe_page_counters)

declare scan_loop.simps [simp del]

record sweep_result =
  sr_pages_fetched :: int
  sr_observations :: "stale_observation list"
  sr_stop_reason :: stop_reason
  sr_observation_errors :: "string list"

definition next_cursor :: "lease_cursor \<Rightarrow> sweep \<Rightarrow> stop_reason \<Rightarrow> lease_cursor" where
  "next_cursor cursor w stop =
     (if stop = EXHAUSTED then None else case sw_last w of None \<Rightarrow> cursor | Some c \<Rightarrow> Some c)"

definition scan_once :: "scan_policy \<Rightarrow> pydatetime \<Rightarrow> (nat \<Rightarrow> rat) \<Rightarrow> (nat \<Rightarrow> db option) \<Rightarrow> lease_cursor \<Rightarrow> err + sweep_result \<times> lease_cursor" where
  "scan_once p now ticks snap cursor =
     bindR (aware_utc (Some now)) (\<lambda>cutoff.
     bindR (scan_loop p cutoff ticks snap
              \<lparr>sw_pages_fetched = 0, sw_rows_returned = 0, sw_after = cursor, sw_last = None, sw_observations = [], sw_errors = []\<rparr>)
       (\<lambda>(w, stop).
       Inr (\<lparr>sr_pages_fetched = sw_pages_fetched w, sr_observations = sw_observations w, sr_stop_reason = stop,
             sr_observation_errors = sw_errors w\<rparr>, next_cursor cursor w stop)))"

section \<open>A sweep over a database at rest\<close>

definition cursor_ok :: "lease_cursor \<Rightarrow> bool" where
  "cursor_ok c \<longleftrightarrow> (case c of None \<Rightarrow> True | Some (t, i) \<Rightarrow> utcoffset t = Some 0 \<and> i \<noteq> [])"

definition cursor_of :: "execution_row \<Rightarrow> pydatetime \<times> string" where
  "cursor_of e = (case exe_lease_expires_at e of None \<Rightarrow> PyDT 0 (Some 0) | Some t \<Rightarrow> t, exe_id e)"

definition observed :: "execution_row list \<Rightarrow> stale_observation list" where
  "observed es = concat (map (\<lambda>e. case from_record e of Inr ob \<Rightarrow> [ob] | Inl _ \<Rightarrow> []) es)"

definition unobserved :: "execution_row list \<Rightarrow> string list" where
  "unobserved es = concat (map (\<lambda>e. case from_record e of Inr ob \<Rightarrow> [] | Inl _ \<Rightarrow> [exe_id e]) es)"

lemma observed_append [simp]: "observed (xs @ ys) = observed xs @ observed ys" "unobserved (xs @ ys) = unobserved xs @ unobserved ys"
  "observed [] = []" "unobserved [] = []"
  by (simp_all add: observed_def unobserved_def)

definition scannable :: "execution_row \<Rightarrow> bool" where
  "scannable e \<longleftrightarrow> exe_id e \<noteq> [] \<and> (\<exists>t. exe_lease_expires_at e = Some t \<and> utcoffset t = Some 0)"

lemma observe_page_result:
  assumes "\<forall>e \<in> set es. scannable e" "es \<noteq> []"
  shows "observe_page es w = Inr (w\<lparr>sw_after := Some (cursor_of (last es)), sw_last := Some (cursor_of (last es)),
    sw_observations := sw_observations w @ observed es, sw_errors := sw_errors w @ unobserved es\<rparr>)"
  using assms
proof (induction es arbitrary: w)
  case (Cons e es)
  then obtain t where e: "exe_id e \<noteq> []" "exe_lease_expires_at e = Some t" "utcoffset t = Some 0" by (auto simp: scannable_def)
  with Cons show ?case
    by (cases "from_record e"; cases "es = []")
      (auto simp: aware_utc_def ofOption_def requireR_def Let_def observed_def unobserved_def cursor_of_def)
qed simp

lemma observation_count: "length (observed es) + length (unobserved es) = length es"
  by (induction es) (auto simp: observed_def unobserved_def split: sum.splits)

lemma page_result:
  assumes "\<forall>e \<in> set es. scannable e"
  shows "\<exists>w'. observe_page es w = Inr w' \<and> (cursor_ok (sw_after w) \<longrightarrow> cursor_ok (sw_after w')) \<and> (cursor_ok (sw_last w) \<longrightarrow> cursor_ok (sw_last w')) \<and>
    length (sw_observations w') + length (sw_errors w') = length (sw_observations w) + length (sw_errors w) + length es"
proof (cases "es = []")
  case False
  then have "scannable (last es)" using assms by simp
  then have "cursor_ok (Some (cursor_of (last es)))" by (auto simp: cursor_ok_def cursor_of_def scannable_def)
  with observe_page_result [OF assms False, of w] observation_count [of es] show ?thesis by simp
qed simp

definition expired_after :: "pydatetime \<Rightarrow> lease_cursor \<Rightarrow> db \<Rightarrow> execution_row list" where
  "expired_after now c d =
     (let rows = sort_key lease_key (filter (expired_owned now) (executions d)) in
      case c of None \<Rightarrow> rows | Some (t, i) \<Rightarrow> filter (\<lambda>e. (wall t, i) < lease_key e) rows)"

lemma list_expired_eq:
  assumes "utcoffset now = Some 0" "0 < n" "n \<le> 100" "cursor_ok c"
  shows "list_expired_execution_leases now n (map_option fst c) (map_option snd c) d = Inr (take (nat n) (expired_after now c d))"
  using assms
  by (auto simp: list_expired_execution_leases_def require_lease_utc_datetime_def requireR_def cursor_ok_def expired_after_def
      MAX_EXPIRED_EXECUTION_LEASE_SCAN_LIMIT_def filter_sort Let_def split: option.splits)

lemma filter_beyond:
  assumes "sorted_wrt (<) (map k (xs @ y # ys))"
  shows "filter (\<lambda>e. (k y :: 'a :: linorder) < k e) (xs @ y # ys) = ys"
  using assms by (auto simp: sorted_wrt_append filter_empty_conv filter_id_conv)

lemma expired_sorted:
  assumes "execution_keys d"
  shows "sorted_wrt (<) (map lease_key (expired_after now c d))"
proof -
  have "distinct (map exe_id (filter (expired_owned now) (executions d)))"
    using assms by (simp add: execution_keys_def distinct_map_filter)
  then have "distinct (map lease_key (filter (expired_owned now) (executions d)))"
    by (auto simp: distinct_map inj_on_def lease_key_def)
  then have s: "sorted_wrt (<) (map lease_key (sort_key lease_key (filter (expired_owned now) (executions d))))"
    by (simp add: strict_sorted_iff distinct_map)
  then show ?thesis
    by (auto simp: expired_after_def sorted_wrt_map Let_def intro: sorted_wrt_filter split: option.split)
qed

lemma expired_after_next:
  assumes "execution_keys d" "expired_after now c d = xs @ e # ys" "scannable e"
  shows "expired_after now (Some (cursor_of e)) d = ys"
proof -
  let ?L = "expired_after now None d"
  obtain t where t: "exe_lease_expires_at e = Some t" "utcoffset t = Some 0" using assms(3) by (auto simp: scannable_def)
  then have key: "lease_key e = (wall t, exe_id e)" "cursor_of e = (t, exe_id e)"
    by (simp_all add: lease_key_def cursor_of_def)
  have after: "expired_after now (Some (cursor_of e)) d = filter (\<lambda>x. lease_key e < lease_key x) ?L"
    by (simp add: expired_after_def key)
  have "\<exists>P. expired_after now c d = filter P ?L \<and> (\<forall>x. lease_key e < lease_key x \<longrightarrow> P e \<longrightarrow> P x)"
    by (cases c) (auto simp: expired_after_def Let_def intro: exI [of _ "\<lambda>_. True"] less_trans)
  then obtain P where P: "expired_after now c d = filter P ?L" "\<forall>x. lease_key e < lease_key x \<longrightarrow> P e \<longrightarrow> P x" by blast
  have "e \<in> set (filter P ?L)" unfolding P(1) [symmetric] assms(2) by simp
  then have "filter (\<lambda>x. lease_key e < lease_key x) ?L = filter (\<lambda>x. lease_key e < lease_key x) (filter P ?L)"
    using P(2) by (auto simp: filter_filter intro!: filter_cong)
  also have "\<dots> = filter (\<lambda>x. lease_key e < lease_key x) (xs @ e # ys)" by (simp only: P(1) [symmetric] assms(2))
  also have "\<dots> = ys" by (rule filter_beyond) (use expired_sorted [OF assms(1), of now c] assms(2) in simp)
  finally show ?thesis by (simp add: after)
qed

text \<open>What one sweep can return at most.\<close>

definition scan_policy_ok :: "scan_policy \<Rightarrow> bool" where
  "scan_policy_ok p \<longleftrightarrow> 0 < sp_page_size p \<and> sp_page_size p \<le> 100 \<and> 0 < sp_max_pages p \<and> 0 < sp_max_rows p"

definition quota_left :: "scan_policy \<Rightarrow> sweep \<Rightarrow> nat" where
  "quota_left p w = nat (min (sp_max_rows p - sw_rows_returned w) ((sp_max_pages p - sw_pages_fetched w) * sp_page_size p))"

definition at_rest :: "scan_policy \<Rightarrow> pydatetime \<Rightarrow> (nat \<Rightarrow> rat) \<Rightarrow> (nat \<Rightarrow> db option) \<Rightarrow> db \<Rightarrow> bool" where
  "at_rest p now ticks snap d \<longleftrightarrow>
     scan_policy_ok p \<and> utcoffset now = Some 0 \<and> (\<forall>n. ticks n - ticks 0 < sp_max_duration_seconds p) \<and>
     (\<forall>n. snap n = Some d) \<and> execution_keys d \<and> (\<forall>e \<in> set (executions d). expired_owned now e \<longrightarrow> scannable e)"

lemma set_expired_after: "set (expired_after now c d) \<subseteq> set (filter (expired_owned now) (executions d))"
  by (cases c) (auto simp: expired_after_def Let_def)

lemma last_page:
  assumes "at_rest p now ticks snap d" "0 < m" "m \<le> length (expired_after now c d)"
  shows "cursor_ok (Some (cursor_of (last (take m (expired_after now c d)))))"
    "expired_after now (Some (cursor_of (last (take m (expired_after now c d))))) d = drop m (expired_after now c d)"
proof -
  let ?E = "expired_after now c d"
  have split: "?E = butlast (take m ?E) @ last (take m ?E) # drop m ?E"
    using assms(2,3) by (metis append.assoc append_Cons append_Nil append_butlast_last_id append_take_drop_id
        length_greater_0_conv length_take list.size(3) min.absorb2 not_less_zero)
  have "last (take m ?E) \<in> set ?E" by (subst split) simp
  then have s: "scannable (last (take m ?E))"
    using set_expired_after [of now c d] assms(1) by (auto simp: at_rest_def)
  then show "cursor_ok (Some (cursor_of (last (take m ?E))))" by (auto simp: cursor_ok_def cursor_of_def scannable_def)
  show "expired_after now (Some (cursor_of (last (take m ?E)))) d = drop m ?E"
    using expired_after_next [OF _ split s] assms(1) by (simp add: at_rest_def)
qed

definition swept :: "scan_policy \<Rightarrow> pydatetime \<Rightarrow> db \<Rightarrow> sweep \<Rightarrow> sweep \<Rightarrow> stop_reason \<Rightarrow> bool" where
  "swept p now d w w' stop \<longleftrightarrow>
     (let E = expired_after now (sw_after w) d; n = quota_left p w in
      sw_observations w' = sw_observations w @ observed (take n E) \<and>
      sw_errors w' = sw_errors w @ unobserved (take n E) \<and>
      (if stop = EXHAUSTED then length E \<le> n
       else n \<le> length E \<and> sw_last w' = Some (cursor_of (last (take n E)))))"

lemma quota_left_page:
  assumes "scan_policy_ok p" "sw_pages_fetched w < sp_max_pages p" "sw_rows_returned w < sp_max_rows p"
    and "l = min (sp_page_size p) (sp_max_rows p - sw_rows_returned w)"
    and "sw_pages_fetched w2 = sw_pages_fetched w + 1" "sw_rows_returned w2 = sw_rows_returned w + l"
  shows "nat l \<le> quota_left p w"
    "sp_max_rows p \<le> sw_rows_returned w2 \<or> sp_max_pages p \<le> sw_pages_fetched w2 \<Longrightarrow> quota_left p w = nat l"
    "sw_rows_returned w2 < sp_max_rows p \<Longrightarrow> sw_pages_fetched w2 < sp_max_pages p \<Longrightarrow> quota_left p w = nat l + quota_left p w2"
proof -
  let ?k = "sp_max_pages p - sw_pages_fetched w"
  have ps: "0 < sp_page_size p" using assms(1) by (simp add: scan_policy_ok_def)
  have le: "sp_page_size p \<le> ?k * sp_page_size p" using assms(2) ps by (simp add: mult_le_cancel_right1)
  then show "nat l \<le> quota_left p w" using assms(3,4) by (auto simp: quota_left_def)
  show "quota_left p w = nat l" if "sp_max_rows p \<le> sw_rows_returned w2 \<or> sp_max_pages p \<le> sw_pages_fetched w2"
  proof -
    have "sp_max_pages p \<le> sw_pages_fetched w2 \<Longrightarrow> ?k = 1" using assms(2,5) by simp
    then show ?thesis using that assms(3-6) le by (auto simp: quota_left_def min_def)
  qed
  assume more: "sw_rows_returned w2 < sp_max_rows p" "sw_pages_fetched w2 < sp_max_pages p"
  then have "l = sp_page_size p" using assms(4,6) by (auto simp: min_def split: if_splits)
  moreover have "?k * sp_page_size p = sp_page_size p + (sp_max_pages p - sw_pages_fetched w2) * sp_page_size p"
    by (simp add: assms(5) algebra_simps)
  moreover have "0 < (sp_max_pages p - sw_pages_fetched w2) * sp_page_size p" using more(2) ps by simp
  ultimately show "quota_left p w = nat l + quota_left p w2"
    using more(1) ps by (auto simp: quota_left_def assms(6) min_def nat_add_distrib [symmetric])
qed

text \<open>One iteration that is not stopped by the clock.\<close>

lemma scan_loop_step:
  assumes "at_rest p now ticks snap d" "cursor_ok (sw_after w)"
    and "sw_pages_fetched w < sp_max_pages p" "sw_rows_returned w < sp_max_rows p"
    and "l = min (sp_page_size p) (sp_max_rows p - sw_rows_returned w)" "rows = take (nat l) (expired_after now (sw_after w) d)"
  shows "scan_loop p now ticks snap w =
    bindR (observe_page rows (w\<lparr>sw_pages_fetched := sw_pages_fetched w + 1, sw_rows_returned := sw_rows_returned w + int (length rows)\<rparr>))
      (\<lambda>w2. if int (length rows) < l then Inr (w2, EXHAUSTED)
             else if sp_max_rows p \<le> sw_rows_returned w2 then Inr (w2, MAX_ROWS)
             else if sp_max_pages p \<le> sw_pages_fetched w2 then Inr (w2, MAX_PAGES)
             else scan_loop p now ticks snap w2)"
proof -
  note rest = assms(1) [unfolded at_rest_def scan_policy_ok_def]
  have t: "\<not> sp_max_duration_seconds p \<le> ticks n - ticks 0" for n using rest by (simp add: not_le)
  have "0 < l" "l \<le> 100" using rest assms(4,5) by auto
  then have "list_expired_execution_leases now l (map_option fst (sw_after w)) (map_option snd (sw_after w)) d = Inr rows"
    using rest assms(2,6) by (simp add: list_expired_eq)
  then show ?thesis
    by (subst scan_loop.simps) (use rest assms(3,4) t in \<open>simp add: Let_def assms(5)\<close>)
qed

lemma scan_loop_at_rest:
  assumes "at_rest p now ticks snap d" "cursor_ok (sw_after w)"
    and "sw_pages_fetched w < sp_max_pages p" "sw_rows_returned w < sp_max_rows p"
  shows "\<exists>w' stop. scan_loop p now ticks snap w = Inr (w', stop) \<and> swept p now d w w' stop"
  using assms(2-)
proof (induction "nat (sp_max_pages p - sw_pages_fetched w)" arbitrary: w rule: less_induct)
  case less
  define E where "E = expired_after now (sw_after w) d"
  define l where "l = min (sp_page_size p) (sp_max_rows p - sw_rows_returned w)"
  define rows where "rows = take (nat l) E"
  define w1 where "w1 = w\<lparr>sw_pages_fetched := sw_pages_fetched w + 1, sw_rows_returned := sw_rows_returned w + int (length rows)\<rparr>"
  have p: "scan_policy_ok p" and l: "0 < l" using assms(1) less.prems(3) by (auto simp: at_rest_def scan_policy_ok_def l_def)
  note step = scan_loop_step [OF assms(1) less.prems l_def rows_def [unfolded E_def], folded w1_def]
  show ?case
  proof (cases "rows = []")
    case True
    then have "E = []" using l by (simp add: rows_def)
    then show ?thesis using l by (simp add: step True swept_def E_def [symmetric] w1_def Let_def)
  next
    case False
    have "\<forall>e \<in> set rows. scannable e"
      using assms(1) set_expired_after [of now "sw_after w" d] by (auto simp: at_rest_def rows_def E_def dest!: in_set_takeD)
    note page = observe_page_result [OF this False, of w1]
    define w2 where "w2 = w1\<lparr>sw_after := Some (cursor_of (last rows)), sw_last := Some (cursor_of (last rows)),
      sw_observations := sw_observations w1 @ observed rows, sw_errors := sw_errors w1 @ unobserved rows\<rparr>"
    show ?thesis
    proof (cases "int (length rows) < l")
      case True
      then have "rows = E" "length E < nat l" by (auto simp: rows_def min_def split: if_splits)
      moreover have "nat l \<le> quota_left p w"
        using quota_left_page(1) [OF p less.prems(2,3) l_def, of "w\<lparr>sw_pages_fetched := sw_pages_fetched w + 1, sw_rows_returned := sw_rows_returned w + l\<rparr>"] by simp
      ultimately have "swept p now d w w2 EXHAUSTED" by (simp add: swept_def E_def [symmetric] Let_def w1_def w2_def)
      then show ?thesis using True by (simp add: step page w2_def [symmetric])
    next
      case full: False
      then have len: "int (length rows) = l" "nat l \<le> length E" using l by (auto simp: rows_def)
      have w2: "sw_pages_fetched w2 = sw_pages_fetched w + 1" "sw_rows_returned w2 = sw_rows_returned w + l"
        by (simp_all add: w2_def w1_def len)
      note quota = quota_left_page [OF p less.prems(2,3) l_def w2]
      have stop: "swept p now d w w2 stop" if "quota_left p w = nat l" "stop \<noteq> EXHAUSTED" for stop
        using that len(2) by (simp add: swept_def E_def [symmetric] Let_def rows_def w2_def w1_def)
      show ?thesis
      proof (cases "sp_max_rows p \<le> sw_rows_returned w2 \<or> sp_max_pages p \<le> sw_pages_fetched w2")
        case True
        then show ?thesis using quota(2) stop full by (auto simp: step page w2_def [symmetric])
      next
        case more: False
        note rest = last_page [OF assms(1), of "nat l" "sw_after w", folded E_def rows_def]
        have next_page: "cursor_ok (sw_after w2)" "expired_after now (sw_after w2) d = drop (nat l) E"
          using rest l len(2) by (simp_all add: w2_def)
        obtain w' stop where r: "scan_loop p now ticks snap w2 = Inr (w', stop)" "swept p now d w2 w' stop"
          using less.hyps [of w2] next_page(1) more w2 less.prems(2) by auto
        let ?q = "quota_left p w2" and ?D = "drop (nat l) E"
        have q: "quota_left p w = nat l + ?q" using quota(3) more by simp
        have q0: "0 < ?q" using more p by (auto simp: quota_left_def scan_policy_ok_def)
        have t: "take (quota_left p w) E = rows @ take ?q ?D" by (simp add: q take_add rows_def)
        have e: "sw_observations w' = sw_observations w @ observed (take (quota_left p w) E)"
            "sw_errors w' = sw_errors w @ unobserved (take (quota_left p w) E)"
          using r(2) unfolding t swept_def next_page(2) Let_def by (simp_all add: w2_def w1_def)
        have f: "if stop = EXHAUSTED then length ?D \<le> ?q else ?q \<le> length ?D \<and> sw_last w' = Some (cursor_of (last (take ?q ?D)))"
          using r(2) unfolding swept_def next_page(2) Let_def by blast
        have "stop \<noteq> EXHAUSTED \<Longrightarrow> last (rows @ take ?q ?D) = last (take ?q ?D)" using f q0 by (intro last_appendR) auto
        then have "if stop = EXHAUSTED then length E \<le> quota_left p w
            else quota_left p w \<le> length E \<and> sw_last w' = Some (cursor_of (last (take (quota_left p w) E)))"
          using f len(2) unfolding t by (auto simp: q split: if_splits)
        with e have "swept p now d w w' stop" unfolding swept_def E_def [symmetric] Let_def by blast
        with r(1) full more show ?thesis by (auto simp: step page w2_def [symmetric])
      qed
    qed
  qed
qed

lemma scan_once_at_rest:
  assumes "at_rest p now ticks snap d" "cursor_ok c"
  shows "\<exists>res c' n. scan_once p now ticks snap c = Inr (res, c') \<and> 0 < n \<and>
    sr_observations res = observed (take n (expired_after now c d)) \<and>
    (if sr_stop_reason res = EXHAUSTED then length (expired_after now c d) \<le> n \<and> c' = None
     else cursor_ok c' \<and> expired_after now c' d = drop n (expired_after now c d) \<and> n \<le> length (expired_after now c d))"
proof -
  let ?w = "\<lparr>sw_pages_fetched = 0, sw_rows_returned = 0, sw_after = c, sw_last = None, sw_observations = [], sw_errors = []\<rparr>"
  let ?E = "expired_after now c d"
  have p: "scan_policy_ok p" "utcoffset now = Some 0" using assms(1) by (simp_all add: at_rest_def)
  obtain w' stop where w': "scan_loop p now ticks snap ?w = Inr (w', stop)" "swept p now d ?w w' stop"
    using scan_loop_at_rest [OF assms(1), of ?w] assms(2) p(1) by (auto simp: scan_policy_ok_def)
  have n: "0 < quota_left p ?w" using p(1) by (auto simp: quota_left_def scan_policy_ok_def)
  note last = last_page [OF assms(1) n, of c]
  let ?res = "\<lparr>sr_pages_fetched = sw_pages_fetched w', sr_observations = sw_observations w', sr_stop_reason = stop,
             sr_observation_errors = sw_errors w'\<rparr>"
  let ?n = "quota_left p ?w"
  have r: "scan_once p now ticks snap c = Inr (?res, next_cursor c w' stop)"
    using w'(1) p(2) by (simp add: scan_once_def aware_utc_def ofOption_def requireR_def)
  have o: "sw_observations w' = observed (take ?n ?E)" using w'(2) by (simp add: swept_def Let_def)
  show ?thesis
  proof (cases "stop = EXHAUSTED")
    case True
    then have "length ?E \<le> ?n" "next_cursor c w' stop = None" using w'(2) by (simp_all add: swept_def Let_def next_cursor_def)
    with r o n True show ?thesis by (intro exI [of _ ?res] exI [of _ "next_cursor c w' stop"] exI [of _ ?n] conjI) simp_all
  next
    case False
    then have "?n \<le> length ?E" "next_cursor c w' stop = Some (cursor_of (last (take ?n ?E)))"
      using w'(2) by (simp_all add: swept_def Let_def next_cursor_def)
    with r o n False last show ?thesis by (intro exI [of _ ?res] exI [of _ "next_cursor c w' stop"] exI [of _ ?n] conjI) simp_all
  qed
qed

section \<open>What is always true of a sweep\<close>

lemma scan_loop_bounded:
  assumes "scan_policy_ok p" "utcoffset now = Some 0"
    and "\<forall>n d. snap n = Some d \<longrightarrow> (\<forall>e \<in> set (executions d). expired_owned now e \<longrightarrow> scannable e)"
    and "cursor_ok (sw_after w)" "cursor_ok (sw_last w)" "sw_pages_fetched w \<le> sp_max_pages p" "sw_rows_returned w \<le> sp_max_rows p"
    and "int (length (sw_observations w)) + int (length (sw_errors w)) \<le> sw_rows_returned w"
  shows "\<exists>w' stop. scan_loop p now ticks snap w = Inr (w', stop) \<and> cursor_ok (sw_last w') \<and>
    sw_pages_fetched w' \<le> sp_max_pages p \<and> int (length (sw_observations w')) + int (length (sw_errors w')) \<le> sp_max_rows p"
  using assms(4-)
proof (induction "nat (sp_max_pages p - sw_pages_fetched w)" arbitrary: w rule: less_induct)
  case less
  let ?l = "min (sp_page_size p) (sp_max_rows p - sw_rows_returned w)"
  let ?n = "nat (sw_pages_fetched w)"
  show ?case
  proof (cases "\<exists>d. snap ?n = Some d \<and> \<not> sp_max_duration_seconds p \<le> ticks (2 * ?n + 1) - ticks 0 \<and>
      sw_pages_fetched w < sp_max_pages p \<and> sw_rows_returned w < sp_max_rows p")
    case False
    then show ?thesis using less.prems by (subst scan_loop.simps) (auto simp: Let_def not_less split: option.splits)
  next
    case True
    then obtain d where d: "snap ?n = Some d" "\<not> sp_max_duration_seconds p \<le> ticks (2 * ?n + 1) - ticks 0"
      "sw_pages_fetched w < sp_max_pages p" "sw_rows_returned w < sp_max_rows p" by blast
    define rows where "rows = take (nat ?l) (expired_after now (sw_after w) d)"
    define w1 where "w1 = w\<lparr>sw_pages_fetched := sw_pages_fetched w + 1, sw_rows_returned := sw_rows_returned w + int (length rows)\<rparr>"
    have l: "0 < ?l" "?l \<le> 100" using assms(1) d(4) by (auto simp: scan_policy_ok_def)
    have list: "list_expired_execution_leases now ?l (map_option fst (sw_after w)) (map_option snd (sw_after w)) d = Inr rows"
      unfolding rows_def by (rule list_expired_eq [OF assms(2) l less.prems(1)])
    have sc: "\<forall>e \<in> set rows. scannable e"
      using assms(3) d(1) set_expired_after [of now "sw_after w" d] by (auto simp: rows_def dest!: in_set_takeD)
    obtain w2 where w2: "observe_page rows w1 = Inr w2" "cursor_ok (sw_after w2)" "cursor_ok (sw_last w2)"
      "int (length (sw_observations w2)) + int (length (sw_errors w2)) = int (length (sw_observations w)) + int (length (sw_errors w)) + int (length rows)"
      using page_result [OF sc, of w1] less.prems by (auto simp: w1_def)
    have c2: "sw_pages_fetched w2 = sw_pages_fetched w + 1" "sw_rows_returned w2 = sw_rows_returned w + int (length rows)"
      using observe_page_counters [OF w2(1)] by (simp_all add: w1_def)
    have "length rows \<le> nat ?l" by (simp add: rows_def)
    then have "int (length rows) \<le> ?l" using l by linarith
    then have b: "sw_pages_fetched w2 \<le> sp_max_pages p" "sw_rows_returned w2 \<le> sp_max_rows p" using d(3) c2 by auto
    have ih: "\<exists>w' stop. scan_loop p now ticks snap w2 = Inr (w', stop) \<and> cursor_ok (sw_last w') \<and>
        sw_pages_fetched w' \<le> sp_max_pages p \<and> int (length (sw_observations w')) + int (length (sw_errors w')) \<le> sp_max_rows p"
      using less.hyps [of w2] w2 c2 b d(3) less.prems(5) by auto
    show ?thesis
      by (subst scan_loop.simps) (use d list ih w2 c2 b less.prems in \<open>auto simp: Let_def w1_def [symmetric]\<close>)
  qed
qed

section \<open>Properties\<close>

text \<open>The observations of successive sweeps, each from the cursor the one before left.\<close>

fun sweeps :: "scan_policy \<Rightarrow> pydatetime \<Rightarrow> (nat \<Rightarrow> rat) \<Rightarrow> (nat \<Rightarrow> db option) \<Rightarrow> nat \<Rightarrow> lease_cursor \<Rightarrow> stale_observation list" where
  "sweeps p now ticks snap 0 c = []"
| "sweeps p now ticks snap (Suc k) c =
     (case scan_once p now ticks snap c of
        Inl _ \<Rightarrow> []
      | Inr (res, c') \<Rightarrow> sr_observations res @ sweeps p now ticks snap k c')"

lemma sweeps_cover:
  assumes "at_rest p now ticks snap d" "cursor_ok c" "length (expired_after now c d) < k"
  shows "\<exists>more. sweeps p now ticks snap k c = observed (expired_after now c d) @ more"
  using assms(2,3)
proof (induction k arbitrary: c)
  case (Suc k)
  let ?E = "expired_after now c d"
  obtain res c' n where r: "scan_once p now ticks snap c = Inr (res, c')" "0 < n"
    "sr_observations res = observed (take n ?E)"
    "if sr_stop_reason res = EXHAUSTED then length ?E \<le> n \<and> c' = None
     else cursor_ok c' \<and> expired_after now c' d = drop n ?E \<and> n \<le> length ?E"
    using scan_once_at_rest [OF assms(1) Suc.prems(1)] by blast
  show ?case
  proof (cases "sr_stop_reason res = EXHAUSTED")
    case True
    with r show ?thesis by simp
  next
    case False
    with r(4) have c': "cursor_ok c'" "expired_after now c' d = drop n ?E" "n \<le> length ?E" by auto
    then have "length (expired_after now c' d) < k" using r(2) Suc.prems(2) by simp
    from Suc.IH [OF c'(1) this] c'(2) obtain more where m: "sweeps p now ticks snap k c' = observed (drop n ?E) @ more" by auto
    have "observed (take n ?E) @ observed (drop n ?E) = observed ?E"
      by (simp only: observed_append(1) [symmetric] append_take_drop_id)
    with r(1,3) m show ?thesis by (metis append.assoc old.prod.case sum.case(2) sweeps.simps(2))
  qed
qed simp

text \<open>
  C24. The scanner loses no stale lease. On a database at rest and with time enough for each sweep,
  successive sweeps from a fresh scanner observe every expired lease, in the order of expiry and
  identifier and each once, before any is observed again; the number of sweeps needed is at most one more than the
  number of expired leases.
\<close>

theorem sweeps_observe_every_expired_lease:
  assumes "at_rest p now ticks snap d" "length (filter (expired_owned now) (executions d)) < k"
  shows "\<exists>more. sweeps p now ticks snap k None =
    observed (sort_key lease_key (filter (expired_owned now) (executions d))) @ more"
  using sweeps_cover [OF assms(1), of None k] assms(2) by (simp add: expired_after_def cursor_ok_def)

text \<open>
  C25. A sweep is bounded. Whatever the clock reads, whatever is written between its pages and however
  often a read times out, a sweep under an accepted policy returns, with at most the allowed number
  of pages and rows, and leaves a cursor the next sweep can use.
\<close>

theorem sweep_is_bounded:
  assumes "new_scan_policy page_size max_pages max_rows max_duration = Inr p" "utcoffset now = Some 0" "cursor_ok c"
    and "\<forall>n d. snap n = Some d \<longrightarrow> executions_ok d \<and> (\<forall>e \<in> set (executions d). exe_id e \<noteq> [])"
  shows "\<exists>res c'. scan_once p now ticks snap c = Inr (res, c') \<and> cursor_ok c' \<and>
    sr_pages_fetched res \<le> max_pages \<and>
    int (length (sr_observations res)) + int (length (sr_observation_errors res)) \<le> max_rows"
proof -
  have p: "scan_policy_ok p" "sp_max_pages p = max_pages" "sp_max_rows p = max_rows"
    using assms(1) by (auto simp: new_scan_policy_def requireR_def scan_policy_ok_def MAX_STALE_LEASE_SCAN_PAGE_SIZE_def split: if_splits)
  have sc: "\<forall>n d. snap n = Some d \<longrightarrow> (\<forall>e \<in> set (executions d). expired_owned now e \<longrightarrow> scannable e)"
    using assms(4) by (fastforce simp: executions_ok_def scannable_def expired_owned_def expiry_is_def split: option.splits)
  let ?w = "\<lparr>sw_pages_fetched = 0, sw_rows_returned = 0, sw_after = c, sw_last = None, sw_observations = [], sw_errors = []\<rparr>"
  have "\<exists>w' stop. scan_loop p now ticks snap ?w = Inr (w', stop) \<and> cursor_ok (sw_last w') \<and>
    sw_pages_fetched w' \<le> sp_max_pages p \<and> int (length (sw_observations w')) + int (length (sw_errors w')) \<le> sp_max_rows p"
    by (rule scan_loop_bounded [OF p(1) assms(2) sc]) (use p(1) assms(3) in \<open>auto simp: cursor_ok_def scan_policy_ok_def\<close>)
  then obtain w' stop where w': "scan_loop p now ticks snap ?w = Inr (w', stop)" "cursor_ok (sw_last w')"
    "sw_pages_fetched w' \<le> max_pages" "int (length (sw_observations w')) + int (length (sw_errors w')) \<le> max_rows"
    by (auto simp: p)
  have "cursor_ok (next_cursor c w' stop)" using w'(2) assms(3) by (auto simp: next_cursor_def cursor_ok_def split: option.splits)
  with w' assms(2) show ?thesis by (simp add: scan_once_def aware_utc_def ofOption_def requireR_def)
qed

end
