(* ===== verification/Sample_Execution.thy ===== *)
theory Sample_Execution
  imports Lease_Scanner Sample_Task
begin

text \<open>
  A run of the lease operations on a concrete database: an execution owned by \<open>i1\<close> under generation 5
  is created, its owner gives the lease back, and another process acquires it. The conditional
  theorems of \<open>Execution_Lease\<close> are applied to this run, and those of \<open>Lease_Scanner\<close> to a sweep that finds
  the lease of \<open>i1\<close> after it has expired.
\<close>

definition lx_db :: db where
  "lx_db = tx_db\<lparr>executions := [tx_execution]\<rparr>"

definition lx_free :: execution_row where
  "lx_free = tx_execution\<lparr>exe_owner_instance_id := None, exe_lease_expires_at := None\<rparr>"

definition lx_released :: db where
  "lx_released = tx_db\<lparr>executions := [lx_free]\<rparr>"

definition lx_taken :: execution_row where
  "lx_taken = tx_execution\<lparr>exe_owner_instance_id := Some ''i2'', exe_lease_expires_at := Some (PyDT 9000 (Some 0)),
     exe_lease_generation := 6\<rparr>"

definition lx_acquired :: db where
  "lx_acquired = tx_db\<lparr>executions := [lx_taken]\<rparr>"

lemmas lx_defs = lx_db_def lx_released_def lx_acquired_def lx_free_def lx_taken_def tx_execution_def

lemma tx_no_executions [simp]: "executions tx_db = []"
  by (simp add: tx_db_def mx_db_def)

lemma lx_strip [simp]: "py_strip ''i1'' = ''i1''" "py_strip ''i2'' = ''i2''"
  by (simp_all add: py_strip_def is_blank_def)

lemma lx_insert: "insert_execution tx_execution tx_db = Inr (tx_execution, lx_db)"
  by (simp add: insert_execution_def lx_defs execution_row_ok_def record_utc_def requireR_def Let_def)

lemma lx_release: "release_execution_lease ''e1'' ''i1'' 5 lx_db = Inr (Some lx_free, lx_released)"
  by (simp add: lease_ops_def update_execution_where_def lx_defs held_by_def execution_row_ok_def get_execution_def requireR_def)

lemma lx_acquire: "acquire_execution_lease ''e1'' ''i2'' (PyDT 6000 (Some 0)) (PyDT 9000 (Some 0)) lx_released = Inr (Some lx_taken, lx_acquired)"
  by (simp add: lease_ops_def update_execution_where_def lx_defs execution_row_ok_def get_execution_def record_utc_def requireR_def)

lemma lx_ok: "executions_ok lx_db" "executions_ok lx_released"
  by (simp_all add: executions_ok_def execution_keys_def execution_row_ok_def lx_defs)

lemma lx_run: "any_execution_step\<^sup>*\<^sup>* lx_released lx_acquired"
  using execution_step.step_acquire [OF lx_acquire] by (intro r_into_rtranclp) (auto simp: any_execution_step_def)

theorem lost_lease_is_fenced_witness:
  "store_compare_and_set_execution (\<lambda>_. PyDT 6500 (Some 0)) ''e1'' 1 [V_state ''COMPLETED'']
     (Some \<lparr>rf_owner_instance_id = Some ''i1'', rf_lease_generation = Some 5, rf_lease_expires_at = Some (PyDT 9000 (Some 0))\<rparr>)
     lx_acquired = Inl ExecutionConflictError \<and>
   has_active_execution_lease_fence ''e1'' ''i1'' 5 (PyDT 6500 (Some 0)) None lx_acquired \<noteq> Inr True"
proof -
  have g: "get_execution lx_released ''e1'' = Some lx_free" and l: "lease_lost 5 lx_free"
    by (simp_all add: get_execution_def lease_lost_def lx_defs)
  from lost_lease_is_fenced [OF lx_ok(2) g l lx_run,
      of "\<lparr>rf_owner_instance_id = Some ''i1'', rf_lease_generation = Some 5, rf_lease_expires_at = Some (PyDT 9000 (Some 0))\<rparr>"]
  show ?thesis by simp
qed

theorem unexpired_lease_protected_witness:
  "\<exists>e'. get_execution lx_released ''e1'' = Some e' \<and> lease_lost 5 e'"
proof -
  have g: "get_execution lx_db ''e1'' = Some tx_execution" and o: "exe_owner_instance_id tx_execution = Some ''i1''"
    and x: "exe_lease_expires_at tx_execution = Some (PyDT 5000 (Some 0))"
    by (simp_all add: get_execution_def lx_defs)
  from unexpired_lease_protected [OF lx_ok(1) execution_step.step_release [OF lx_release] g o x]
  have "\<exists>e'. get_execution lx_released ''e1'' = Some e' \<and>
      (exe_owner_instance_id e' = Some ''i1'' \<or> lease_lost (exe_lease_generation tx_execution) e')" by blast
  then show ?thesis by (auto simp: get_execution_def lx_defs)
qed

theorem stored_lease_well_typed_witness:
  "validate_lease_representation (Some ''i1'') (Some (PyDT 5000 (Some 0))) 5 = Inr (Some (PyDT 5000 (Some 0)))"
proof -
  have "reach (\<lambda>d. executions d = []) any_execution_step lx_db"
    using execution_step.step_insert [OF lx_insert] by (intro reach_step [OF reach_init]) (auto simp: any_execution_step_def)
  from stored_lease_well_typed [OF this, of tx_execution] show ?thesis by (simp add: lx_defs)
qed

definition lx_policy :: scan_policy where
  "lx_policy = \<lparr>sp_page_size = 1, sp_max_pages = 1, sp_max_rows = 5, sp_max_duration_seconds = 5\<rparr>"

lemma lx_expired: "filter (expired_owned (PyDT 6000 (Some 0))) (executions lx_db) = [tx_execution]"
  by (simp add: lx_defs expired_owned_def expiry_is_def record_utc_def)

theorem sweeps_observe_every_expired_lease_witness:
  "\<exists>more. sweeps lx_policy (PyDT 6000 (Some 0)) (\<lambda>_. 0) (\<lambda>_. Some lx_db) 2 None =
     [\<lparr>so_execution_id = ''e1'', so_owner_instance_id = ''i1'', so_lease_generation = 5,
       so_lease_expires_at = PyDT 5000 (Some 0), so_state = ''RUNNING'', so_revision = 1\<rparr>] @ more"
proof -
  have r: "at_rest lx_policy (PyDT 6000 (Some 0)) (\<lambda>_. 0) (\<lambda>_. Some lx_db) lx_db"
    by (simp add: at_rest_def lx_policy_def scan_policy_ok_def execution_keys_def scannable_def lx_defs)
  have "observed [tx_execution] =
     [\<lparr>so_execution_id = ''e1'', so_owner_instance_id = ''i1'', so_lease_generation = 5,
       so_lease_expires_at = PyDT 5000 (Some 0), so_state = ''RUNNING'', so_revision = 1\<rparr>]"
    by (simp add: observed_def from_record_def tx_execution_def aware_utc_def ofOption_def requireR_def or_empty_def)
  with sweeps_observe_every_expired_lease [OF r, of 2] show ?thesis by (simp add: lx_expired)
qed

theorem sweep_is_bounded_witness:
  "\<exists>res c'. scan_once lx_policy (PyDT 6000 (Some 0)) (\<lambda>n. if n = 0 then 0 else 1)
      (\<lambda>n. if n = 0 then Some lx_db else None) None = Inr (res, c') \<and> cursor_ok c' \<and> sr_pages_fetched res \<le> 1 \<and>
    int (length (sr_observations res)) + int (length (sr_observation_errors res)) \<le> 5"
proof (rule sweep_is_bounded)
  show "new_scan_policy 1 1 5 5 = Inr lx_policy"
    by (simp add: new_scan_policy_def lx_policy_def requireR_def MAX_STALE_LEASE_SCAN_PAGE_SIZE_def)
  show "utcoffset (PyDT 6000 (Some 0)) = Some 0" "cursor_ok None" by (simp_all add: cursor_ok_def)
  show "\<forall>n d. (if n = 0 then Some lx_db else None) = Some d \<longrightarrow> executions_ok d \<and> (\<forall>e \<in> set (executions d). exe_id e \<noteq> [])"
    using lx_ok(1) by (simp add: lx_defs)
qed

end
