(* ===== verification/Circuit_Breaker.thy ===== *)
theory Circuit_Breaker
  imports PyValues Complex_Main
begin

text \<open>
  The provider circuit breaker (\<open>src/se/src/circuit_breaker.py\<close>) as a state machine. Every method
  runs without suspending once it holds the state lock, so a method is one step. The monotonic clock
  is an argument, a rational number of seconds; the asyncio lock of the half-open trial is the flag
  \<open>cb_half_open_lock\<close>.
\<close>

section \<open>The breaker\<close>

datatype circuit_state = CB_OPEN | CB_HALF_OPEN | CB_CLOSED

datatype cb_error = CircuitBreakerOpenError

record breaker_metrics =
  open_transitions :: int
  reopen_transitions :: int
  half_open_transitions :: int
  close_transitions :: int
  blocked_requests :: int
  half_open_trials :: int

record breaker =
  cb_provider_name :: string
  cb_failure_threshold :: int
  cb_reset_timeout :: int
  cb_success_threshold :: int
  cb_state :: circuit_state
  cb_failure_count :: int
  cb_success_count :: int
  cb_last_failure_time :: rat
  cb_metrics :: breaker_metrics
  cb_half_open_lock :: bool

definition new_breaker :: "string \<Rightarrow> int \<Rightarrow> int \<Rightarrow> int \<Rightarrow> breaker" where
  "new_breaker name failures timeout successes =
     \<lparr>cb_provider_name = name, cb_failure_threshold = failures, cb_reset_timeout = timeout,
      cb_success_threshold = successes, cb_state = CB_CLOSED, cb_failure_count = 0, cb_success_count = 0,
      cb_last_failure_time = 0,
      cb_metrics = \<lparr>open_transitions = 0, reopen_transitions = 0, half_open_transitions = 0, close_transitions = 0,
                    blocked_requests = 0, half_open_trials = 0\<rparr>,
      cb_half_open_lock = False\<rparr>"

definition count_blocked :: "breaker \<Rightarrow> breaker" where
  "count_blocked b = b\<lparr>cb_metrics := (cb_metrics b)\<lparr>blocked_requests := blocked_requests (cb_metrics b) + 1\<rparr>\<rparr>"

definition is_reset_timeout_expired :: "rat \<Rightarrow> breaker \<Rightarrow> bool" where
  "is_reset_timeout_expired now b \<longleftrightarrow> of_int (cb_reset_timeout b) < now - cb_last_failure_time b"

definition read_state :: "rat \<Rightarrow> breaker \<Rightarrow> circuit_state \<times> breaker" where
  "read_state now b =
     (if cb_state b = CB_OPEN \<and> is_reset_timeout_expired now b
      then (CB_HALF_OPEN,
            b\<lparr>cb_state := CB_HALF_OPEN, cb_success_count := 0,
              cb_metrics := (cb_metrics b)\<lparr>half_open_transitions := half_open_transitions (cb_metrics b) + 1\<rparr>\<rparr>)
      else (cb_state b, b))"

definition before_request :: "rat \<Rightarrow> breaker \<Rightarrow> (cb_error + unit) \<times> breaker" where
  "before_request now b =
     (case read_state now b of
        (CB_OPEN, b) \<Rightarrow> (Inl CircuitBreakerOpenError, count_blocked b)
      | (CB_HALF_OPEN, b) \<Rightarrow>
          (if \<not> cb_half_open_lock b then (Inr (), count_blocked (b\<lparr>cb_half_open_lock := True\<rparr>))
           else (Inl CircuitBreakerOpenError, b))
      | (CB_CLOSED, b) \<Rightarrow> (Inr (), b))"

definition on_success :: "breaker \<Rightarrow> breaker" where
  "on_success b =
     (case cb_state b of
        CB_HALF_OPEN \<Rightarrow>
          (let b = b\<lparr>cb_success_count := cb_success_count b + 1\<rparr> in
           if cb_success_threshold b \<le> cb_success_count b
           then (count_blocked (b\<lparr>cb_state := CB_CLOSED\<rparr>))
                  \<lparr>cb_failure_count := 0, cb_success_count := 0, cb_half_open_lock := False\<rparr>
           else b)
      | CB_CLOSED \<Rightarrow> b\<lparr>cb_failure_count := 0\<rparr>
      | CB_OPEN \<Rightarrow> b)"

definition on_failure :: "rat \<Rightarrow> breaker \<Rightarrow> breaker" where
  "on_failure now b =
     (case cb_state b of
        CB_HALF_OPEN \<Rightarrow>
          (count_blocked (b\<lparr>cb_state := CB_OPEN\<rparr>))\<lparr>cb_last_failure_time := now, cb_half_open_lock := False\<rparr>
      | CB_CLOSED \<Rightarrow>
          (let b = b\<lparr>cb_failure_count := cb_failure_count b + 1\<rparr> in
           if cb_failure_threshold b \<le> cb_failure_count b
           then (count_blocked (b\<lparr>cb_state := CB_OPEN\<rparr>))\<lparr>cb_last_failure_time := now\<rparr>
           else b)
      | CB_OPEN \<Rightarrow> b)"

definition is_open :: "rat \<Rightarrow> breaker \<Rightarrow> bool \<times> breaker" where
  "is_open now b = (case read_state now b of (st, b) \<Rightarrow> (st = CB_OPEN, b))"

text \<open>What the executor does with a trial that never reached the provider.\<close>

definition release_half_open_probe :: "bool \<Rightarrow> breaker \<Rightarrow> breaker" where
  "release_half_open_probe probe_acquired b =
     (if \<not> probe_acquired then b
      else if cb_state b \<noteq> CB_HALF_OPEN then b
      else b\<lparr>cb_half_open_lock := False\<rparr>)"

section \<open>The manager\<close>

record breaker_settings =
  bs_failure_threshold :: int
  bs_reset_timeout :: int
  bs_success_threshold :: int

record circuit_breaker_settings =
  cbs_default :: breaker_settings
  cbs_providers :: "(string \<times> breaker_settings) list"

type_synonym breakers = "(string \<times> breaker) list"

definition get_breaker :: "circuit_breaker_settings \<Rightarrow> string \<Rightarrow> breakers \<Rightarrow> breaker \<times> breakers" where
  "get_breaker config name bs =
     (case dict_get bs name of
        Some b \<Rightarrow> (b, bs)
      | None \<Rightarrow>
          (let s = (case dict_get (cbs_providers config) name of None \<Rightarrow> cbs_default config | Some s \<Rightarrow> s);
               b = new_breaker name (bs_failure_threshold s) (bs_reset_timeout s) (bs_success_threshold s)
           in (b, dict_set name b bs)))"

record breaker_status =
  st_state :: circuit_state
  st_failure_count :: int
  st_success_count :: int
  st_last_failure_time :: rat

definition get_all_statuses :: "breakers \<Rightarrow> (string \<times> breaker_status) list" where
  "get_all_statuses bs =
     map (\<lambda>(name, b). (name, \<lparr>st_state = cb_state b, st_failure_count = cb_failure_count b,
                              st_success_count = cb_success_count b, st_last_failure_time = cb_last_failure_time b\<rparr>)) bs"

section \<open>Runs\<close>

text \<open>Calls of one breaker in any order: several requests may be in flight at once.\<close>

inductive cb_step :: "breaker \<Rightarrow> breaker \<Rightarrow> bool" where
  step_request: "cb_step b (snd (before_request now b))"
| step_success: "cb_step b (on_success b)"
| step_failure: "cb_step b (on_failure now b)"
| step_probe: "cb_step b (snd (is_open now b))"
| step_release: "cb_step b (release_half_open_probe acquired b)"

inductive_cases cb_stepE: "cb_step b b'"

definition breaker_ok :: "breaker \<Rightarrow> bool" where
  "breaker_ok b \<longleftrightarrow>
     0 \<le> cb_failure_count b \<and> 0 \<le> cb_success_count b \<and>
     (cb_half_open_lock b \<longrightarrow> cb_state b = CB_HALF_OPEN) \<and>
     (cb_state b = CB_CLOSED \<and> 0 < cb_failure_threshold b \<longrightarrow> cb_failure_count b < cb_failure_threshold b) \<and>
     (cb_state b = CB_HALF_OPEN \<and> 0 < cb_success_threshold b \<longrightarrow> cb_success_count b < cb_success_threshold b)"

definition idle_metrics :: "breaker \<Rightarrow> bool" where
  "idle_metrics b \<longleftrightarrow>
     open_transitions (cb_metrics b) = 0 \<and> reopen_transitions (cb_metrics b) = 0 \<and>
     close_transitions (cb_metrics b) = 0 \<and> half_open_trials (cb_metrics b) = 0"

lemmas cb_defs = before_request_def read_state_def on_success_def on_failure_def is_open_def release_half_open_probe_def
  count_blocked_def Let_def

lemma cb_step_ok: "cb_step b b' \<Longrightarrow> breaker_ok b \<Longrightarrow> breaker_ok b'"
  by (erule cb_stepE) (auto simp: cb_defs breaker_ok_def split: circuit_state.splits if_splits)

lemma cb_step_metrics: "cb_step b b' \<Longrightarrow> idle_metrics b \<Longrightarrow> idle_metrics b'"
  by (erule cb_stepE) (auto simp: cb_defs idle_metrics_def split: circuit_state.splits if_splits)

lemma cb_step_settings:
  "cb_step b b' \<Longrightarrow> cb_failure_threshold b' = cb_failure_threshold b \<and> cb_reset_timeout b' = cb_reset_timeout b \<and>
   cb_success_threshold b' = cb_success_threshold b \<and> cb_provider_name b' = cb_provider_name b"
  by (erule cb_stepE) (auto simp: cb_defs split: circuit_state.splits if_splits)

text \<open>Reads of the state and requests, which are what callers can do without finishing a request.\<close>

inductive cb_ask :: "breaker \<Rightarrow> breaker \<Rightarrow> bool" where
  ask_request: "cb_ask b (snd (before_request now b))"
| ask_probe: "cb_ask b (snd (is_open now b))"

lemma cb_ask_trial:
  assumes "cb_ask\<^sup>*\<^sup>* b b'" "cb_state b = CB_HALF_OPEN" "cb_half_open_lock b"
  shows "b' = b"
  using assms
proof (induction rule: rtranclp_induct)
  case (step x y)
  then have "x = b" by simp
  with step(2) assms(2,3) show ?case by (auto simp: cb_defs elim!: cb_ask.cases)
qed simp

section \<open>Properties\<close>

definition cb_sample :: breaker where
  "cb_sample = on_failure 5 (new_breaker ''p'' 1 10 1)"



lemma on_failure_closed:
  assumes "cb_state b = CB_CLOSED"
  shows "cb_failure_threshold b \<le> cb_failure_count b + 1 \<Longrightarrow> cb_state (on_failure t b) = CB_OPEN"
    "\<not> cb_failure_threshold b \<le> cb_failure_count b + 1 \<Longrightarrow> on_failure t b = b\<lparr>cb_failure_count := cb_failure_count b + 1\<rparr>"
  using assms by (simp_all add: on_failure_def Let_def count_blocked_def)

text \<open>
  C29. Failures in a row open the circuit exactly at the threshold: after any number of consecutive
  failures of a new breaker, at any times, the circuit is open if and only if that number has
  reached the threshold.
\<close>

theorem opens_at_threshold:
  assumes "0 < failures"
  shows "cb_state (fold on_failure ts (new_breaker name failures timeout successes)) =
    (if int (length ts) < failures then CB_CLOSED else CB_OPEN)"
proof -
  have open_stays: "cb_state (fold on_failure ts b) = CB_OPEN" if "cb_state b = CB_OPEN" for ts b
    using that by (induction ts arbitrary: b) (auto simp: on_failure_def)
  have "cb_state (fold on_failure ts b) =
      (if int (length ts) < cb_failure_threshold b - cb_failure_count b then CB_CLOSED else CB_OPEN)"
    if "cb_state b = CB_CLOSED" "cb_failure_count b < cb_failure_threshold b" for ts b
    using that
  proof (induction ts arbitrary: b)
    case (Cons t ts)
    then show ?case
      by (cases "cb_failure_threshold b \<le> cb_failure_count b + 1") (auto simp: on_failure_closed open_stays)
  qed simp
  from this [of "new_breaker name failures timeout successes" ts] assms show ?thesis
    by (simp add: new_breaker_def)
qed

theorem opens_at_threshold_witness:
  "cb_state (fold on_failure [1, 2, 3] (new_breaker ''p'' 3 10 1)) = CB_OPEN"
  by (subst opens_at_threshold) simp_all

text \<open>
  C30. One trial at a time: once a request has been admitted in the half-open state, every further
  request is refused, whatever the clock says and however often callers ask, until a request
  finishes.
\<close>

theorem one_trial_at_a_time:
  assumes "before_request now b = (Inr (), b1)" "cb_state b1 = CB_HALF_OPEN" "cb_ask\<^sup>*\<^sup>* b1 b2"
  shows "fst (before_request later b2) = Inl CircuitBreakerOpenError"
proof -
  have lock: "cb_half_open_lock b1"
    using assms(1,2) by (auto simp: cb_defs split: circuit_state.splits if_splits)
  with cb_ask_trial [OF assms(3,2)] have "b2 = b1" by simp
  with assms(2) lock show ?thesis by (simp add: before_request_def read_state_def)
qed

theorem one_trial_at_a_time_witness:
  "fst (before_request 100 (snd (before_request 16 cb_sample))) = Inl CircuitBreakerOpenError"
proof (rule one_trial_at_a_time)
  show "before_request 16 cb_sample = (Inr (), snd (before_request 16 cb_sample))"
    by (simp add: cb_sample_def cb_defs new_breaker_def is_reset_timeout_expired_def)
  show "cb_state (snd (before_request 16 cb_sample)) = CB_HALF_OPEN"
    by (simp add: cb_sample_def cb_defs new_breaker_def is_reset_timeout_expired_def)
qed simp

text \<open>
  C31. An open circuit recovers: with a success threshold of at most one, the first request after the
  reset timeout is admitted and its success closes the circuit with the counters reset and the trial
  lock free.
\<close>

theorem open_circuit_recovers:
  assumes "breaker_ok b" "cb_state b = CB_OPEN" "cb_success_threshold b \<le> 1" "is_reset_timeout_expired now b"
  shows "\<exists>b1. before_request now b = (Inr (), b1) \<and> cb_state (on_success b1) = CB_CLOSED \<and>
    cb_failure_count (on_success b1) = 0 \<and> \<not> cb_half_open_lock (on_success b1)"
  using assms by (auto simp: cb_defs breaker_ok_def)

theorem open_circuit_recovers_witness:
  "\<exists>b1. before_request 16 cb_sample = (Inr (), b1) \<and> cb_state (on_success b1) = CB_CLOSED"
proof -
  have "breaker_ok cb_sample" "cb_state cb_sample = CB_OPEN" "cb_success_threshold cb_sample \<le> 1"
    "is_reset_timeout_expired 16 cb_sample"
    by (simp_all add: cb_sample_def cb_defs new_breaker_def breaker_ok_def is_reset_timeout_expired_def)
  from open_circuit_recovers [OF this] show ?thesis by blast
qed

text \<open>
  C32. With a success threshold above one the breaker wedges: the first successful trial does not
  release the trial lock, so the circuit stays half open and every later request is refused at any
  time.
\<close>

theorem higher_success_threshold_wedges:
  assumes "breaker_ok b" "cb_state b = CB_OPEN" "1 < cb_success_threshold b" "before_request now b = (Inr (), b1)"
    and "cb_ask\<^sup>*\<^sup>* (on_success b1) b2"
  shows "cb_state b2 = CB_HALF_OPEN \<and> fst (before_request later b2) = Inl CircuitBreakerOpenError"
proof -
  have "cb_state (on_success b1) = CB_HALF_OPEN" "cb_half_open_lock (on_success b1)"
    using assms(1-4) by (auto simp: cb_defs breaker_ok_def split: if_splits)
  with cb_ask_trial [OF assms(5)] show ?thesis by (simp add: before_request_def read_state_def)
qed

theorem higher_success_threshold_wedges_witness:
  "fst (before_request 1000 (on_success (snd (before_request 16 (on_failure 5 (new_breaker ''p'' 1 10 2)))))) =
     Inl CircuitBreakerOpenError"
proof -
  let ?b = "on_failure 5 (new_breaker ''p'' 1 10 2)"
  have "breaker_ok ?b" "cb_state ?b = CB_OPEN" "1 < cb_success_threshold ?b"
    "before_request 16 ?b = (Inr (), snd (before_request 16 ?b))"
    by (simp_all add: cb_defs new_breaker_def breaker_ok_def is_reset_timeout_expired_def)
  from higher_success_threshold_wedges [OF this rtranclp.rtrancl_refl] show ?thesis by blast
qed

text \<open>
  C33. The transition counters are not maintained: in every reachable state the counters of opening,
  reopening, closing and trials are zero, because each of these events increments
  \<open>blocked_requests\<close> instead.
\<close>

theorem transition_metrics_stay_zero:
  assumes "cb_step\<^sup>*\<^sup>* (new_breaker name failures timeout successes) b"
  shows "idle_metrics b"
  using assms
proof (induction rule: rtranclp_induct)
  case base
  show ?case by (simp add: new_breaker_def idle_metrics_def)
qed (rule cb_step_metrics)

theorem transition_metrics_stay_zero_witness:
  "idle_metrics cb_sample \<and> cb_state cb_sample = CB_OPEN \<and> blocked_requests (cb_metrics cb_sample) = 1"
  using transition_metrics_stay_zero [OF r_into_rtranclp [of cb_step, OF step_failure [of "new_breaker ''p'' 1 10 1" 5]]]
  by (simp add: cb_sample_def cb_defs new_breaker_def)

end
