(* ===== verification/Provider_Retry.thy ===== *)
theory Provider_Retry
  imports Prelude Complex_Main
begin

text \<open>
  Provider retries: the logical call budget (\<open>src/se/src/provider/retry_contracts.py\<close>), the
  normalisation of failures (\<open>src/se/src/provider/exceptions.py\<close>) and the retry policy
  (\<open>src/se/src/provider/policies/retry.py\<close>). Seconds are rational numbers. The provider, the
  monotonic clock and the random jitter are streams that the loops read in the order the code
  does; a loop returns its result, the budget it leaves and the number of calls it made.
\<close>

section \<open>Failures\<close>

datatype provider_error_kind =
    ProviderError | ProviderFallbackExhaustedError | ProviderAuthenticationError | ProviderRateLimitError
  | ProviderUnavailableError | ProviderModelUnavailableError | ResponseValidationError | ProviderDeadlineExceededError

record provider_error =
  pe_kind :: provider_error_kind
  pe_status_code :: "int option"
  pe_is_network_error :: bool
  pe_retry_after_seconds :: "rat option"

text \<open>
  An HTTP response: its status and what \<open>parse_retry_after_hint\<close> and
  \<open>parse_google_rpc_retry_info_hint\<close> read from its header and body.
\<close>

record http_response =
  rs_status_code :: int
  rs_retry_after_hint :: "rat option"
  rs_retry_info_hint :: "rat option"

datatype raised =
    TimeoutException | ConnectError | RequestError
  | HTTPStatusError http_response
  | Provider provider_error
  | CircuitBreakerOpen
  | OtherException

definition extract_rate_limit_retry_hint :: "http_response \<Rightarrow> rat option" where
  "extract_rate_limit_retry_hint r =
     (if rs_status_code r \<noteq> 429 then None
      else case (rs_retry_after_hint r, rs_retry_info_hint r) of
        (Some a, Some b) \<Rightarrow> Some (max a b)
      | (Some a, None) \<Rightarrow> Some a
      | (None, m) \<Rightarrow> m)"

definition status_error :: "provider_error_kind \<Rightarrow> int \<Rightarrow> rat option \<Rightarrow> provider_error" where
  "status_error kind status hint =
     \<lparr>pe_kind = kind, pe_status_code = Some status, pe_is_network_error = False, pe_retry_after_seconds = hint\<rparr>"

definition wrap_provider_exception :: "raised \<Rightarrow> provider_error" where
  "wrap_provider_exception e =
     (case e of
        Provider p \<Rightarrow> p
      | HTTPStatusError r \<Rightarrow>
          (let status = rs_status_code r in
           if status \<in> {401, 403} then status_error ProviderAuthenticationError status None
           else if status = 429 then status_error ProviderRateLimitError status (extract_rate_limit_retry_hint r)
           else if status = 408 \<or> 500 \<le> status \<and> status < 600 then status_error ProviderUnavailableError status None
           else status_error ProviderError status None)
      | OtherException \<Rightarrow>
          \<lparr>pe_kind = ProviderError, pe_status_code = None, pe_is_network_error = False, pe_retry_after_seconds = None\<rparr>
      | CircuitBreakerOpen \<Rightarrow>
          \<lparr>pe_kind = ProviderError, pe_status_code = None, pe_is_network_error = False, pe_retry_after_seconds = None\<rparr>
      | _ \<Rightarrow>
          \<lparr>pe_kind = ProviderUnavailableError, pe_status_code = None, pe_is_network_error = True, pe_retry_after_seconds = None\<rparr>)"

definition is_retryable :: "raised \<Rightarrow> bool" where
  "is_retryable e =
     (case e of
        TimeoutException \<Rightarrow> True
      | ConnectError \<Rightarrow> True
      | Provider p \<Rightarrow> pe_kind p \<in> {ProviderRateLimitError, ProviderUnavailableError}
      | HTTPStatusError r \<Rightarrow> rs_status_code r = 429 \<or> 500 \<le> rs_status_code r \<and> rs_status_code r < 600
      | _ \<Rightarrow> False)"

definition normalize_error :: "raised \<Rightarrow> raised" where
  "normalize_error e =
     (case e of CircuitBreakerOpen \<Rightarrow> e | OtherException \<Rightarrow> e | _ \<Rightarrow> Provider (wrap_provider_exception e))"

definition legacy_retryable :: "raised \<Rightarrow> raised \<Rightarrow> bool" where
  "legacy_retryable raw normalized =
     (case raw of
        HTTPStatusError r \<Rightarrow> rs_status_code r = 429 \<or> 500 \<le> rs_status_code r \<and> rs_status_code r < 600
      | TimeoutException \<Rightarrow> True
      | ConnectError \<Rightarrow> True
      | RequestError \<Rightarrow> False
      | _ \<Rightarrow> is_retryable normalized)"

definition retry_after :: "raised \<Rightarrow> rat option" where
  "retry_after e = (case e of Provider p \<Rightarrow> pe_retry_after_seconds p | _ \<Rightarrow> None)"

definition deadline_exceeded :: raised where
  "deadline_exceeded = Provider \<lparr>pe_kind = ProviderDeadlineExceededError, pe_status_code = None, pe_is_network_error = False,
     pe_retry_after_seconds = None\<rparr>"

section \<open>The call budget\<close>

datatype budget_error = BudgetValueError

record call_budget =
  cg_deadline :: rat
  cg_max_retries :: int
  cg_retries_used :: int

definition new_call_budget :: "rat \<Rightarrow> int \<Rightarrow> budget_error + call_budget" where
  "new_call_budget deadline retries =
     bindR (requireR (0 \<le> retries) BudgetValueError) (\<lambda>_.
     Inr \<lparr>cg_deadline = deadline, cg_max_retries = retries, cg_retries_used = 0\<rparr>)"

definition budget_from_timeout :: "rat \<Rightarrow> rat \<Rightarrow> int \<Rightarrow> budget_error + call_budget" where
  "budget_from_timeout now timeout retries =
     bindR (requireR (0 < timeout) BudgetValueError) (\<lambda>_. new_call_budget (now + timeout) retries)"

definition retries_remaining :: "call_budget \<Rightarrow> int" where
  "retries_remaining b = cg_max_retries b - cg_retries_used b"

definition remaining_seconds :: "call_budget \<Rightarrow> rat \<Rightarrow> rat" where
  "remaining_seconds b now = max 0 (cg_deadline b - now)"

definition try_consume_retry :: "call_budget \<Rightarrow> bool \<times> call_budget" where
  "try_consume_retry b =
     (if cg_max_retries b \<le> cg_retries_used b then (False, b)
      else (True, b\<lparr>cg_retries_used := cg_retries_used b + 1\<rparr>))"

section \<open>The loops\<close>

fun apply_legacy :: "(nat \<Rightarrow> raised + 'a) \<Rightarrow> int \<Rightarrow> nat \<Rightarrow> nat \<Rightarrow> (raised + 'a option) \<times> nat" where
  "apply_legacy exec retries i 0 = (Inr None, i)"
| "apply_legacy exec retries i (Suc n) =
     (case exec i of
        Inr v \<Rightarrow> (Inr (Some v), Suc i)
      | Inl raw \<Rightarrow>
          (let e = normalize_error raw in
           if \<not> legacy_retryable raw e \<or> retries \<le> int i then (Inl e, Suc i)
           else apply_legacy exec retries (Suc i) n))"

function apply_budgeted :: "(nat \<Rightarrow> raised + 'a) \<Rightarrow> (nat \<Rightarrow> rat) \<Rightarrow> (nat \<Rightarrow> rat) \<Rightarrow> nat \<Rightarrow> call_budget \<Rightarrow>
    (raised + 'a) \<times> call_budget \<times> nat" where
  "apply_budgeted exec clock jitter i b =
     (if remaining_seconds b (clock (3 * i)) \<le> 0 then (Inl deadline_exceeded, b, i)
      else case exec i of
        Inr v \<Rightarrow> (Inr v, b, Suc i)
      | Inl raw \<Rightarrow>
          (let e = normalize_error raw in
           if \<not> legacy_retryable raw e then (Inl e, b, Suc i)
           else if retries_remaining b \<le> 0 then (Inl e, b, Suc i)
           else
             let delay = max (2 ^ i + jitter i) (case retry_after e of None \<Rightarrow> 0 | Some s \<Rightarrow> s);
                 remaining = remaining_seconds b (clock (3 * i + 1))
             in if remaining \<le> 0 \<or> remaining \<le> delay then (Inl e, b, Suc i)
                else if remaining_seconds b (clock (3 * i + 2)) \<le> 0 then (Inl deadline_exceeded, b, Suc i)
                else if \<not> fst (try_consume_retry b) then (Inl e, b, Suc i)
                else apply_budgeted exec clock jitter (Suc i) (snd (try_consume_retry b))))"
  by pat_completeness auto

termination apply_budgeted
  by (relation "measure (\<lambda>(exec, clock, jitter, i, b). nat (retries_remaining b))")
    (auto simp: retries_remaining_def try_consume_retry_def)

definition apply_policy :: "int \<Rightarrow> (nat \<Rightarrow> raised + 'a) \<Rightarrow> (nat \<Rightarrow> rat) \<Rightarrow> (nat \<Rightarrow> rat) \<Rightarrow> call_budget option \<Rightarrow>
    (raised + 'a option) \<times> call_budget option \<times> nat" where
  "apply_policy retries exec clock jitter m =
     (case m of
        None \<Rightarrow> (case apply_legacy exec retries 0 (nat (retries + 1)) of (r, n) \<Rightarrow> (r, None, n))
      | Some b \<Rightarrow> (case apply_budgeted exec clock jitter 0 b of (r, b', n) \<Rightarrow> (map_sum id Some r, Some b', n)))"

declare apply_budgeted.simps [simp del]

section \<open>What a call within the budget did\<close>

text \<open>
  The calls of one run: each one started before the deadline, every one but the last failed with a
  retryable error, and each further call used one retry of the budget.
\<close>

definition budgeted_run :: "(nat \<Rightarrow> raised + 'a) \<Rightarrow> (nat \<Rightarrow> rat) \<Rightarrow> nat \<Rightarrow> call_budget \<Rightarrow> (raised + 'a) \<Rightarrow> call_budget \<Rightarrow> nat \<Rightarrow> bool" where
  "budgeted_run exec clock i b r b' n \<longleftrightarrow>
     i \<le> n \<and> int (n - i) \<le> 1 + (cg_retries_used b' - cg_retries_used b) \<and>
     cg_retries_used b' - cg_retries_used b \<le> int (n - i) \<and>
     cg_retries_used b \<le> cg_retries_used b' \<and> cg_retries_used b' \<le> max (cg_retries_used b) (cg_max_retries b) \<and>
     cg_max_retries b' = cg_max_retries b \<and> cg_deadline b' = cg_deadline b \<and>
     (\<forall>k. i \<le> k \<and> k < n \<longrightarrow> clock (3 * k) < cg_deadline b) \<and>
     (\<forall>k. i \<le> k \<and> Suc k < n \<longrightarrow> (\<exists>raw. exec k = Inl raw \<and> legacy_retryable raw (normalize_error raw))) \<and>
     (\<forall>v. r = Inr v \<longrightarrow> i < n \<and> exec (n - 1) = Inr v)"

lemma budgeted_run_next:
  assumes "budgeted_run exec clock (Suc i) (b\<lparr>cg_retries_used := cg_retries_used b + 1\<rparr>) r b' n"
    and "clock (3 * i) < cg_deadline b" "cg_retries_used b < cg_max_retries b"
    and "exec i = Inl raw" "legacy_retryable raw (normalize_error raw)"
  shows "budgeted_run exec clock i b r b' n"
proof -
  have "clock (3 * k) < cg_deadline b" if "i \<le> k" "k < n" for k
    using assms(1,2) that by (cases "k = i") (auto simp: budgeted_run_def)
  moreover have "\<exists>raw. exec k = Inl raw \<and> legacy_retryable raw (normalize_error raw)" if "i \<le> k" "Suc k < n" for k
    using assms(1,4,5) that by (cases "k = i") (auto simp: budgeted_run_def)
  ultimately show ?thesis using assms(1,3) by (auto simp: budgeted_run_def of_nat_diff)
qed

lemma apply_budgeted_run:
  "apply_budgeted exec clock jitter i b = (r, b', n) \<Longrightarrow> budgeted_run exec clock i b r b' n"
proof (induction "nat (retries_remaining b)" arbitrary: i b rule: less_induct)
  case less
  let ?b = "b\<lparr>cg_retries_used := cg_retries_used b + 1\<rparr>"
  have "(b' = b \<and> n = i \<and> r = Inl deadline_exceeded) \<or>
    (clock (3 * i) < cg_deadline b \<and> b' = b \<and> n = Suc i \<and> (\<forall>v. r = Inr v \<longrightarrow> exec i = Inr v)) \<or>
    (clock (3 * i) < cg_deadline b \<and> cg_retries_used b < cg_max_retries b \<and>
     (\<exists>raw. exec i = Inl raw \<and> legacy_retryable raw (normalize_error raw)) \<and>
     apply_budgeted exec clock jitter (Suc i) ?b = (r, b', n))"
    using less.prems
    by (subst (asm) apply_budgeted.simps)
      (auto simp: Let_def remaining_seconds_def try_consume_retry_def retries_remaining_def split: if_splits sum.splits)
  then show ?case
  proof (elim disjE conjE exE)
    fix raw assume n: "clock (3 * i) < cg_deadline b" "cg_retries_used b < cg_max_retries b" "exec i = Inl raw"
      "legacy_retryable raw (normalize_error raw)" "apply_budgeted exec clock jitter (Suc i) ?b = (r, b', n)"
    have "nat (retries_remaining ?b) < nat (retries_remaining b)" using n(2) by (simp add: retries_remaining_def)
    from less.hyps [OF this n(5)] n(1-4) show ?thesis by (rule budgeted_run_next)
  qed (auto simp: budgeted_run_def le_less_Suc_eq)
qed

lemma apply_legacy_calls:
  "apply_legacy exec retries i n = (r, m) \<Longrightarrow> m \<le> i + n \<and>
   (\<forall>k. i \<le> k \<and> Suc k < m \<longrightarrow> (\<exists>raw. exec k = Inl raw \<and> legacy_retryable raw (normalize_error raw)))"
proof (induction n arbitrary: i)
  case (Suc n)
  have "m = Suc i \<or> (\<exists>raw. exec i = Inl raw \<and> legacy_retryable raw (normalize_error raw)) \<and> apply_legacy exec retries (Suc i) n = (r, m)"
    using Suc.prems by (auto simp: Let_def split: sum.splits if_splits)
  then show ?case
  proof
    assume n: "(\<exists>raw. exec i = Inl raw \<and> legacy_retryable raw (normalize_error raw)) \<and> apply_legacy exec retries (Suc i) n = (r, m)"
    have "\<exists>raw. exec k = Inl raw \<and> legacy_retryable raw (normalize_error raw)" if "i \<le> k" "Suc k < m" for k
      using n Suc.IH [of "Suc i"] that by (cases "k = i") auto
    with n Suc.IH [of "Suc i"] show ?thesis by auto
  qed auto
qed auto

section \<open>Properties\<close>

text \<open>
  C27. The budgeted retry loop returns, and bounds what it does: it makes at most one call more than
  the retries the budget has left, no call starts at or after the deadline, every call that is
  followed by another failed with a retryable error, the budget never records more retries than its
  maximum, and a result is the result of the last call.
\<close>

theorem budgeted_retries_bounded:
  assumes "apply_budgeted exec clock jitter 0 b = (r, b', n)" "cg_retries_used b \<le> cg_max_retries b"
  shows "int n \<le> 1 + retries_remaining b \<and> cg_retries_used b' \<le> cg_max_retries b' \<and>
    (\<forall>k < n. clock (3 * k) < cg_deadline b) \<and>
    (\<forall>k. Suc k < n \<longrightarrow> (\<exists>raw. exec k = Inl raw \<and> legacy_retryable raw (normalize_error raw))) \<and>
    (case r of Inr v \<Rightarrow> 0 < n \<and> exec (n - 1) = Inr v | Inl _ \<Rightarrow> True)"
  using apply_budgeted_run [OF assms(1)] assms(2)
  by (auto simp: budgeted_run_def retries_remaining_def split: sum.split)

definition sample_exec :: "nat \<Rightarrow> raised + string" where
  "sample_exec k = (if k = 0 then Inl TimeoutException else Inr ''ok'')"

definition sample_budget :: call_budget where
  "sample_budget = \<lparr>cg_deadline = 10, cg_max_retries = 2, cg_retries_used = 0\<rparr>"

lemma sample_budgeted:
  "apply_budgeted sample_exec (\<lambda>k. of_nat k) (\<lambda>_. 1 / 2) 0 sample_budget =
     (Inr ''ok'', sample_budget\<lparr>cg_retries_used := 1\<rparr>, 2)"
  by (simp add: apply_budgeted.simps sample_exec_def sample_budget_def remaining_seconds_def normalize_error_def
      legacy_retryable_def retries_remaining_def retry_after_def wrap_provider_exception_def try_consume_retry_def Let_def)

theorem budgeted_retries_bounded_witness:
  "int 2 \<le> 1 + retries_remaining sample_budget \<and> sample_exec 1 = Inr ''ok''"
  using budgeted_retries_bounded [OF sample_budgeted] by (simp add: sample_budget_def)


definition sample_limited :: http_response where
  "sample_limited = \<lparr>rs_status_code = 429, rs_retry_after_hint = Some 30, rs_retry_info_hint = None\<rparr>"


text \<open>
  C35. Without a budget the loop makes at most one call more than the configured retries; with a
  negative number of retries it makes no call and returns nothing.
\<close>

theorem legacy_retries_bounded:
  "int (snd (snd (apply_policy retries exec clock jitter None))) \<le> max 0 (retries + 1) \<and>
   (retries < 0 \<longrightarrow> apply_policy retries exec clock jitter None = (Inr None, None, 0))"
proof -
  obtain r m where loop: "apply_legacy exec retries 0 (nat (retries + 1)) = (r, m)" by (rule prod.exhaust)
  from apply_legacy_calls [OF loop] loop show ?thesis by (auto simp: apply_policy_def)
qed

theorem legacy_retries_bounded_witness:
  "apply_policy (- 1) sample_exec (\<lambda>k. of_nat k) (\<lambda>_. 0) None = (Inr None, None, 0)"
  using legacy_retries_bounded [of "- 1" sample_exec "\<lambda>k. of_nat k" "\<lambda>_. 0"] by simp

end
