(* ===== verification/Rate_Limiter.thy ===== *)
theory Rate_Limiter
  imports Circuit_Breaker Dual_Accounting
begin

text \<open>
  The gateway's rate limiter: the manager (\<open>src/se/src/transport/gateway/limiter/__init__.py\<close>), the two
  algorithms (\<open>algorithms/token_bucket.py\<close>, \<open>algorithms/sliding_window.py\<close>) and the Lua scripts they
  run on the server (\<open>scripts/token_bucket.lua\<close>, \<open>scripts/sliding_window.lua\<close>).

  The Redis server is a parameter: \<open>'s\<close> is its state and the record \<open>redis\<close> holds the commands the
  scripts call. What is relied on is stated in \<open>redis_hash_ok\<close> and \<open>redis_zset_ok\<close>. Numbers are rational;
  the sequence of replies of a script is its Lua table. A script that fails keeps the writes it has
  made.
\<close>

section \<open>The commands of the server\<close>

datatype limiter_error = AttributeError | RedisError | UnknownAlgorithm

record 's redis =
  rd_hgetall :: "'s \<Rightarrow> string \<Rightarrow> (string \<times> rat) list"
  rd_hset :: "string \<Rightarrow> (string \<times> rat) list \<Rightarrow> 's \<Rightarrow> 's"
  rd_expire :: "string \<Rightarrow> rat option \<Rightarrow> 's \<Rightarrow> limiter_error + 's"
  rd_zremrangebyscore :: "string \<Rightarrow> rat \<Rightarrow> 's \<Rightarrow> 's"
  rd_zcard :: "'s \<Rightarrow> string \<Rightarrow> nat"
  rd_zadd :: "string \<Rightarrow> rat \<Rightarrow> rat \<Rightarrow> 's \<Rightarrow> 's"
  rd_reply :: "rat \<Rightarrow> rat"
  rd_up :: "'s \<Rightarrow> bool"

section \<open>The scripts\<close>

definition argv :: "rat list \<Rightarrow> nat \<Rightarrow> rat option" where
  "argv args i = (if i \<le> length args then Some (args ! (i - 1)) else None)"

definition hash_value :: "(string \<times> rat) list \<Rightarrow> nat \<Rightarrow> rat option" where
  "hash_value bucket i = (if i < length bucket then Some (snd (bucket ! i)) else None)"

definition lua_or :: "rat option \<Rightarrow> rat \<Rightarrow> rat" where
  "lua_or m x = (case m of None \<Rightarrow> x | Some v \<Rightarrow> v)"

text \<open>The tokens in the bucket at \<open>current_time\<close>, refilled since the last admission.\<close>

definition bucket_tokens :: "(string \<times> rat) list \<Rightarrow> rat \<Rightarrow> rat \<Rightarrow> rat \<Rightarrow> rat" where
  "bucket_tokens bucket capacity refill_rate current_time =
     (let last_refill = lua_or (hash_value bucket 1) current_time;
          tokens = lua_or (hash_value bucket 0) capacity;
          time_passed = current_time - last_refill
      in min capacity (tokens + time_passed * refill_rate))"

definition token_bucket_lua :: "'s redis \<Rightarrow> string \<Rightarrow> rat list \<Rightarrow> 's \<Rightarrow> (limiter_error + rat \<times> rat \<times> rat) \<times> 's" where
  "token_bucket_lua R key args s =
     (case (argv args 1, argv args 2, argv args 3, argv args 4) of
        (Some capacity, Some refill_rate, Some cost, Some current_time) \<Rightarrow>
          (let tokens = bucket_tokens (rd_hgetall R s key) capacity refill_rate current_time in
           if cost \<le> tokens
           then (let remaining = tokens - cost;
                     s1 = rd_hset R key [(''tokens'', remaining), (''last_refill'', current_time)] s in
                 case rd_expire R key (argv args 5) s1 of
                   Inl e \<Rightarrow> (Inl e, s1)
                 | Inr s2 \<Rightarrow> (Inr (1, remaining, 0), s2))
           else (Inr (0, tokens, (cost - tokens) / refill_rate), s))
      | _ \<Rightarrow> (Inl RedisError, s))"

definition sliding_window_lua :: "'s redis \<Rightarrow> string \<Rightarrow> rat list \<Rightarrow> 's \<Rightarrow> (limiter_error + rat \<times> rat) \<times> 's" where
  "sliding_window_lua R key args s =
     (case (argv args 1, argv args 2, argv args 3) of
        (Some limit, Some window_size, Some current_time) \<Rightarrow>
          (let s1 = rd_zremrangebyscore R key (current_time - window_size) s;
               current_count = of_nat (rd_zcard R s1 key) in
           if current_count < limit
           then (let s2 = rd_zadd R key current_time current_time s1 in
                 case rd_expire R key (argv args 4) s2 of
                   Inl e \<Rightarrow> (Inl e, s2)
                 | Inr s3 \<Rightarrow> (Inr (1, limit - (current_count + 1)), s3))
           else (Inr (0, 0), s1))
      | _ \<Rightarrow> (Inl RedisError, s))"

section \<open>The algorithms\<close>

record rate_limit_settings =
  rl_algorithm :: string
  rl_capacity :: rat
  rl_refill_rate :: rat
  rl_limit :: rat
  rl_window_size :: rat
  rl_cache_expire_seconds :: rat
  rl_fail_mode :: string

datatype limiter =
    TokenBucketLimiter (tbl_capacity: rat) (tbl_refill_rate: rat) (tbl_ttl: rat)
  | SlidingWindowLimiter (swl_limit: rat) (swl_window_size: rat) (swl_ttl: rat)

definition token_bucket_from_config :: "rate_limit_settings \<Rightarrow> limiter" where
  "token_bucket_from_config c = TokenBucketLimiter (rl_capacity c) (rl_refill_rate c) (rl_cache_expire_seconds c)"

definition sliding_window_from_config :: "rate_limit_settings \<Rightarrow> limiter" where
  "sliding_window_from_config c = SlidingWindowLimiter (rl_limit c) (rl_window_size c) (rl_cache_expire_seconds c)"

definition create_limiter :: "string \<Rightarrow> rate_limit_settings \<Rightarrow> limiter_error + limiter" where
  "create_limiter algorithm c =
     (if algorithm = ''token_bucket'' then Inr (token_bucket_from_config c)
      else if algorithm = ''sliding_window'' then Inr (sliding_window_from_config c)
      else Inl UnknownAlgorithm)"

definition int_trunc :: "rat \<Rightarrow> int" where
  "int_trunc x = (if 0 \<le> x then \<lfloor>x\<rfloor> else \<lceil>x\<rceil>)"

text \<open>\<open>rd_reply\<close> is how the server converts a Lua number for the client; \<open>rd_up\<close> says whether it can be reached.\<close>

definition storage_execute :: "'s redis \<Rightarrow> ('s \<Rightarrow> (limiter_error + 'a) \<times> 's) \<Rightarrow> 's \<Rightarrow> (limiter_error + 'a) \<times> 's" where
  "storage_execute R script s = (if rd_up R s then script s else (Inl RedisError, s))"

definition token_bucket_is_allowed :: "'s redis \<Rightarrow> rat \<Rightarrow> rat \<Rightarrow> rat \<Rightarrow> string \<Rightarrow> int \<Rightarrow> 's \<Rightarrow> (limiter_error + rat \<times> rat \<times> rat) \<times> 's" where
  "token_bucket_is_allowed R capacity refill_rate ttl key cost s =
     (case storage_execute R (token_bucket_lua R key [capacity, refill_rate, of_int cost, ttl]) s of
        (Inr (allowed, remaining, wait_time), s') \<Rightarrow>
          (Inr (rd_reply R allowed, of_int (int_trunc (rd_reply R remaining)), rd_reply R wait_time), s')
      | (Inl e, s') \<Rightarrow> (Inl e, s'))"

definition sliding_window_is_allowed :: "'s redis \<Rightarrow> rat \<Rightarrow> rat \<Rightarrow> rat \<Rightarrow> string \<Rightarrow> int \<Rightarrow> 's \<Rightarrow> (limiter_error + rat \<times> rat \<times> rat) \<times> 's" where
  "sliding_window_is_allowed R limit window_size ttl key cost s =
     (case storage_execute R (sliding_window_lua R key [limit, window_size, ttl]) s of
        (Inr (allowed, remaining), s') \<Rightarrow> (Inr (rd_reply R allowed, rd_reply R remaining, 0), s')
      | (Inl e, s') \<Rightarrow> (Inl e, s'))"

fun limiter_is_allowed :: "'s redis \<Rightarrow> limiter \<Rightarrow> string \<Rightarrow> int \<Rightarrow> 's \<Rightarrow> (limiter_error + rat \<times> rat \<times> rat) \<times> 's" where
  "limiter_is_allowed R (TokenBucketLimiter capacity refill_rate ttl) = token_bucket_is_allowed R capacity refill_rate ttl"
| "limiter_is_allowed R (SlidingWindowLimiter limit window_size ttl) = sliding_window_is_allowed R limit window_size ttl"

section \<open>The manager\<close>

text \<open>
  The constructor assigns the circuit breaker manager and the limiter, and no other attribute; the
  methods read \<open>self.config\<close>, which an instance does not have.
\<close>

record rate_limiter_manager =
  rlm_circuit_breakers :: circuit_breaker_settings
  rlm_limiter :: limiter

record limiter_config =
  lc_key_prefix :: string
  lc_fail_mode :: string

definition new_rate_limiter_manager :: "circuit_breaker_settings \<Rightarrow> rate_limit_settings \<Rightarrow> limiter_error + rate_limiter_manager" where
  "new_rate_limiter_manager cb config =
     bindR (create_limiter (map lower_char (rl_algorithm config)) config) (\<lambda>limiter.
     Inr \<lparr>rlm_circuit_breakers = cb, rlm_limiter = limiter\<rparr>)"

definition manager_config :: "rate_limiter_manager \<Rightarrow> limiter_error + limiter_config" where
  "manager_config m = Inl AttributeError"

definition get_rate_limit_key :: "identity \<Rightarrow> string" where
  "get_rate_limit_key ident =
     (case none_if_empty (id_api_key_id ident) of
        Some k \<Rightarrow> k
      | None \<Rightarrow>
          (case none_if_empty (id_organization_id ident) of
             Some k \<Rightarrow> k
           | None \<Rightarrow> (case none_if_empty (id_user_id ident) of Some k \<Rightarrow> k | None \<Rightarrow> ''anonymous'')))"

definition apply_fail_over_strategy :: "rate_limiter_manager \<Rightarrow> limiter_error + bool \<times> rat" where
  "apply_fail_over_strategy m =
     bindR (manager_config m) (\<lambda>c. Inr (if lc_fail_mode c = ''closed'' then (False, - 1) else (True, 0)))"

definition execute_check :: "'s redis \<Rightarrow> rate_limiter_manager \<Rightarrow> identity \<Rightarrow> string \<Rightarrow> int \<Rightarrow> 's \<Rightarrow> (limiter_error + bool \<times> rat) \<times> 's" where
  "execute_check R m ident plan cost s =
     (case manager_config m of
        Inl e \<Rightarrow> (Inl e, s)
      | Inr c \<Rightarrow>
          (case limiter_is_allowed R (rlm_limiter m)
                  (lc_key_prefix c @ '':rate_limit:plan:'' @ plan @ '':'' @ get_rate_limit_key ident) cost s of
             (Inl e, s') \<Rightarrow> (Inl e, s')
           | (Inr (allowed, _, wait_time), s') \<Rightarrow> (Inr (allowed \<noteq> 0, wait_time), s')))"

definition manager_is_allowed :: "'s redis \<Rightarrow> rate_limiter_manager \<Rightarrow> rat \<Rightarrow> rat \<Rightarrow> identity \<Rightarrow> string \<Rightarrow> int \<Rightarrow> breakers \<times> 's \<Rightarrow>
    (limiter_error + bool \<times> rat) \<times> breakers \<times> 's" where
  "manager_is_allowed R m before after ident plan cost st =
     (let name = ''redis_rate_limiter''; (b, bs) = get_breaker (rlm_circuit_breakers m) name (fst st); s = snd st in
      case before_request before b of
        (Inl CircuitBreakerOpenError, b) \<Rightarrow> (apply_fail_over_strategy m, dict_set name b bs, s)
      | (Inr _, b) \<Rightarrow>
          (case execute_check R m ident plan cost s of
             (Inr result, s') \<Rightarrow> (Inr result, dict_set name (on_success b) bs, s')
           | (Inl e, s') \<Rightarrow>
               if e = RedisError then (apply_fail_over_strategy m, dict_set name (on_failure after b) bs, s')
               else (Inl e, dict_set name b bs, s')))"

section \<open>What is relied on of the server\<close>

definition bucket_shape :: "(string \<times> rat) list \<Rightarrow> bool" where
  "bucket_shape h \<longleftrightarrow> h = [] \<or> map fst h = [''tokens'', ''last_refill'']"

text \<open>
  HSET on a hash that is absent or holds these two fields leaves them with the new values in this
  order; EXPIRE with a number succeeds and does not change the hash; EXPIRE with a nil argument is an
  error. No key expires during the run.
\<close>

definition redis_hash_ok :: "'s redis \<Rightarrow> string \<Rightarrow> bool" where
  "redis_hash_ok R key \<longleftrightarrow>
     (\<forall>s x y. bucket_shape (rd_hgetall R s key) \<longrightarrow>
        rd_hgetall R (rd_hset R key [(''tokens'', x), (''last_refill'', y)] s) key = [(''tokens'', x), (''last_refill'', y)]) \<and>
     (\<forall>s ttl. \<exists>s'. rd_expire R key (Some ttl) s = Inr s' \<and> rd_hgetall R s' key = rd_hgetall R s key)"

definition redis_zset_ok :: "'s redis \<Rightarrow> string \<Rightarrow> ('s \<Rightarrow> rat set) \<Rightarrow> bool" where
  "redis_zset_ok R key members \<longleftrightarrow>
     (\<forall>s. finite (members s) \<and> rd_zcard R s key = card (members s)) \<and>
     (\<forall>s x. members (rd_zremrangebyscore R key x s) = {m \<in> members s. x < m}) \<and>
     (\<forall>s t. members (rd_zadd R key t t s) = insert t (members s)) \<and>
     (\<forall>s ttl. \<exists>s'. rd_expire R key (Some ttl) s = Inr s' \<and> members s' = members s)"

definition redis_nil_error :: "'s redis \<Rightarrow> bool" where
  "redis_nil_error R \<longleftrightarrow> (\<forall>key s. rd_expire R key None s = Inl RedisError)"

section \<open>The token bucket\<close>

text \<open>The total cost admitted when the script is called with the five arguments it documents.\<close>

fun admitted_cost :: "'s redis \<Rightarrow> string \<Rightarrow> rat \<Rightarrow> rat \<Rightarrow> rat \<Rightarrow> (rat \<times> rat) list \<Rightarrow> 's \<Rightarrow> rat" where
  "admitted_cost R key capacity rate ttl [] s = 0"
| "admitted_cost R key capacity rate ttl ((t, c) # calls) s =
     (case token_bucket_lua R key [capacity, rate, c, t, ttl] s of
        (r, s') \<Rightarrow> (case r of Inr (allowed, _, _) \<Rightarrow> (if allowed = 1 then c else 0) | Inl _ \<Rightarrow> 0) +
          admitted_cost R key capacity rate ttl calls s')"

lemma token_bucket_step:
  assumes "redis_hash_ok R key" "bucket_shape (rd_hgetall R s key)"
  obtains (admitted) s' where "c \<le> bucket_tokens (rd_hgetall R s key) capacity rate t"
      "token_bucket_lua R key [capacity, rate, c, t, ttl] s = (Inr (1, bucket_tokens (rd_hgetall R s key) capacity rate t - c, 0), s')"
      "rd_hgetall R s' key = [(''tokens'', bucket_tokens (rd_hgetall R s key) capacity rate t - c), (''last_refill'', t)]"
  | (denied) "bucket_tokens (rd_hgetall R s key) capacity rate t < c"
      "token_bucket_lua R key [capacity, rate, c, t, ttl] s =
         (Inr (0, bucket_tokens (rd_hgetall R s key) capacity rate t, (c - bucket_tokens (rd_hgetall R s key) capacity rate t) / rate), s)"
proof (cases "c \<le> bucket_tokens (rd_hgetall R s key) capacity rate t")
  case True
  let ?k = "bucket_tokens (rd_hgetall R s key) capacity rate t - c"
  let ?s1 = "rd_hset R key [(''tokens'', ?k), (''last_refill'', t)] s"
  obtain s' where s': "rd_expire R key (Some ttl) ?s1 = Inr s'" "rd_hgetall R s' key = rd_hgetall R ?s1 key"
    using assms(1) unfolding redis_hash_ok_def by blast
  with True assms show thesis by (intro admitted [of s']) (auto simp: token_bucket_lua_def argv_def Let_def redis_hash_ok_def)
next
  case False
  then show thesis by (intro denied) (auto simp: token_bucket_lua_def argv_def Let_def)
qed

lemma token_bucket_result:
  assumes "redis_hash_ok R key" "bucket_shape (rd_hgetall R s key)" "tok = bucket_tokens (rd_hgetall R s key) capacity rate t"
  shows "fst (token_bucket_lua R key [capacity, rate, c, t, ttl] s) =
      (if c \<le> tok then Inr (1, tok - c, 0) else Inr (0, tok, (c - tok) / rate))"
    "tok < c \<Longrightarrow> snd (token_bucket_lua R key [capacity, rate, c, t, ttl] s) = s"
  by (rule token_bucket_step [OF assms(1,2), of c capacity rate t ttl]; simp add: assms(3))+

lemma refill_bound:
  assumes "0 \<le> rate" "t0 \<le> t" "bucket_shape h"
  shows "bucket_tokens h capacity rate t \<le> bucket_tokens h capacity rate t0 + rate * (t - t0)"
proof -
  have "0 \<le> rate * (t - t0)" using assms(1,2) by simp
  with assms(3) show ?thesis
    by (auto simp: bucket_shape_def bucket_tokens_def hash_value_def lua_or_def Let_def algebra_simps min_def
        split: option.splits)
qed

lemma admitted_cost_bound:
  assumes "redis_hash_ok R key" "0 \<le> rate" "bucket_shape (rd_hgetall R s key)"
    and "sorted (map fst calls)" "\<forall>(t, c) \<in> set calls. t0 \<le> t \<and> t \<le> T \<and> 0 \<le> c" "t0 \<le> T"
    and "0 \<le> bucket_tokens (rd_hgetall R s key) capacity rate t0"
  shows "admitted_cost R key capacity rate ttl calls s \<le> bucket_tokens (rd_hgetall R s key) capacity rate t0 + rate * (T - t0)"
  using assms(3-)
proof (induction calls arbitrary: s t0)
  case Nil
  then show ?case using assms(2) by simp
next
  case (Cons call calls)
  obtain t c where call: "call = (t, c)" by (cases call)
  let ?h = "rd_hgetall R s key"
  have t: "t0 \<le> t" "t \<le> T" "0 \<le> c" using Cons.prems(3) by (auto simp: call)
  have rest: "sorted (map fst calls)" "\<forall>(t', c) \<in> set calls. t \<le> t' \<and> t' \<le> T \<and> 0 \<le> c"
    using Cons.prems(2,3) by (auto simp: call)
  have up: "bucket_tokens ?h capacity rate t \<le> bucket_tokens ?h capacity rate t0 + rate * (t - t0)"
    by (rule refill_bound [OF assms(2) t(1) Cons.prems(1)])
  have split: "rate * (T - t0) = rate * (t - t0) + rate * (T - t)" by (simp add: algebra_simps)
  show ?case
  proof (rule token_bucket_step [OF assms(1) Cons.prems(1), where c = c and capacity = capacity and rate = rate and t = t and ttl = ttl])
    fix s' assume a: "c \<le> bucket_tokens ?h capacity rate t"
      "token_bucket_lua R key [capacity, rate, c, t, ttl] s = (Inr (1, bucket_tokens ?h capacity rate t - c, 0), s')"
      and h': "rd_hgetall R s' key = [(''tokens'', bucket_tokens ?h capacity rate t - c), (''last_refill'', t)]"
    have "bucket_tokens ?h capacity rate t \<le> capacity" by (simp add: bucket_tokens_def Let_def)
    then have lvl: "bucket_tokens (rd_hgetall R s' key) capacity rate t = bucket_tokens ?h capacity rate t - c"
      using t(3) unfolding h' by (simp add: bucket_tokens_def [of "[(''tokens'', bucket_tokens ?h capacity rate t - c), (''last_refill'', t)]"]
          hash_value_def lua_or_def)
    have "admitted_cost R key capacity rate ttl calls s' \<le> bucket_tokens ?h capacity rate t - c + rate * (T - t)"
      using Cons.IH [of s' t] rest t a(1) unfolding lvl by (simp add: h' bucket_shape_def)
    with a(2) up split show ?thesis by (simp add: call)
  next
    assume d: "bucket_tokens ?h capacity rate t < c"
      "token_bucket_lua R key [capacity, rate, c, t, ttl] s =
         (Inr (0, bucket_tokens ?h capacity rate t, (c - bucket_tokens ?h capacity rate t) / rate), s)"
    show ?thesis
    proof (cases "0 \<le> bucket_tokens ?h capacity rate t")
      case True
      from Cons.IH [OF Cons.prems(1) rest t(2) True] d(2) up split show ?thesis by (simp add: call)
    next
      case False
      have "admitted_cost R key capacity rate ttl calls s \<le> bucket_tokens ?h capacity rate t0 + rate * (T - t0)"
        using Cons.IH [OF Cons.prems(1) rest(1) _ Cons.prems(4,5)] Cons.prems(3) by (simp add: call)
      with d(2) show ?thesis by (simp add: call)
    qed
  qed
qed

section \<open>The sliding window\<close>

text \<open>The times at which the script admits a request, called with the four arguments it documents.\<close>

fun admitted_times :: "'s redis \<Rightarrow> string \<Rightarrow> rat \<Rightarrow> rat \<Rightarrow> rat \<Rightarrow> rat list \<Rightarrow> 's \<Rightarrow> rat list" where
  "admitted_times R key limit window ttl [] s = []"
| "admitted_times R key limit window ttl (t # ts) s =
     (case sliding_window_lua R key [limit, window, t, ttl] s of
        (r, s') \<Rightarrow> (case r of Inr (allowed, _) \<Rightarrow> (if allowed = 1 then [t] else []) | Inl _ \<Rightarrow> []) @
          admitted_times R key limit window ttl ts s')"

definition in_window :: "rat \<Rightarrow> rat \<Rightarrow> rat set \<Rightarrow> rat set" where
  "in_window w x A = {m \<in> A. x < m \<and> m \<le> x + w}"

definition windows_ok :: "nat \<Rightarrow> rat \<Rightarrow> rat set \<Rightarrow> bool" where
  "windows_ok n w A \<longleftrightarrow> (\<forall>x. card (in_window w x A) \<le> n)"

lemma sliding_window_step:
  assumes "redis_zset_ok R key members"
  obtains (admitted) s' k where "of_nat (card {m \<in> members s. t - w < m}) < limit"
      "sliding_window_lua R key [limit, w, t, ttl] s = (Inr (1, k), s')"
      "members s' = insert t {m \<in> members s. t - w < m}"
  | (denied) s' where "limit \<le> of_nat (card {m \<in> members s. t - w < m})"
      "sliding_window_lua R key [limit, w, t, ttl] s = (Inr (0, 0), s')"
      "members s' = {m \<in> members s. t - w < m}"
proof -
  let ?s1 = "rd_zremrangebyscore R key (t - w) s"
  have m1: "members ?s1 = {m \<in> members s. t - w < m}" "rd_zcard R ?s1 key = card (members ?s1)"
    using assms by (auto simp: redis_zset_ok_def)
  obtain s' where s': "rd_expire R key (Some ttl) (rd_zadd R key t t ?s1) = Inr s'" "members s' = members (rd_zadd R key t t ?s1)"
    using assms unfolding redis_zset_ok_def by blast
  have m2: "members s' = insert t {m \<in> members s. t - w < m}"
    using assms s'(2) by (auto simp: redis_zset_ok_def)
  show thesis
  proof (cases "of_nat (card {m \<in> members s. t - w < m}) < limit")
    case True
    with s'(1) m1 show thesis by (intro admitted [of _ s', OF _ _ m2]) (auto simp: sliding_window_lua_def argv_def Let_def)
  next
    case False
    with m1 show thesis by (intro denied [of ?s1, OF _ _ m1(1)]) (auto simp: sliding_window_lua_def argv_def Let_def)
  qed
qed

lemma windows_ok_insert:
  assumes "finite A" "windows_ok n w A" "card {m \<in> A. t - w < m} < n"
  shows "windows_ok n w (insert t A)"
  unfolding windows_ok_def
proof
  fix x
  show "card (in_window w x (insert t A)) \<le> n"
  proof (cases "x < t \<and> t \<le> x + w")
    case True
    then have "in_window w x (insert t A) \<subseteq> insert t {m \<in> A. t - w < m}"
      by (auto simp: in_window_def)
    then have "card (in_window w x (insert t A)) \<le> card (insert t {m \<in> A. t - w < m})"
      using assms(1) by (intro card_mono) auto
    also have "\<dots> \<le> Suc (card {m \<in> A. t - w < m})" by (rule card_insert_le_m1) auto
    finally show ?thesis using assms(3) by simp
  next
    case False
    then have "in_window w x (insert t A) = in_window w x A" by (auto simp: in_window_def)
    then show ?thesis using assms(2) by (simp add: windows_ok_def)
  qed
qed

text \<open>\<open>A\<close> is every time admitted so far; the set the server keeps lacks only those no later window reaches.\<close>

lemma admitted_times_windows:
  assumes "redis_zset_ok R key members" "finite A" "windows_ok n w A" "members s \<subseteq> A" "sorted ts"
    and "\<forall>m \<in> A - members s. \<forall>t \<in> set ts. m \<le> t - w"
  shows "windows_ok n w (A \<union> set (admitted_times R key (of_nat n) w ttl ts s))"
  using assms(2-)
proof (induction ts arbitrary: s A)
  case Nil
  then show ?case by simp
next
  case (Cons t ts)
  have kept: "{m \<in> members s. t - w < m} = {m \<in> A. t - w < m}"
    using Cons.prems(3,5) by force
  have later: "\<forall>t' \<in> set ts. t \<le> t'" "sorted ts" using Cons.prems(4) by auto
  show ?case
  proof (rule sliding_window_step [OF assms(1), where s = s and t = t and w = w and limit = "of_nat n" and ttl = ttl])
    fix s' k
    assume a: "of_nat (card {m \<in> members s. t - w < m}) < (of_nat n :: rat)"
      "sliding_window_lua R key [of_nat n, w, t, ttl] s = (Inr (1, k), s')"
      and m: "members s' = insert t {m \<in> members s. t - w < m}"
    have "windows_ok n w (insert t A)"
      using windows_ok_insert [OF Cons.prems(1,2), of t] a(1) kept by simp
    from Cons.IH [OF _ this, of s'] Cons.prems(1) a(2) later m kept show ?thesis by fastforce
  next
    fix s'
    assume d: "sliding_window_lua R key [of_nat n, w, t, ttl] s = (Inr (0, 0), s')"
      and m: "members s' = {m \<in> members s. t - w < m}"
    from Cons.IH [OF Cons.prems(1,2), of s'] d later m kept show ?thesis by fastforce
  qed
qed

lemma same_instant_admitted:
  assumes "redis_zset_ok R key members" "1 < limit" "members s \<subseteq> {t}"
  shows "admitted_times R key limit w ttl (replicate n t) s = replicate n t"
  using assms(3)
proof (induction n arbitrary: s)
  case (Suc n)
  have "card {m \<in> members s. t - w < m} \<le> card {t}" using Suc.prems by (intro card_mono) auto
  then have "of_nat (card {m \<in> members s. t - w < m}) \<le> (of_nat 1 :: rat)" by (simp only: of_nat_le_iff) simp
  then have lt: "of_nat (card {m \<in> members s. t - w < m}) < limit" using assms(2) by simp
  show ?case
  proof (rule sliding_window_step [OF assms(1), where s = s and t = t and w = w and limit = limit and ttl = ttl])
    fix s' k assume "sliding_window_lua R key [limit, w, t, ttl] s = (Inr (1, k), s')"
      "members s' = insert t {m \<in> members s. t - w < m}"
    with Suc.IH [of s'] Suc.prems show ?thesis by auto
  next
    assume "limit \<le> of_nat (card {m \<in> members s. t - w < m})"
    with lt show ?thesis by simp
  qed
qed simp

text \<open>A server that keeps its keys in memory, on which the hypotheses hold.\<close>

definition mem_redis :: "((string \<Rightarrow> (string \<times> rat) list) \<times> (string \<Rightarrow> rat list)) redis" where
  "mem_redis =
     \<lparr>rd_hgetall = \<lambda>s k. fst s k,
      rd_hset = \<lambda>k fs s. ((fst s)(k := fold (\<lambda>(f, v). dict_set f v) fs (fst s k)), snd s),
      rd_expire = \<lambda>k ttl s. (case ttl of None \<Rightarrow> Inl RedisError | Some _ \<Rightarrow> Inr s),
      rd_zremrangebyscore = \<lambda>k x s. (fst s, (snd s)(k := filter (\<lambda>m. x < m) (snd s k))),
      rd_zcard = \<lambda>s k. card (set (snd s k)),
      rd_zadd = \<lambda>k score m s. (fst s, (snd s)(k := List.insert m (snd s k))),
      rd_reply = \<lambda>x. of_int (int_trunc x),
      rd_up = \<lambda>_. True\<rparr>"

definition empty_store :: "(string \<Rightarrow> (string \<times> rat) list) \<times> (string \<Rightarrow> rat list)" where
  "empty_store = (\<lambda>_. [], \<lambda>_. [])"

lemma mem_redis_ok: "redis_hash_ok mem_redis key" "redis_zset_ok mem_redis key (\<lambda>s. set (snd s key))" "redis_nil_error mem_redis"
proof -
  show "redis_hash_ok mem_redis key"
    by (auto simp: redis_hash_ok_def mem_redis_def bucket_shape_def map_eq_Cons_conv)
  show "redis_zset_ok mem_redis key (\<lambda>s. set (snd s key))" by (auto simp: redis_zset_ok_def mem_redis_def)
  show "redis_nil_error mem_redis" by (simp add: redis_nil_error_def mem_redis_def)
qed

section \<open>The waiting time, and the calls the algorithms make\<close>

text \<open>
  The waiting time the script computes for a refused request is exact: the same request is admitted
  at every instant from then on, and at no earlier one.
\<close>

lemma token_bucket_wait_exact:
  assumes "redis_hash_ok R key" "rd_hgetall R s key = [(''tokens'', k), (''last_refill'', l)]" "0 < rate" "c \<le> capacity"
    and "token_bucket_lua R key [capacity, rate, c, t, ttl] s = (Inr (0, left, wait), s')" "t \<le> t'"
  shows "s' = s \<and> 0 < wait \<and>
    (fst (token_bucket_lua R key [capacity, rate, c, t', ttl] s') \<in> {Inr (1, x, 0) | x. True} \<longleftrightarrow> t + wait \<le> t')"
proof -
  have shape: "bucket_shape (rd_hgetall R s key)" by (simp add: assms(2) bucket_shape_def)
  have tok: "bucket_tokens (rd_hgetall R s key) capacity rate x = min capacity (k + (x - l) * rate)" for x
    by (simp add: assms(2) bucket_tokens_def hash_value_def lua_or_def)
  note r = token_bucket_result [OF assms(1) shape refl, where capacity = capacity and rate = rate and c = c and ttl = ttl]
  have c: "bucket_tokens (rd_hgetall R s key) capacity rate t < c" and w: "wait = (c - bucket_tokens (rd_hgetall R s key) capacity rate t) / rate"
    using r(1) [where t = t] assms(5) by (auto split: if_splits)
  have s': "s' = s" using r(2) [OF c] assms(5) by simp
  have d: "k + (t - l) * rate < c" "wait = (c - (k + (t - l) * rate)) / rate"
    using c w assms(4) by (auto simp: tok)
  have "c \<le> bucket_tokens (rd_hgetall R s key) capacity rate t' \<longleftrightarrow> t + wait \<le> t'"
    using assms(3,4) by (auto simp: tok d(2) field_simps)
  moreover have "0 < wait" using d assms(3) by simp
  ultimately show ?thesis using r(1) [where t = t'] s' by auto
qed

text \<open>
  The scripts are called with one argument too few. Neither algorithm ever admits a request: the
  time-to-live is taken for the current time and the last argument is missing, so a request that
  should be admitted ends in a server error, after its tokens have been taken.
\<close>

lemma limiter_never_admits:
  assumes "redis_nil_error R" "rd_reply R 0 = 0" "limiter_is_allowed R l key cost s = (r, s')"
  shows "r = Inl RedisError \<or> (\<exists>left wait. r = Inr (0, left, wait))"
  using assms
  by (cases l) (auto simp: token_bucket_is_allowed_def sliding_window_is_allowed_def storage_execute_def
      token_bucket_lua_def sliding_window_lua_def argv_def redis_nil_error_def Let_def split: if_splits)

text \<open>
  The bound is on instants and not on requests. The member the script adds is the time itself, so
  with a limit above one every one of any number of requests at the same instant is admitted.
\<close>

lemma same_instant_unlimited:
  assumes "redis_zset_ok R key members" "members s = {}" "1 < limit"
  shows "length (admitted_times R key limit w ttl (replicate n t) s) = n"
  using same_instant_admitted [OF assms(1,3), of s t w ttl n] assms(2) by simp

section \<open>Properties\<close>






end
