(* ===== verification/Spec2Isabelle.thy ===== *)
theory Spec2Isabelle
  imports Tool_Lifecycle Sample_Mirror Sample_Inference Sample_Task Sample_Execution Circuit_Breaker Provider_Retry Rate_Limiter
begin

text \<open>
  Verification of the control plane of the assistant service
  (\<open>src/se/src\<close>): renewable user budgets, the budget of an agent task, the provider circuit breaker
  and retry policy, and the gateway's rate limiter.

  \<^bold>\<open>The program.\<close> The service runs agents for its users. Each model call and each tool call is charged
  to two accounts kept in one SQL database: the budget of the agent's task
  (\<open>runtimes/agent/task_budget.py\<close>) and the renewable budget of the user
  (\<open>application/user_budget.py\<close>, \<open>user_tool_quota.py\<close>, \<open>user_inference_quota.py\<close> over
  \<open>infrastructure/storage/repositories/user_budget.py\<close>). Several processes run the same code on the
  database; they meet in transactions that compare a revision before they write and try again when
  they lose. A model call then goes through the retry policy and the circuit breaker of its provider
  (\<open>provider/executor.py\<close>, \<open>provider/policies/retry.py\<close>, \<open>circuit_breaker.py\<close>); a request of a client
  through the rate limiter (\<open>transport/gateway/limiter\<close>).

  \<^bold>\<open>The theories.\<close>

  \<^item> \<open>Prelude\<close>: results with errors, list and map lemmas, and the interfaces of the library: an
    invariant of a transition system, a table with compare-and-set, a transaction that is retried, a
    transaction that continues with what its last attempt learned. Every one is interpreted on the
    code's own operations.
  \<^item> \<open>PyValues\<close>, \<open>Sha256\<close>: what the code uses of Python (dictionaries, JSON, decimal numbers, strings)
    and of \<open>hashlib\<close>.
  \<^item> \<open>Budget_Schemas\<close> (\<open>domain/schemas/user_budget.py\<close>), \<open>Budget_Store\<close>
    (\<open>models/sql/user_budget.py\<close>: a table is the list of its rows, a constraint is checked by the insert
    or update), \<open>Budget_Repository\<close> (one definition per method of \<open>repositories/user_budget.py\<close>).
    \<open>Budget_Invariant\<close> states that every window equals the sum of its ledger and that every
    operation keeps that; \<open>Budget_Progress\<close> when a compare-and-set succeeds; \<open>Budget_Errors\<close> that the
    errors the code calls unreachable are not reached.
  \<^item> \<open>Tool_Quota\<close>, \<open>Quota_Limits\<close>, \<open>Tool_Lifecycle\<close> (\<open>user_tool_quota.py\<close>): admission, settlement and
    release of a tool call; no quota is exceeded under any interleaving; an admission is charged
    once, can be finished and has one terminal state.
  \<^item> \<open>Dual_Accounting\<close> (\<open>application/user_budget.py\<close>): who owns the budget of a task, enrolment, and
    the mirror of a task's charge, which is exact and applied once.
  \<^item> \<open>Inference_Quota\<close>, \<open>Inference_Ledger\<close>, \<open>Inference_Limits\<close> (\<open>user_inference_quota.py\<close>): the four
    reservations of a model call, their settlement with the usage the provider reports.
  \<^item> \<open>Task_Budget\<close>, \<open>Task_Budget_Laws\<close>, \<open>Task_Mirror\<close>, \<open>Task_Service\<close> (\<open>task_budget.py\<close>,
    \<open>domain/schemas/task_budget.py\<close>, and the methods of \<open>repositories/agent.py\<close> it calls): the
    reservations of a task, alone and in one transaction with the mirror. Every reachable state of
    the two tables satisfies their joint invariant; a key is applied once; a call under an old
    incarnation or lease writes nothing.
  \<^item> \<open>Circuit_Breaker\<close>, \<open>Provider_Retry\<close>: the state machine of the breaker and the two retry loops.
  \<^item> \<open>Rate_Limiter\<close>: the manager, the algorithms and the Lua scripts, with the rate they admit.
  \<^item> \<open>Execution_Store\<close> (every method of \<open>repositories/agent.py\<close> that writes \<open>agent_executions\<close>, and the
    operations of \<open>runtimes/agent/persistence.py\<close> around them), \<open>Execution_Lease\<close>: all writes as the steps
    of one system; a lost lease is never honoured again, by the store or by the task budget; an
    unexpired lease ends only by its owner's release; activation and cancellation exclude each other;
    the terminal takeover replays.
  \<^item> \<open>Lease_Scanner\<close> (\<open>runtimes/agent/stale_lease_scanner.py\<close>): the paging loop over expired leases is
    bounded, and on a database at rest it misses none.
  \<^item> \<open>Sample_Run\<close>, \<open>Sample_Mirror\<close>, \<open>Sample_Inference\<close>, \<open>Sample_Task\<close>,
    \<open>Sample_Execution\<close>: concrete databases on which the
    conditional theorems are applied. Digests stay symbolic there: no theorem needs their value.

  \<^bold>\<open>State and effects.\<close> A method that raises returns \<open>Inl\<close> of the exception. A transaction maps a
  database to a result and a database; an exception drops the changes of the transaction. A record
  \<open>tx_env\<close> holds what the other processes do: \<open>others n\<close> is what they commit before attempt \<open>n\<close>,
  \<open>lock_wait n\<close> what they commit while it waits for its row lock, \<open>write_intent n\<close> whether the
  database refuses to start it. Theorems about several processes quantify over every environment
  that keeps the invariant; \<open>quiet_env\<close> is the one where nobody else writes. \<open>race\<close> arguments are
  what is committed between a SELECT and the INSERT that follows it. Times are rational numbers and
  clocks are arguments.

  \<^bold>\<open>Bounds.\<close> The retry loops of the quotas run \<open>max_conflict_retries\<close> attempts, those of the task budget
  \<open>max_attempts\<close>, as in the code; the recursion is on the attempts left, so every function is total.
  The retry loop of the provider stops at its deadline or when its budget is used
  up; it is defined with a termination proof and needs no fuel. Counters are integers with the range
  of the BIGINT columns checked at the write, as PostgreSQL does it; SQLite does not, so there the
  same write would succeed. The lengths of VARCHAR columns are not enforced. \<open>strip\<close> removes ASCII
  white space only.

  \<^bold>\<open>Relied on, not verified.\<close> SHA-256 is defined and evaluated symbolically; no theorem assumes that it
  has no collisions unless its statement says so for named contents. The commands of the Redis
  server are the parameters of \<open>Rate_Limiter\<close>. SQL isolation is as described above: the statements
  of a transaction see the database as of the lock they hold.

  \<^bold>\<open>Not modelled.\<close> The agent's execution loop, its planners and the orchestration of forks, retries,
  aggregation and recovery; the capability runtime, its drivers and the tools; the providers' HTTP clients;
  transport, authentication and the API; assets, messages, context and memory; configuration,
  migrations and storage drivers; the desktop client. They are asynchronous
  orchestration over network services, processes and files, or they pass free-form JSON between
  services, and their state is outside the tables and records above.
\<close>

end
